(* ===== verification/Prelude.thy ===== *)
theory Prelude
  imports Main "HOL-Library.Word" "HOL-Library.Multiset" "HOL-Library.List_Lexorder" "HOL-Library.Char_ord"
begin

unbundle bit_operations_syntax

text \<open>
  Shared vocabulary of the development.

  \<^item> Go values: \<open>int\<close> for \<open>int\<close>, \<open>int64\<close> and instants, with \<open>wrap64\<close> written out where a
    product or sum may leave the 64-bit range; \<open>string\<close> is the Go byte string, so
    \<open>length\<close> is Go's \<open>len\<close>.
  \<^item> The few functions of the Go standard library the program computes with:
    \<open>strings.TrimSpace\<close>, \<open>strings.ToUpper\<close>/\<open>ToLower\<close> (on ASCII letters; other bytes are kept),
    \<open>%d\<close> of package \<open>fmt\<close> and \<open>hex.EncodeToString\<close>.
  \<^item> SQL tables as lists of rows: \<open>update_where\<close> is UPDATE ... WHERE, \<open>rows_where\<close> its
    number of affected rows, \<open>sum_where\<close> the aggregate SUM over selected rows.
  \<^item> The locale \<open>keyed_update\<close>: what holds of an UPDATE that keeps a table's key. Every
    UPDATE statement of the store is an instance of it.
\<close>

named_theorems sql_defs \<open>definitions of the SQL statements\<close>
named_theorems go_defs \<open>definitions of small Go helpers\<close>

section \<open>Machine integers\<close>

definition wrap64 :: "int \<Rightarrow> int" where
  "wrap64 x = (x + 2 ^ 63) mod 2 ^ 64 - 2 ^ 63"

definition int4 :: "int \<Rightarrow> bool" where
  "int4 x \<longleftrightarrow> - (2 ^ 31) \<le> x \<and> x < 2 ^ 31"

definition int8 :: "int \<Rightarrow> bool" where
  "int8 x \<longleftrightarrow> - (2 ^ 63) \<le> x \<and> x < 2 ^ 63"

lemma wrap64_id: "int8 x \<Longrightarrow> wrap64 x = x"
  by (simp add: wrap64_def int8_def)

lemma wrap64_int8: "int8 (wrap64 x)"
proof -
  have "0 \<le> (x + 2 ^ 63) mod 2 ^ 64" and "(x + 2 ^ 63) mod 2 ^ 64 < 2 ^ 64"
    by simp_all
  then show ?thesis by (simp add: wrap64_def int8_def)
qed

lemma wrap64_sint: "wrap64 x = sint (word_of_int x :: 64 word)"
  by (simp add: wrap64_def sint_sbintrunc' signed_take_bit_eq_take_bit_shift take_bit_eq_mod)

section \<open>Strings\<close>

definition space_runes :: "string list" where
  "space_runes = [[CHR 0x09], [CHR 0x0A], [CHR 0x0B], [CHR 0x0C], [CHR 0x0D], [CHR 0x20],
     [CHR 0xC2, CHR 0x85], [CHR 0xC2, CHR 0xA0], [CHR 0xE1, CHR 0x9A, CHR 0x80],
     [CHR 0xE2, CHR 0x80, CHR 0x80], [CHR 0xE2, CHR 0x80, CHR 0x81], [CHR 0xE2, CHR 0x80, CHR 0x82],
     [CHR 0xE2, CHR 0x80, CHR 0x83], [CHR 0xE2, CHR 0x80, CHR 0x84], [CHR 0xE2, CHR 0x80, CHR 0x85],
     [CHR 0xE2, CHR 0x80, CHR 0x86], [CHR 0xE2, CHR 0x80, CHR 0x87], [CHR 0xE2, CHR 0x80, CHR 0x88],
     [CHR 0xE2, CHR 0x80, CHR 0x89], [CHR 0xE2, CHR 0x80, CHR 0x8A], [CHR 0xE2, CHR 0x80, CHR 0xA8],
     [CHR 0xE2, CHR 0x80, CHR 0xA9], [CHR 0xE2, CHR 0x80, CHR 0xAF], [CHR 0xE2, CHR 0x81, CHR 0x9F],
     [CHR 0xE3, CHR 0x80, CHR 0x80]]"

fun strip_prefix :: "string \<Rightarrow> string \<Rightarrow> string option" where
  "strip_prefix [] s = Some s"
| "strip_prefix (p # ps) [] = None"
| "strip_prefix (p # ps) (c # cs) = (if p = c then strip_prefix ps cs else None)"

fun strip_any :: "string list \<Rightarrow> string \<Rightarrow> string option" where
  "strip_any [] s = None"
| "strip_any (p # ps) s = (case strip_prefix p s of Some t \<Rightarrow> Some t | None \<Rightarrow> strip_any ps s)"

fun trim_with :: "string list \<Rightarrow> string \<Rightarrow> string" where
  "trim_with ps s = (case strip_any ps s of
       None \<Rightarrow> s
     | Some t \<Rightarrow> if length t < length s then trim_with ps t else s)"

declare trim_with.simps [simp del]

definition TrimSpace :: "string \<Rightarrow> string" where
  "TrimSpace s = rev (trim_with (map rev space_runes) (rev (trim_with space_runes s)))"

definition ascii_upper :: "char \<Rightarrow> char" where
  "ascii_upper c = (let n = of_char c :: nat in if 97 \<le> n \<and> n \<le> 122 then char_of (n - 32) else c)"

definition ascii_lower :: "char \<Rightarrow> char" where
  "ascii_lower c = (let n = of_char c :: nat in if 65 \<le> n \<and> n \<le> 90 then char_of (n + 32) else c)"

definition ToUpper :: "string \<Rightarrow> string" where
  "ToUpper s = map ascii_upper s"

definition ToLower :: "string \<Rightarrow> string" where
  "ToLower s = map ascii_lower s"

lemma strip_prefix_Some: "strip_prefix p s = Some t \<longleftrightarrow> s = p @ t"
  by (induction p s rule: strip_prefix.induct) auto

lemma strip_any_Some: "strip_any ps s = Some t \<Longrightarrow> \<exists>p \<in> set ps. s = p @ t"
  by (induction ps) (auto simp: strip_prefix_Some split: option.splits)

lemma strip_any_None: "strip_any ps s = None \<longleftrightarrow> (\<forall>p \<in> set ps. \<forall>t. s \<noteq> p @ t)"
proof (induction ps)
  case (Cons p ps)
  show ?case
  proof (cases "strip_prefix p s")
    case None
    then have "\<forall>t. s \<noteq> p @ t" using strip_prefix_Some [of p s] by auto
    with None Cons show ?thesis by simp
  next
    case (Some t)
    then have "s = p @ t" by (simp add: strip_prefix_Some)
    with Some show ?thesis by auto
  qed
qed simp

lemma trim_with_id: "strip_any ps s = None \<Longrightarrow> trim_with ps s = s"
  by (simp add: trim_with.simps)

lemma trim_with_stripped: "[] \<notin> set ps \<Longrightarrow> strip_any ps (trim_with ps s) = None"
proof (induction ps s rule: trim_with.induct)
  case (1 ps s)
  show ?case
  proof (cases "strip_any ps s")
    case None
    then show ?thesis by (simp add: trim_with_id)
  next
    case (Some t)
    then obtain p where "p \<in> set ps" "s = p @ t" using strip_any_Some by blast
    with "1.prems" have "length t < length s" by (cases p) auto
    with Some "1.IH" "1.prems" show ?thesis by (simp add: trim_with.simps [of ps s])
  qed
qed

lemma trim_with_suffix: "\<exists>p. s = p @ trim_with ps s"
proof (induction ps s rule: trim_with.induct)
  case (1 ps s)
  show ?case
  proof (cases "strip_any ps s")
    case (Some t)
    then obtain p where p: "s = p @ t" using strip_any_Some by blast
    show ?thesis
    proof (cases "length t < length s")
      case True
      with Some "1.IH" obtain q where "t = q @ trim_with ps t" by blast
      then have "s = (p @ q) @ trim_with ps t" using p by simp
      moreover from Some True have "trim_with ps s = trim_with ps t"
        by (simp add: trim_with.simps [of ps s])
      ultimately show ?thesis by metis
    next
      case False
      with Some have "trim_with ps s = s" by (simp add: trim_with.simps)
      then show ?thesis by simp
    qed
  qed (simp add: trim_with_id)
qed

lemma space_runes_nonempty: "[] \<notin> set space_runes" "[] \<notin> set (map rev space_runes)"
  by (simp_all add: space_runes_def)

lemma TrimSpace_id:
  assumes "strip_any space_runes s = None" "strip_any (map rev space_runes) (rev s) = None"
  shows "TrimSpace s = s"
  using assms by (simp add: TrimSpace_def trim_with_id)

lemma TrimSpace_idem: "TrimSpace (TrimSpace s) = TrimSpace s"
proof (rule TrimSpace_id)
  let ?u = "trim_with space_runes s"
  let ?v = "trim_with (map rev space_runes) (rev ?u)"
  have v: "strip_any (map rev space_runes) ?v = None"
    by (rule trim_with_stripped) (rule space_runes_nonempty)
  then show "strip_any (map rev space_runes) (rev (TrimSpace s)) = None"
    by (simp add: TrimSpace_def)
  have u: "strip_any space_runes ?u = None"
    by (rule trim_with_stripped) (rule space_runes_nonempty)
  obtain p where "rev ?u = p @ ?v" using trim_with_suffix by blast
  then have "?u = rev ?v @ rev p" by (metis rev_append rev_rev_ident)
  then have "\<forall>q \<in> set space_runes. \<forall>t. rev ?v \<noteq> q @ t"
    using u by (metis append_assoc strip_any_None)
  then show "strip_any space_runes (TrimSpace s) = None"
    by (simp add: TrimSpace_def strip_any_None)
qed

section \<open>Decimal and hexadecimal printing\<close>

definition digit_char :: "nat \<Rightarrow> char" where
  "digit_char n = char_of (48 + n)"

fun fmt_nat :: "nat \<Rightarrow> string" where
  "fmt_nat n = (if n < 10 then [digit_char n] else fmt_nat (n div 10) @ [digit_char (n mod 10)])"

declare fmt_nat.simps [simp del]

definition fmt_d :: "int \<Rightarrow> string" where
  "fmt_d n = (if n < 0 then CHR ''-'' # fmt_nat (nat (- n)) else fmt_nat (nat n))"

definition hex_digit :: "nat \<Rightarrow> char" where
  "hex_digit n = (if n < 10 then char_of (48 + n) else char_of (87 + n))"

definition hex_byte :: "8 word \<Rightarrow> string" where
  "hex_byte b = [hex_digit (unat b div 16), hex_digit (unat b mod 16)]"

definition EncodeToString :: "8 word list \<Rightarrow> string" where
  "EncodeToString bs = concat (map hex_byte bs)"

fun digits_val :: "nat \<Rightarrow> string \<Rightarrow> nat" where
  "digits_val acc [] = acc"
| "digits_val acc (c # cs) = digits_val (10 * acc + (of_char c - 48)) cs"

lemma of_char_digit: "n < 10 \<Longrightarrow> of_char (digit_char n) = 48 + n"
  by (simp add: digit_char_def)

lemma digits_val_snoc: "digits_val acc (s @ [c]) = 10 * digits_val acc s + (of_char c - 48)"
  by (induction s arbitrary: acc) simp_all

lemma digits_val_fmt_nat: "digits_val 0 (fmt_nat n) = n"
proof (induction n rule: fmt_nat.induct)
  case (1 n)
  show ?case
  proof (cases "n < 10")
    case True
    then show ?thesis by (simp add: fmt_nat.simps [of n] of_char_digit)
  next
    case False
    then have "digits_val 0 (fmt_nat n) = 10 * (n div 10) + n mod 10"
      using "1.IH" by (simp add: fmt_nat.simps [of n] digits_val_snoc of_char_digit)
    then show ?thesis by simp
  qed
qed

lemma fmt_nat_inj: "fmt_nat m = fmt_nat n \<longleftrightarrow> m = n"
  by (metis digits_val_fmt_nat)

lemma fmt_nat_digits: "c \<in> set (fmt_nat n) \<Longrightarrow> 48 \<le> (of_char c :: nat)"
proof (induction n rule: fmt_nat.induct)
  case (1 n)
  then show ?case
    by (cases "n < 10") (auto simp: fmt_nat.simps [of n] of_char_digit)
qed

lemma fmt_d_inj: "fmt_d m = fmt_d n \<longleftrightarrow> m = n"
proof -
  have "CHR ''-'' # fmt_nat k \<noteq> fmt_nat l" for k l
  proof
    assume "CHR ''-'' # fmt_nat k = fmt_nat l"
    then have "CHR ''-'' \<in> set (fmt_nat l)" by (metis list.set_intros(1))
    then have "48 \<le> (of_char (CHR ''-'') :: nat)" by (rule fmt_nat_digits)
    then show False by simp
  qed
  then show ?thesis by (auto simp: fmt_d_def fmt_nat_inj dest: sym split: if_splits)
qed

section \<open>Tables as lists of rows\<close>

definition update_where :: "('r \<Rightarrow> bool) \<Rightarrow> ('r \<Rightarrow> 'r) \<Rightarrow> 'r list \<Rightarrow> 'r list" where
  "update_where P f rows = map (\<lambda>r. if P r then f r else r) rows"

definition rows_where :: "('r \<Rightarrow> bool) \<Rightarrow> 'r list \<Rightarrow> nat" where
  "rows_where P rows = length (filter P rows)"

definition sum_where :: "('r \<Rightarrow> int) \<Rightarrow> ('r \<Rightarrow> bool) \<Rightarrow> 'r list \<Rightarrow> int" where
  "sum_where q P rows = sum_list (map q (filter P rows))"

lemma set_update_where: "set (update_where P f rows) = (\<lambda>r. if P r then f r else r) ` set rows"
  by (simp add: update_where_def)

lemma length_update_where [simp]: "length (update_where P f rows) = length rows"
  by (simp add: update_where_def)

lemma update_where_Nil [simp]: "update_where P f [] = []"
  by (simp add: update_where_def)

lemma update_where_none: "(\<And>r. r \<in> set rows \<Longrightarrow> \<not> P r) \<Longrightarrow> update_where P f rows = rows"
  by (induction rows) (auto simp: update_where_def)

lemma rows_where_0: "rows_where P rows = 0 \<longleftrightarrow> (\<forall>r \<in> set rows. \<not> P r)"
  by (auto simp: rows_where_def filter_empty_conv)

lemma sum_where_Nil [simp]: "sum_where q P [] = 0"
  by (simp add: sum_where_def)

lemma sum_where_Cons [simp]: "sum_where q P (r # rows) = (if P r then q r else 0) + sum_where q P rows"
  by (simp add: sum_where_def)

lemma sum_where_append [simp]: "sum_where q P (xs @ ys) = sum_where q P xs + sum_where q P ys"
  by (simp add: sum_where_def)

lemma sum_where_nonneg: "(\<And>r. r \<in> set rows \<Longrightarrow> 0 \<le> q r) \<Longrightarrow> 0 \<le> sum_where q P rows"
  by (induction rows) auto

lemma sum_where_mono:
  assumes "\<And>r. r \<in> set rows \<Longrightarrow> 0 \<le> q r" and "\<And>r. r \<in> set rows \<Longrightarrow> P r \<Longrightarrow> Q r"
  shows "sum_where q P rows \<le> sum_where q Q rows"
  using assms by (induction rows) (auto, fastforce+)

lemma sum_where_zero: "(\<And>r. r \<in> set rows \<Longrightarrow> \<not> P r) \<Longrightarrow> sum_where q P rows = 0"
  by (induction rows) auto

lemma sum_where_member_le:
  assumes "\<And>r. r \<in> set rows \<Longrightarrow> 0 \<le> q r" and "r \<in> set rows" and "P r"
  shows "q r \<le> sum_where q P rows"
  using assms
proof (induction rows)
  case (Cons x xs)
  have "0 \<le> sum_where q P xs" by (rule sum_where_nonneg) (use Cons.prems in auto)
  with Cons show ?case by (cases "r = x") (auto, fastforce+)
qed simp

lemma sum_where_cong:
  "(\<And>r. r \<in> set rows \<Longrightarrow> P r = Q r) \<Longrightarrow> sum_where q P rows = sum_where q Q rows"
  by (induction rows) auto

lemma distinct_key_eq:
  "distinct (map key rows) \<Longrightarrow> x \<in> set rows \<Longrightarrow> y \<in> set rows \<Longrightarrow> key x = key y \<Longrightarrow> x = y"
  by (auto simp: distinct_map dest: inj_onD)

lemma find_Some_iff_key:
  assumes "distinct (map key rows)"
  shows "find (\<lambda>r. key r = k) rows = Some r \<longleftrightarrow> r \<in> set rows \<and> key r = k"
  using assms by (induction rows) force+

lemma find_None_key: "find (\<lambda>r. key r = k) rows = None \<longleftrightarrow> k \<notin> key ` set rows"
  by (induction rows) auto

lemma find_key_guard:
  assumes "distinct (map key rows)" "r \<in> set rows" "key r = k" "P r"
  shows "find (\<lambda>x. key x = k \<and> P x) rows = Some r"
  using assms
proof (induction rows)
  case (Cons x xs)
  then show ?case by (cases "x = r") (auto simp: image_iff)
qed simp

lemma filter_key_unique:
  assumes "distinct (map key rows)" and "r \<in> set rows" and "P r"
    and "\<And>x. x \<in> set rows \<Longrightarrow> P x \<Longrightarrow> key x = key r"
  shows "filter P rows = [r]"
proof -
  have "set (filter P rows) = {r}"
    using assms distinct_key_eq [OF assms(1)] by auto
  moreover have "distinct (filter P rows)"
    using assms(1) by (simp add: distinct_map)
  ultimately show ?thesis
    by (metis distinct_card length_0_conv length_Suc_conv One_nat_def card_1_singleton_iff
        card.empty list.set_intros(1) singletonD)
qed

lemma sum_where_mset: "mset xs = mset ys \<Longrightarrow> sum_where q Q xs = sum_where q Q ys"
proof -
  assume "mset xs = mset ys"
  then have "mset (map q (filter Q xs)) = mset (map q (filter Q ys))" by simp
  then show ?thesis unfolding sum_where_def by (metis sum_mset_sum_list)
qed

lemma sum_where_update:
  "sum_where q Q (update_where P f rows) =
     sum_where q Q rows - sum_where q Q (filter P rows) + sum_where q Q (map f (filter P rows))"
  by (induction rows) (simp_all add: update_where_def)

lemma filter_key_set:
  assumes "distinct (map key rows)" and "distinct (map key cs)" and "set cs \<subseteq> set rows"
    and "\<And>x. x \<in> set rows \<Longrightarrow> P x \<longleftrightarrow> key x \<in> key ` set cs"
  shows "mset (filter P rows) = mset cs"
proof -
  have "set (filter P rows) = set cs"
    using assms(3,4) distinct_key_eq [OF assms(1)] by auto blast+
  moreover have "distinct (filter P rows)" "distinct cs"
    using assms(1,2) by (simp_all add: distinct_map)
  ultimately show ?thesis by (simp only: set_eq_iff_mset_eq_distinct)
qed

lemma rows_where_key_le_1: "distinct (map key rows) \<Longrightarrow> rows_where (\<lambda>r. key r = k \<and> P r) rows \<le> 1"
  by (induction rows) (auto simp: rows_where_def filter_empty_conv image_iff)

lemma ball_update_where:
  "(\<forall>r \<in> set (update_where P f rows). Q r) \<longleftrightarrow> (\<forall>r \<in> set rows. if P r then Q (f r) else Q r)"
  by (auto simp: set_update_where)

lemma bex_update_where:
  "(\<exists>r \<in> set (update_where P f rows). Q r) \<longleftrightarrow> (\<exists>r \<in> set rows. if P r then Q (f r) else Q r)"
  by (auto simp: set_update_where)

lemma ball_update_kept:
  "(\<And>r. Q (f r) = Q r) \<Longrightarrow> (\<forall>r \<in> set (update_where P f rows). Q r) \<longleftrightarrow> (\<forall>r \<in> set rows. Q r)"
  by (simp add: ball_update_where)

lemma bex_update_kept:
  "(\<And>r. Q (f r) = Q r) \<Longrightarrow> (\<exists>r \<in> set (update_where P f rows). Q r) \<longleftrightarrow> (\<exists>r \<in> set rows. Q r)"
  by (simp add: bex_update_where)

text \<open>A guarded UPDATE of the row with key \<open>k\<close> changes nothing or exactly that row.\<close>

lemma guarded_update:
  assumes "distinct (map key rows)"
  shows "rows_where (\<lambda>r. key r = k \<and> Q r) rows = 0 \<and> update_where (\<lambda>r. key r = k \<and> Q r) f rows = rows
     \<and> (\<forall>r \<in> set rows. key r = k \<longrightarrow> \<not> Q r)
   \<or> rows_where (\<lambda>r. key r = k \<and> Q r) rows = 1 \<and> (\<exists>r \<in> set rows. key r = k)
     \<and> (\<forall>r \<in> set rows. key r = k \<longrightarrow> Q r)
     \<and> update_where (\<lambda>r. key r = k \<and> Q r) f rows = update_where (\<lambda>r. key r = k) f rows"
proof (cases "\<exists>r \<in> set rows. key r = k \<and> Q r")
  case True
  then obtain r where r: "r \<in> set rows" "key r = k" "Q r" by blast
  then have all: "Q x" if "x \<in> set rows" "key x = k" for x
    using distinct_key_eq [OF assms] that by metis
  then have "rows_where (\<lambda>r. key r = k \<and> Q r) rows = 1"
    using filter_key_unique [OF assms r(1), of "\<lambda>r. key r = k \<and> Q r"] r by (simp add: rows_where_def)
  moreover have "update_where (\<lambda>r. key r = k \<and> Q r) f rows = update_where (\<lambda>r. key r = k) f rows"
    using all by (auto simp: update_where_def)
  ultimately show ?thesis using all r by blast
next
  case False
  then show ?thesis by (auto simp: rows_where_0 intro!: update_where_none)
qed

lemma guarded_hit:
  assumes "distinct (map key rows)" and "rows_where (\<lambda>r. key r = k \<and> Q r) rows \<noteq> 0"
  shows "update_where (\<lambda>r. key r = k \<and> Q r) f rows = update_where (\<lambda>r. key r = k) f rows"
  using guarded_update [OF assms(1), of k Q f] assms(2) by auto

lemma guarded_miss:
  assumes "rows_where P rows = 0"
  shows "update_where P f rows = rows"
  using assms by (auto simp: rows_where_0 intro: update_where_none)

text \<open>
  The contract of an UPDATE that does not write the key column.
\<close>

locale keyed_update =
  fixes key :: "'r \<Rightarrow> 'k" and f :: "'r \<Rightarrow> 'r"
  assumes key_kept: "key (f r) = key r"
begin

lemma keys_update: "map key (update_where P f rows) = map key rows"
  by (simp add: update_where_def key_kept)

lemma key_image_update: "key ` set (update_where P f rows) = key ` set rows"
  by (metis keys_update list.set_map)

lemma find_update:
  "find (\<lambda>r. key r = k) (update_where P f rows) =
     map_option (\<lambda>r. if P r then f r else r) (find (\<lambda>r. key r = k) rows)"
  by (induction rows) (auto simp: update_where_def key_kept)

lemma sum_update_one:
  assumes "distinct (map key rows)" and "r \<in> set rows" and "P r"
    and "\<And>x. x \<in> set rows \<Longrightarrow> P x \<Longrightarrow> key x = key r"
  shows "sum_where q Q (update_where P f rows) =
    sum_where q Q rows - (if Q r then q r else 0) + (if Q (f r) then q (f r) else 0)"
proof -
  from assms have "filter P rows = [r]" by (rule filter_key_unique)
  then show ?thesis by (simp add: sum_where_update)
qed

end

end
