(* ===== verification/Domain.thy ===== *)
theory Domain
  imports Prelude
begin

text \<open>
  Package \<open>domain\<close> (\<open>src/internal/domain/domain.go\<close>): the reservation and sale states, the
  entities the API returns, the coded error type, the reservation state machine
  \<open>ValidateReservationTransition\<close> and the identifier generator \<open>NewID\<close>.

  Go struct fields keep their names, prefixed by the struct. State strings are datatypes
  with one constructor per constant of the source and a printing function; the columns that hold
  them carry CHECK constraints, so no other string can be read back. An instant is an
  integer number of microseconds, the resolution of the columns. A Go \<open>error\<close> is a value of
  \<open>go_error\<close>: a \<open>*domain.Error\<close>, the driver's \<open>ErrNoRows\<close>, another error, or an error
  wrapped by \<open>fmt.Errorf\<close> with \<open>%w\<close>.
\<close>

section \<open>States\<close>

datatype ReservationState = ReservationPending | ReservationConfirmed | ReservationPaid
  | ReservationCancelled | ReservationExpired

datatype SaleState = SaleDraft | SaleScheduled | SaleActive | SaleEnded | SaleCancelled

datatype OrderState = OrderPending | OrderConfirmed | OrderPaid | OrderCancelled | OrderExpired
  | OrderPaymentFailed

datatype PaymentOutcome = Successful | Failed | Delayed

datatype PaymentStatus = StatusSucceeded | StatusFailed | StatusPending

primrec ReservationState_string :: "ReservationState \<Rightarrow> string" where
  "ReservationState_string ReservationPending = ''pending''"
| "ReservationState_string ReservationConfirmed = ''confirmed''"
| "ReservationState_string ReservationPaid = ''paid''"
| "ReservationState_string ReservationCancelled = ''cancelled''"
| "ReservationState_string ReservationExpired = ''expired''"

text \<open>The states the store counts as active (\<open>state IN ('pending','confirmed','paid')\<close>), and \<open>string(target)\<close> read as an order state.\<close>

definition active_state :: "ReservationState \<Rightarrow> bool" where
  "active_state st \<longleftrightarrow> st = ReservationPending \<or> st = ReservationConfirmed \<or> st = ReservationPaid"

primrec order_state_of :: "ReservationState \<Rightarrow> OrderState" where
  "order_state_of ReservationPending = OrderPending"
| "order_state_of ReservationConfirmed = OrderConfirmed"
| "order_state_of ReservationPaid = OrderPaid"
| "order_state_of ReservationCancelled = OrderCancelled"
| "order_state_of ReservationExpired = OrderExpired"

section \<open>Entities\<close>

record Product =
  Product_ID :: string
  Product_SKU :: string
  Product_Name :: string
  Product_Description :: string
  Product_PriceMinor :: int
  Product_Currency :: string
  Product_Active :: bool
  Product_Available :: int
  Product_Reserved :: int
  Product_Sold :: int
  Product_CreatedAt :: int
  Product_UpdatedAt :: int

record Sale =
  Sale_ID :: string
  Sale_ProductID :: string
  Sale_StartsAt :: int
  Sale_EndsAt :: int
  Sale_AllocatedStock :: int
  Sale_RemainingStock :: int
  Sale_MaxQuantityPerUser :: int
  Sale_State :: SaleState
  Sale_CreatedAt :: int
  Sale_UpdatedAt :: int

record Reservation =
  Reservation_ID :: string
  Reservation_SaleID :: string
  Reservation_ProductID :: string
  Reservation_OrderID :: string
  Reservation_UserID :: string
  Reservation_Quantity :: int
  Reservation_State :: ReservationState
  Reservation_ExpiresAt :: int
  Reservation_CreatedAt :: int
  Reservation_UpdatedAt :: int

record Order =
  Order_ID :: string
  Order_ReservationID :: string
  Order_SaleID :: string
  Order_ProductID :: string
  Order_UserID :: string
  Order_Quantity :: int
  Order_AmountMinor :: int
  Order_Currency :: string
  Order_State :: OrderState
  Order_CreatedAt :: int
  Order_UpdatedAt :: int

record Payment =
  Payment_ID :: string
  Payment_OrderID :: string
  Payment_IdempotencyKey :: string
  Payment_Outcome :: PaymentOutcome
  Payment_Status :: PaymentStatus
  Payment_CreatedAt :: int
  Payment_UpdatedAt :: int

section \<open>Errors\<close>

record Error =
  Error_Code :: string
  Error_Message :: string
  Error_HTTPStatus :: int

datatype go_error =
    DomainError Error
  | ErrNoRows
  | OtherError string
  | WrapError string go_error

abbreviation domain_error :: "string \<Rightarrow> string \<Rightarrow> int \<Rightarrow> go_error" where
  "domain_error code msg st \<equiv>
     DomainError \<lparr>Error_Code = code, Error_Message = msg, Error_HTTPStatus = st\<rparr>"

text \<open>\<open>errors.As\<close> with a \<open>*domain.Error\<close> target, and \<open>errors.Is(_, pgx.ErrNoRows)\<close>: both walk the wrap chain.\<close>

primrec errors_As :: "go_error \<Rightarrow> Error option" where
  "errors_As (DomainError de) = Some de"
| "errors_As ErrNoRows = None"
| "errors_As (OtherError s) = None"
| "errors_As (WrapError s e) = errors_As e"

primrec is_NoRows :: "go_error \<Rightarrow> bool" where
  "is_NoRows (DomainError de) = False"
| "is_NoRows ErrNoRows = True"
| "is_NoRows (OtherError s) = False"
| "is_NoRows (WrapError s e) = is_NoRows e"

definition IsCode :: "go_error option \<Rightarrow> string \<Rightarrow> bool" where
  "IsCode err code = (case err of
       None \<Rightarrow> False
     | Some e \<Rightarrow> (case errors_As e of None \<Rightarrow> False | Some target \<Rightarrow> Error_Code target = code))"

section \<open>The reservation state machine\<close>

definition ValidateReservationTransition ::
  "ReservationState \<Rightarrow> ReservationState \<Rightarrow> go_error option" where
  "ValidateReservationTransition src dst =
    (let valid = (src = ReservationPending \<and> (dst = ReservationConfirmed \<or> dst = ReservationCancelled
                    \<or> dst = ReservationExpired))
               \<or> (src = ReservationConfirmed \<and> dst = ReservationPaid)
     in if \<not> valid
        then Some (OtherError (''invalid reservation transition '' @ ReservationState_string src
               @ '' -> '' @ ReservationState_string dst))
        else None)"

text \<open>
  The intended life cycle as a relation, with its closure: what the checks of the code
  amount to over a whole history.
\<close>

inductive lifecycle :: "ReservationState \<Rightarrow> ReservationState \<Rightarrow> bool" where
  confirm: "lifecycle ReservationPending ReservationConfirmed"
| cancel: "lifecycle ReservationPending ReservationCancelled"
| expire: "lifecycle ReservationPending ReservationExpired"
| pay: "lifecycle ReservationConfirmed ReservationPaid"

inductive_cases lifecycle_from_pending: "lifecycle ReservationPending t"
inductive_cases lifecycle_from_confirmed: "lifecycle ReservationConfirmed t"
inductive_simps lifecycle_terminal_simps:
  "lifecycle ReservationPaid t" "lifecycle ReservationCancelled t" "lifecycle ReservationExpired t"

definition terminal :: "ReservationState \<Rightarrow> bool" where
  "terminal st \<longleftrightarrow> st = ReservationPaid \<or> st = ReservationCancelled \<or> st = ReservationExpired"

lemma Validate_None: "ValidateReservationTransition src dst = None \<longleftrightarrow> lifecycle src dst"
  by (auto simp: ValidateReservationTransition_def Let_def lifecycle.simps)

lemma terminal_stuck: "terminal st \<Longrightarrow> \<not> lifecycle st t"
  by (auto simp: terminal_def lifecycle_terminal_simps)

lemma terminal_closed:
  assumes "lifecycle\<^sup>*\<^sup>* st t" "terminal st" shows "t = st"
  using assms by (induction rule: rtranclp_induct) (auto dest: terminal_stuck)

lemma lifecycle_paid_was_confirmed:
  "lifecycle st ReservationPaid \<Longrightarrow> st = ReservationConfirmed"
  by (auto elim: lifecycle.cases)

lemma lifecycle_bounded: "(lifecycle ^^ n) st t \<Longrightarrow> n \<le> 2"
proof (rule ccontr)
  assume h: "(lifecycle ^^ n) st t" and "\<not> n \<le> 2"
  then obtain m where "n = Suc (Suc (Suc m))"
    by (metis One_nat_def Suc_1 Suc_leI add_Suc_shift less_imp_Suc_add linorder_not_le plus_nat.simps(2))
  with h show False
    by (auto elim!: lifecycle.cases relcomppE)
qed

section \<open>Identifiers\<close>

text \<open>
  \<open>rand.Read\<close> of 16 bytes is an input: \<open>None\<close> is its error, \<open>Some b\<close> the bytes it fills in.
  The version and variant bits are forced, then the bytes are printed in groups.
\<close>

definition set_version :: "8 word list \<Rightarrow> 8 word list" where
  "set_version b = b[6 := (b ! 6 AND 0x0f) OR 0x40, 8 := (b ! 8 AND 0x3f) OR 0x80]"

definition format_id :: "8 word list \<Rightarrow> string" where
  "format_id b = EncodeToString (take 4 b) @ ''-'' @ EncodeToString (take 2 (drop 4 b)) @ ''-''
     @ EncodeToString (take 2 (drop 6 b)) @ ''-'' @ EncodeToString (take 2 (drop 8 b)) @ ''-''
     @ EncodeToString (take 6 (drop 10 b))"

definition NewID :: "8 word list option \<Rightarrow> go_error + string" where
  "NewID r = (case r of
       None \<Rightarrow> Inl (WrapError ''generate id'' (OtherError ''rand.Read''))
     | Some b \<Rightarrow> Inr (format_id (set_version b)))"

lemma length_EncodeToString [simp]: "length (EncodeToString bs) = 2 * length bs"
  by (induction bs) (simp_all add: EncodeToString_def hex_byte_def)

lemma EncodeToString_Cons: "EncodeToString (b # bs) = hex_byte b @ EncodeToString bs"
  by (simp add: EncodeToString_def)

lemma length_format_id: "length b = 16 \<Longrightarrow> length (format_id b) = 36"
  by (simp add: format_id_def)

lemma length_set_version [simp]: "length (set_version b) = length b"
  by (simp add: set_version_def)

lemma hex_digit_inj: "m < 16 \<Longrightarrow> n < 16 \<Longrightarrow> hex_digit m = hex_digit n \<Longrightarrow> m = n"
  by (auto simp: hex_digit_def split: if_splits dest!: arg_cong [where f = "of_char :: char \<Rightarrow> nat"])

lemma hex_byte_inj: "hex_byte a = hex_byte b \<Longrightarrow> a = b"
proof -
  assume h: "hex_byte a = hex_byte b"
  have "unat a < 256" "unat b < 256" using unsigned_less [of a] unsigned_less [of b] by simp_all
  then have "unat a div 16 < 16" "unat b div 16 < 16" by auto
  with h have "unat a div 16 = unat b div 16" "unat a mod 16 = unat b mod 16"
    by (auto simp: hex_byte_def intro: hex_digit_inj)
  then have "unat a = unat b" by (metis div_mult_mod_eq)
  then show "a = b" by (rule unsigned_word_eqI)
qed

lemma EncodeToString_inj:
  "length a = length b \<Longrightarrow> EncodeToString a = EncodeToString b \<Longrightarrow> a = b"
proof (induction a b rule: list_induct2)
  case (Cons x xs y ys)
  have "length (hex_byte x) = length (hex_byte y)" by (simp add: hex_byte_def)
  with Cons.prems have "hex_byte x = hex_byte y" "EncodeToString xs = EncodeToString ys"
    by (simp_all add: EncodeToString_Cons)
  with Cons.IH show ?case by (auto dest: hex_byte_inj)
qed simp

lemma format_id_inj:
  assumes "length a = 16" "length b = 16" "format_id a = format_id b"
  shows "a = b"
proof -
  have split: "xs = take 4 xs @ take 2 (drop 4 xs) @ take 2 (drop 6 xs) @ take 2 (drop 8 xs) @ take 6 (drop 10 xs)"
    if "length xs = 16" for xs :: "8 word list"
  proof -
    have "take 6 (drop 10 xs) = drop 10 xs" using that by simp
    moreover have "drop 4 xs = take 2 (drop 4 xs) @ drop 6 xs" "drop 6 xs = take 2 (drop 6 xs) @ drop 8 xs"
        "drop 8 xs = take 2 (drop 8 xs) @ drop 10 xs"
      using append_take_drop_id [of 2 "drop 4 xs"] append_take_drop_id [of 2 "drop 6 xs"]
        append_take_drop_id [of 2 "drop 8 xs"] by simp_all
    ultimately show ?thesis using append_take_drop_id [of 4 xs] by metis
  qed
  have "EncodeToString (take 4 a) = EncodeToString (take 4 b)"
      "EncodeToString (take 2 (drop 4 a)) = EncodeToString (take 2 (drop 4 b))"
      "EncodeToString (take 2 (drop 6 a)) = EncodeToString (take 2 (drop 6 b))"
      "EncodeToString (take 2 (drop 8 a)) = EncodeToString (take 2 (drop 8 b))"
      "EncodeToString (take 6 (drop 10 a)) = EncodeToString (take 6 (drop 10 b))"
    using assms by (simp_all add: format_id_def)
  then have "take 4 a = take 4 b" "take 2 (drop 4 a) = take 2 (drop 4 b)" "take 2 (drop 6 a) = take 2 (drop 6 b)"
      "take 2 (drop 8 a) = take 2 (drop 8 b)" "take 6 (drop 10 a) = take 6 (drop 10 b)"
    using assms(1,2) by (auto intro!: EncodeToString_inj)
  then show ?thesis using split [OF assms(1)] split [OF assms(2)] by metis
qed

lemma hex_byte_nibbles: "hex_byte w ! 0 = hex_digit (unat (drop_bit 4 w))" "length (hex_byte w) = 2"
  by (simp_all add: hex_byte_def drop_bit_eq_div unat_div)

lemma format_id_hyphens: "length b = 16 \<Longrightarrow> \<forall>k \<in> {8, 13, 18, 23}. format_id b ! k = CHR ''-''"
  by (auto simp: format_id_def nth_append)

lemma format_id_nibbles:
  assumes "length b = 16"
  shows "format_id b ! 14 = hex_byte (b ! 6) ! 0" "format_id b ! 19 = hex_byte (b ! 8) ! 0"
proof -
  have "take 2 (drop 6 b) = [b ! 6, b ! 7]" "take 2 (drop 8 b) = [b ! 8, b ! 9]"
    using assms by (auto intro!: nth_equalityI simp: less_Suc_eq numeral_2_eq_2)
  then show "format_id b ! 14 = hex_byte (b ! 6) ! 0" "format_id b ! 19 = hex_byte (b ! 8) ! 0"
    using assms by (simp_all add: format_id_def nth_append EncodeToString_Cons hex_byte_nibbles(2))
qed

lemma forced_nibbles:
  "drop_bit 4 ((w AND 0x0f) OR 0x40) = (4 :: 8 word)" "drop_bit 4 ((w AND 0x3f) OR 0x80) \<in> {8, 9, 10, 11 :: 8 word}"
proof -
  show "drop_bit 4 ((w AND 0x0f) OR 0x40) = (4 :: 8 word)"
    by (rule bit_word_eqI) (auto simp: bit_simps)
  show "drop_bit 4 ((w AND 0x3f) OR 0x80) \<in> {8, 9, 10, 11 :: 8 word}"
  proof -
    have "drop_bit 4 ((w AND 0x3f) OR 0x80) = (if bit w 4 then 1 else 0) OR (if bit w 5 then 2 else 0) OR (8 :: 8 word)"
      by (rule bit_word_eqI) (auto simp: bit_simps less_Suc_eq numeral_eq_Suc)
    then show ?thesis by simp
  qed
qed

lemma format_id_version:
  assumes "length b = 16"
  shows "format_id (set_version b) ! 14 = CHR ''4''" "format_id (set_version b) ! 19 \<in> set ''89ab''"
proof -
  have v: "set_version b ! 6 = (b ! 6 AND 0x0f) OR 0x40" "set_version b ! 8 = (b ! 8 AND 0x3f) OR 0x80"
    using assms by (simp_all add: set_version_def)
  have c: "char_of (52 :: nat) = CHR ''4''" "char_of (56 :: nat) = CHR ''8''" "char_of (57 :: nat) = CHR ''9''" "char_of (97 :: nat) = CHR ''a''" "char_of (98 :: nat) = CHR ''b''"
    by code_simp+
  show "format_id (set_version b) ! 14 = CHR ''4''"
    using assms by (simp add: format_id_nibbles v hex_byte_nibbles forced_nibbles hex_digit_def c)
  show "format_id (set_version b) ! 19 \<in> set ''89ab''"
    using assms forced_nibbles(2) [of "b ! 8"] by (auto simp: format_id_nibbles v hex_byte_nibbles hex_digit_def c)
qed

lemma set_version_eq:
  assumes "length b = 16" "length b' = 16"
  shows "set_version b = set_version b' \<longleftrightarrow> b[6 := b ! 6 AND 0x0f, 8 := b ! 8 AND 0x3f] = b'[6 := b' ! 6 AND 0x0f, 8 := b' ! 8 AND 0x3f]"
proof -
  have "((u AND 0x0f) OR 0x40) AND 0x0f = u AND (0x0f :: 8 word)" "((u AND 0x3f) OR 0x80) AND 0x3f = u AND (0x3f :: 8 word)" for u
    by (simp_all add: bit.conj_disj_distrib2 and.assoc)
  then have w: "(u AND 0x0f) OR 0x40 = (v AND 0x0f) OR 0x40 \<longleftrightarrow> u AND 0x0f = v AND 0x0f"
      "(u AND 0x3f) OR 0x80 = (v AND 0x3f) OR 0x80 \<longleftrightarrow> u AND 0x3f = v AND 0x3f" for u v :: "8 word" by metis+
  show ?thesis
    unfolding set_version_def list_eq_iff_nth_eq using assms by (auto simp: nth_list_update w split: if_splits)
qed

end
