(* ===== verification/Schema.thy ===== *)
theory Schema
  imports Domain
begin

text \<open>
  The PostgreSQL schema (\<open>src/db/migrations\<close>, all five files applied) and the meaning of the
  SQL the store sends to it.

  \<^item> One record per table, one list of rows per table in the record \<open>db\<close>; list order is
    insertion order, so a stable sort models ORDER BY with ties broken by insertion.
  \<^item> A \<open>_check\<close> predicate per table: its column ranges (\<open>integer\<close> is 32-bit, \<open>bigint\<close> 64-bit) and
    CHECK constraints. An INSERT or UPDATE that would break a check, a
    primary key, a UNIQUE or a FOREIGN KEY constraint is an error and changes nothing,
    so integer overflow in SQL arithmetic is an error as well.
  \<^item> The locale \<open>sql_table\<close> is the interface of a table: what INSERT and UPDATE promise about
    its rows. It is interpreted for each table the store writes.
  \<^item> \<open>idempotency_keys.response_body\<close> holds the Go struct \<open>idempotencyResponse\<close> itself (its JSON
    encoding is not modelled). Identifiers are compared in their canonical text form.
\<close>

section \<open>Stored response bodies\<close>

record ReservationRequest =
  Request_UserID :: string
  Request_Quantity :: int
  Request_IdempotencyKey :: string

record ReservationResult =
  Result_Reservation :: Reservation
  Result_Duplicate :: bool

record idempotencyResponse =
  Response_ErrorCode :: string
  Response_Message :: string
  Response_Result :: "ReservationResult option"

datatype metadata = MetaNull | MetaInt string int | MetaString string string

section \<open>Rows\<close>

record products_row =
  products_id :: string
  products_sku :: string
  products_name :: string
  products_description :: string
  products_price_minor :: int
  products_currency :: string
  products_active :: bool
  products_created_at :: int
  products_updated_at :: int

record inventory_row =
  inventory_product_id :: string
  inventory_available :: int
  inventory_reserved :: int
  inventory_sold :: int
  inventory_expected_total :: int
  inventory_updated_at :: int

record flash_sales_row =
  flash_sales_id :: string
  flash_sales_product_id :: string
  flash_sales_starts_at :: int
  flash_sales_ends_at :: int
  flash_sales_allocated_stock :: int
  flash_sales_remaining_stock :: int
  flash_sales_max_quantity_per_user :: int
  flash_sales_state :: SaleState
  flash_sales_created_at :: int
  flash_sales_updated_at :: int

record reservations_row =
  reservations_id :: string
  reservations_sale_id :: string
  reservations_product_id :: string
  reservations_user_id :: string
  reservations_quantity :: int
  reservations_state :: ReservationState
  reservations_expires_at :: int
  reservations_created_at :: int
  reservations_updated_at :: int

record orders_row =
  orders_id :: string
  orders_reservation_id :: string
  orders_sale_id :: string
  orders_product_id :: string
  orders_user_id :: string
  orders_quantity :: int
  orders_amount_minor :: int
  orders_currency :: string
  orders_state :: OrderState
  orders_created_at :: int
  orders_updated_at :: int

record payments_row =
  payments_id :: string
  payments_order_id :: string
  payments_idempotency_key :: string
  payments_outcome :: PaymentOutcome
  payments_status :: PaymentStatus
  payments_request_fingerprint :: string
  payments_created_at :: int
  payments_updated_at :: int

record idempotency_keys_row =
  idempotency_keys_key :: string
  idempotency_keys_scope :: string
  idempotency_keys_user_id :: string
  idempotency_keys_request_fingerprint :: string
  idempotency_keys_resource_id :: "string option"
  idempotency_keys_response_status :: "int option"
  idempotency_keys_response_body :: "idempotencyResponse option"
  idempotency_keys_created_at :: int
  idempotency_keys_expires_at :: int

record domain_events_row =
  domain_events_id :: string
  domain_events_aggregate_type :: string
  domain_events_aggregate_id :: string
  domain_events_event_type :: string
  domain_events_previous_state :: "string option"
  domain_events_new_state :: "string option"
  domain_events_metadata :: metadata
  domain_events_created_at :: int

record public_demo_actions_row =
  public_demo_actions_idempotency_key :: string
  public_demo_actions_created_at :: int

record db =
  products :: "products_row list"
  inventory :: "inventory_row list"
  flash_sales :: "flash_sales_row list"
  reservations :: "reservations_row list"
  orders :: "orders_row list"
  payments :: "payments_row list"
  idempotency_keys :: "idempotency_keys_row list"
  domain_events :: "domain_events_row list"
  public_demo_actions :: "public_demo_actions_row list"

definition empty_db :: db where
  "empty_db = \<lparr>products = [], inventory = [], flash_sales = [], reservations = [], orders = [],
     payments = [], idempotency_keys = [], domain_events = [], public_demo_actions = []\<rparr>"

section \<open>Column ranges and CHECK constraints\<close>

text \<open>\<open>char_length\<close> counts characters: the bytes of a UTF-8 text that are not continuation bytes.\<close>

definition char_length :: "string \<Rightarrow> nat" where
  "char_length s = length (filter (\<lambda>c. \<not> (128 \<le> (of_char c :: nat) \<and> (of_char c :: nat) < 192)) s)"

definition products_check :: "products_row \<Rightarrow> bool" where
  "products_check r \<longleftrightarrow> 1 \<le> char_length (products_name r) \<and> char_length (products_name r) \<le> 200
     \<and> 0 \<le> products_price_minor r \<and> int8 (products_price_minor r)
     \<and> char_length (products_currency r) \<le> 3 \<and> products_currency r = ToUpper (products_currency r)"

definition inventory_check :: "inventory_row \<Rightarrow> bool" where
  "inventory_check r \<longleftrightarrow> int4 (inventory_available r) \<and> 0 \<le> inventory_available r
     \<and> int4 (inventory_reserved r) \<and> 0 \<le> inventory_reserved r
     \<and> int4 (inventory_sold r) \<and> 0 \<le> inventory_sold r
     \<and> int4 (inventory_expected_total r) \<and> 0 \<le> inventory_expected_total r"

definition flash_sales_check :: "flash_sales_row \<Rightarrow> bool" where
  "flash_sales_check r \<longleftrightarrow> int4 (flash_sales_allocated_stock r) \<and> 0 < flash_sales_allocated_stock r
     \<and> int4 (flash_sales_max_quantity_per_user r) \<and> 0 < flash_sales_max_quantity_per_user r
     \<and> int4 (flash_sales_remaining_stock r) \<and> 0 \<le> flash_sales_remaining_stock r
     \<and> flash_sales_starts_at r < flash_sales_ends_at r"

definition reservations_check :: "reservations_row \<Rightarrow> bool" where
  "reservations_check r \<longleftrightarrow> 1 \<le> char_length (reservations_user_id r)
     \<and> char_length (reservations_user_id r) \<le> 128
     \<and> int4 (reservations_quantity r) \<and> 0 < reservations_quantity r"

definition orders_check :: "orders_row \<Rightarrow> bool" where
  "orders_check r \<longleftrightarrow> int4 (orders_quantity r) \<and> 0 < orders_quantity r
     \<and> int8 (orders_amount_minor r) \<and> 0 \<le> orders_amount_minor r"

definition public_demo_actions_check :: "public_demo_actions_row \<Rightarrow> bool" where
  "public_demo_actions_check r \<longleftrightarrow> 1 \<le> char_length (public_demo_actions_idempotency_key r)
     \<and> char_length (public_demo_actions_idempotency_key r) \<le> 200"

section \<open>INSERT and UPDATE\<close>

abbreviation constraint_error :: go_error where
  "constraint_error \<equiv> OtherError ''constraint violation''"

definition insert_products :: "db \<Rightarrow> products_row \<Rightarrow> go_error + db" where
  "insert_products d r =
    (if products_check r \<and> products_id r \<notin> products_id ` set (products d)
        \<and> products_sku r \<notin> products_sku ` set (products d)
     then Inr (d\<lparr>products := products d @ [r]\<rparr>) else Inl constraint_error)"

definition insert_inventory :: "db \<Rightarrow> inventory_row \<Rightarrow> go_error + db" where
  "insert_inventory d r =
    (if inventory_check r \<and> inventory_product_id r \<notin> inventory_product_id ` set (inventory d)
        \<and> inventory_product_id r \<in> products_id ` set (products d)
     then Inr (d\<lparr>inventory := inventory d @ [r]\<rparr>) else Inl constraint_error)"

definition insert_flash_sales :: "db \<Rightarrow> flash_sales_row \<Rightarrow> go_error + db" where
  "insert_flash_sales d r =
    (if flash_sales_check r \<and> flash_sales_id r \<notin> flash_sales_id ` set (flash_sales d)
        \<and> flash_sales_product_id r \<in> products_id ` set (products d)
     then Inr (d\<lparr>flash_sales := flash_sales d @ [r]\<rparr>) else Inl constraint_error)"

definition insert_reservations :: "db \<Rightarrow> reservations_row \<Rightarrow> go_error + db" where
  "insert_reservations d r =
    (if reservations_check r \<and> reservations_id r \<notin> reservations_id ` set (reservations d)
        \<and> reservations_sale_id r \<in> flash_sales_id ` set (flash_sales d)
        \<and> reservations_product_id r \<in> products_id ` set (products d)
     then Inr (d\<lparr>reservations := reservations d @ [r]\<rparr>) else Inl constraint_error)"

definition insert_orders :: "db \<Rightarrow> orders_row \<Rightarrow> go_error + db" where
  "insert_orders d r =
    (if orders_check r \<and> orders_id r \<notin> orders_id ` set (orders d)
        \<and> orders_reservation_id r \<notin> orders_reservation_id ` set (orders d)
        \<and> orders_reservation_id r \<in> reservations_id ` set (reservations d)
        \<and> orders_sale_id r \<in> flash_sales_id ` set (flash_sales d)
        \<and> orders_product_id r \<in> products_id ` set (products d)
     then Inr (d\<lparr>orders := orders d @ [r]\<rparr>) else Inl constraint_error)"

definition insert_domain_events :: "db \<Rightarrow> domain_events_row \<Rightarrow> go_error + db" where
  "insert_domain_events d r =
    (if domain_events_id r \<notin> domain_events_id ` set (domain_events d)
     then Inr (d\<lparr>domain_events := domain_events d @ [r]\<rparr>) else Inl constraint_error)"

text \<open>
  Two inserts have an ON CONFLICT DO NOTHING clause: \<open>Inr None\<close> is the conflict, with no row inserted.
  The clause of \<open>payments\<close> names the idempotency key, so a duplicate \<open>id\<close> or an unknown order
  is still an error.
\<close>

definition insert_idempotency_keys :: "db \<Rightarrow> idempotency_keys_row \<Rightarrow> go_error + db option" where
  "insert_idempotency_keys d r =
    (if idempotency_keys_key r \<in> idempotency_keys_key ` set (idempotency_keys d) then Inr None
     else Inr (Some (d\<lparr>idempotency_keys := idempotency_keys d @ [r]\<rparr>)))"

definition insert_payments :: "db \<Rightarrow> payments_row \<Rightarrow> go_error + db option" where
  "insert_payments d r =
    (if payments_idempotency_key r \<in> payments_idempotency_key ` set (payments d) then Inr None
     else if payments_id r \<notin> payments_id ` set (payments d)
        \<and> payments_order_id r \<in> orders_id ` set (orders d)
     then Inr (Some (d\<lparr>payments := payments d @ [r]\<rparr>)) else Inl constraint_error)"

definition insert_public_demo_actions :: "db \<Rightarrow> public_demo_actions_row \<Rightarrow> go_error + db" where
  "insert_public_demo_actions d r =
    (if public_demo_actions_check r \<and> public_demo_actions_idempotency_key r
        \<notin> public_demo_actions_idempotency_key ` set (public_demo_actions d)
     then Inr (d\<lparr>public_demo_actions := public_demo_actions d @ [r]\<rparr>) else Inl constraint_error)"

text \<open>UPDATE ... WHERE returns the new database and the number of affected rows.\<close>

definition checked_update ::
  "('r \<Rightarrow> bool) \<Rightarrow> ('r \<Rightarrow> bool) \<Rightarrow> ('r \<Rightarrow> 'r) \<Rightarrow> 'r list \<Rightarrow> go_error + ('r list \<times> nat)" where
  "checked_update ok P f rows =
    (if list_all (\<lambda>r. P r \<longrightarrow> ok (f r)) rows then Inr (update_where P f rows, rows_where P rows)
     else Inl constraint_error)"

definition update_products ::
  "db \<Rightarrow> (products_row \<Rightarrow> bool) \<Rightarrow> (products_row \<Rightarrow> products_row) \<Rightarrow> go_error + (db \<times> nat)" where
  "update_products d P f = map_sum id (\<lambda>(rows, n). (d\<lparr>products := rows\<rparr>, n))
     (checked_update products_check P f (products d))"

definition update_inventory ::
  "db \<Rightarrow> (inventory_row \<Rightarrow> bool) \<Rightarrow> (inventory_row \<Rightarrow> inventory_row) \<Rightarrow> go_error + (db \<times> nat)" where
  "update_inventory d P f = map_sum id (\<lambda>(rows, n). (d\<lparr>inventory := rows\<rparr>, n))
     (checked_update inventory_check P f (inventory d))"

definition update_flash_sales ::
  "db \<Rightarrow> (flash_sales_row \<Rightarrow> bool) \<Rightarrow> (flash_sales_row \<Rightarrow> flash_sales_row) \<Rightarrow> go_error + (db \<times> nat)" where
  "update_flash_sales d P f = map_sum id (\<lambda>(rows, n). (d\<lparr>flash_sales := rows\<rparr>, n))
     (checked_update flash_sales_check P f (flash_sales d))"

definition update_reservations ::
  "db \<Rightarrow> (reservations_row \<Rightarrow> bool) \<Rightarrow> (reservations_row \<Rightarrow> reservations_row)
     \<Rightarrow> go_error + (db \<times> nat)" where
  "update_reservations d P f = map_sum id (\<lambda>(rows, n). (d\<lparr>reservations := rows\<rparr>, n))
     (checked_update reservations_check P f (reservations d))"

definition update_orders ::
  "db \<Rightarrow> (orders_row \<Rightarrow> bool) \<Rightarrow> (orders_row \<Rightarrow> orders_row) \<Rightarrow> go_error + (db \<times> nat)" where
  "update_orders d P f = map_sum id (\<lambda>(rows, n). (d\<lparr>orders := rows\<rparr>, n))
     (checked_update orders_check P f (orders d))"

definition update_payments ::
  "db \<Rightarrow> (payments_row \<Rightarrow> bool) \<Rightarrow> (payments_row \<Rightarrow> payments_row) \<Rightarrow> go_error + (db \<times> nat)" where
  "update_payments d P f = map_sum id (\<lambda>(rows, n). (d\<lparr>payments := rows\<rparr>, n))
     (checked_update (\<lambda>_. True) P f (payments d))"

definition update_idempotency_keys ::
  "db \<Rightarrow> (idempotency_keys_row \<Rightarrow> bool) \<Rightarrow> (idempotency_keys_row \<Rightarrow> idempotency_keys_row)
     \<Rightarrow> go_error + (db \<times> nat)" where
  "update_idempotency_keys d P f = map_sum id (\<lambda>(rows, n). (d\<lparr>idempotency_keys := rows\<rparr>, n))
     (checked_update (\<lambda>_. True) P f (idempotency_keys d))"

section \<open>The interface of a table\<close>

lemmas insert_defs [sql_defs] = insert_products_def insert_inventory_def insert_flash_sales_def
  insert_reservations_def insert_orders_def insert_domain_events_def insert_idempotency_keys_def
  insert_payments_def insert_public_demo_actions_def

lemma checked_update_Inr:
  "checked_update ok P f rows = Inr (rows', n) \<longleftrightarrow>
     (\<forall>r \<in> set rows. P r \<longrightarrow> ok (f r)) \<and> rows' = update_where P f rows \<and> n = rows_where P rows"
  by (auto simp: checked_update_def list_all_iff)

lemma checked_update_ok:
  "(\<And>r. r \<in> set rows \<Longrightarrow> P r \<Longrightarrow> ok (f r)) \<Longrightarrow>
     checked_update ok P f rows = Inr (update_where P f rows, rows_where P rows)"
  by (simp add: checked_update_def list_all_iff)

lemma map_sum_pair_Inr:
  "map_sum id (\<lambda>(rows, n). (g rows, n)) x = Inr (d', n) \<longleftrightarrow> (\<exists>rows. x = Inr (rows, n) \<and> d' = g rows)"
  by (cases x) auto

lemma update_products_Inr:
  "update_products d P f = Inr (d', n) \<longleftrightarrow>
     (\<forall>r \<in> set (products d). P r \<longrightarrow> products_check (f r)) \<and> d' = d\<lparr>products := update_where P f (products d)\<rparr> \<and> n = rows_where P (products d)"
  by (auto simp: update_products_def map_sum_pair_Inr checked_update_Inr)

lemma update_inventory_Inr:
  "update_inventory d P f = Inr (d', n) \<longleftrightarrow>
     (\<forall>r \<in> set (inventory d). P r \<longrightarrow> inventory_check (f r)) \<and> d' = d\<lparr>inventory := update_where P f (inventory d)\<rparr> \<and> n = rows_where P (inventory d)"
  by (auto simp: update_inventory_def map_sum_pair_Inr checked_update_Inr)

lemma update_flash_sales_Inr:
  "update_flash_sales d P f = Inr (d', n) \<longleftrightarrow>
     (\<forall>r \<in> set (flash_sales d). P r \<longrightarrow> flash_sales_check (f r)) \<and> d' = d\<lparr>flash_sales := update_where P f (flash_sales d)\<rparr> \<and> n = rows_where P (flash_sales d)"
  by (auto simp: update_flash_sales_def map_sum_pair_Inr checked_update_Inr)

lemma update_reservations_Inr:
  "update_reservations d P f = Inr (d', n) \<longleftrightarrow>
     (\<forall>r \<in> set (reservations d). P r \<longrightarrow> reservations_check (f r)) \<and> d' = d\<lparr>reservations := update_where P f (reservations d)\<rparr> \<and> n = rows_where P (reservations d)"
  by (auto simp: update_reservations_def map_sum_pair_Inr checked_update_Inr)

lemma update_orders_Inr:
  "update_orders d P f = Inr (d', n) \<longleftrightarrow>
     (\<forall>r \<in> set (orders d). P r \<longrightarrow> orders_check (f r)) \<and> d' = d\<lparr>orders := update_where P f (orders d)\<rparr> \<and> n = rows_where P (orders d)"
  by (auto simp: update_orders_def map_sum_pair_Inr checked_update_Inr)

lemma update_payments_Inr:
  "update_payments d P f = Inr (d', n) \<longleftrightarrow>
     d' = d\<lparr>payments := update_where P f (payments d)\<rparr> \<and> n = rows_where P (payments d)"
  by (auto simp: update_payments_def map_sum_pair_Inr checked_update_Inr)

lemma update_idempotency_keys_Inr:
  "update_idempotency_keys d P f = Inr (d', n) \<longleftrightarrow>
     d' = d\<lparr>idempotency_keys := update_where P f (idempotency_keys d)\<rparr> \<and> n = rows_where P (idempotency_keys d)"
  by (auto simp: update_idempotency_keys_def map_sum_pair_Inr checked_update_Inr)

lemmas update_Inr [sql_defs] = update_products_Inr update_inventory_Inr update_flash_sales_Inr update_reservations_Inr
  update_orders_Inr update_payments_Inr update_idempotency_keys_Inr

text \<open>
  What a client may rely on about a table's INSERT and UPDATE, and the two facts every
  client needs: the checks and the uniqueness of the key survive both.
\<close>

locale sql_table =
  fixes rows :: "db \<Rightarrow> 'r list" and check :: "'r \<Rightarrow> bool" and key :: "'r \<Rightarrow> 'k"
    and ins :: "db \<Rightarrow> 'r \<Rightarrow> go_error + db"
    and upd :: "db \<Rightarrow> ('r \<Rightarrow> bool) \<Rightarrow> ('r \<Rightarrow> 'r) \<Rightarrow> go_error + (db \<times> nat)"
  assumes ins_rows: "ins d r = Inr d' \<Longrightarrow> rows d' = rows d @ [r]"
    and ins_check: "ins d r = Inr d' \<Longrightarrow> check r \<and> key r \<notin> key ` set (rows d)"
    and upd_rows: "upd d P f = Inr (d', n) \<Longrightarrow> rows d' = update_where P f (rows d)"
    and upd_check: "upd d P f = Inr (d', n) \<Longrightarrow> r \<in> set (rows d) \<Longrightarrow> P r \<Longrightarrow> check (f r)"
    and upd_count: "upd d P f = Inr (d', n) \<Longrightarrow> n = rows_where P (rows d)"
begin

lemma ins_keeps_checks:
  "list_all check (rows d) \<Longrightarrow> ins d r = Inr d' \<Longrightarrow> list_all check (rows d')"
  using ins_rows [of d r d'] ins_check [of d r d'] by (auto simp: list_all_iff)

lemma ins_keeps_key:
  "distinct (map key (rows d)) \<Longrightarrow> ins d r = Inr d' \<Longrightarrow> distinct (map key (rows d'))"
  using ins_rows [of d r d'] ins_check [of d r d'] by (auto simp: image_iff)

lemma upd_keeps_checks:
  "list_all check (rows d) \<Longrightarrow> upd d P f = Inr (d', n) \<Longrightarrow> list_all check (rows d')"
  using upd_rows [of d P f d' n] upd_check [of d P f d' n]
  by (auto simp: list_all_iff set_update_where)

lemma upd_keeps_key:
  "keyed_update key f \<Longrightarrow> distinct (map key (rows d)) \<Longrightarrow> upd d P f = Inr (d', n)
     \<Longrightarrow> distinct (map key (rows d'))"
  using upd_rows [of d P f d' n] by (simp add: keyed_update.keys_update)

lemma upd_none: "upd d P f = Inr (d', n) \<Longrightarrow> n = 0 \<Longrightarrow> rows d' = rows d"
  using upd_rows [of d P f d' n] upd_count [of d P f d' n]
  by (simp add: rows_where_0 update_where_none)

end

interpretation products_tbl: sql_table products products_check products_id insert_products update_products
  by unfold_locales (auto simp: sql_defs split: if_splits)

interpretation inventory_tbl: sql_table inventory inventory_check inventory_product_id insert_inventory update_inventory
  by unfold_locales (auto simp: sql_defs split: if_splits)

interpretation flash_sales_tbl: sql_table flash_sales flash_sales_check flash_sales_id insert_flash_sales update_flash_sales
  by unfold_locales (auto simp: sql_defs split: if_splits)

interpretation reservations_tbl: sql_table reservations reservations_check reservations_id insert_reservations update_reservations
  by unfold_locales (auto simp: sql_defs split: if_splits)

interpretation orders_tbl: sql_table orders orders_check orders_id insert_orders update_orders
  by unfold_locales (auto simp: sql_defs split: if_splits)

section \<open>The constraints as one predicate\<close>

definition rows_checked :: "db \<Rightarrow> bool" where
  "rows_checked d \<longleftrightarrow> list_all products_check (products d) \<and> list_all inventory_check (inventory d)
     \<and> list_all flash_sales_check (flash_sales d) \<and> list_all reservations_check (reservations d)
     \<and> list_all orders_check (orders d)"

definition keys_unique :: "db \<Rightarrow> bool" where
  "keys_unique d \<longleftrightarrow> distinct (map products_id (products d)) \<and> distinct (map products_sku (products d))
     \<and> distinct (map inventory_product_id (inventory d)) \<and> distinct (map flash_sales_id (flash_sales d))
     \<and> distinct (map reservations_id (reservations d)) \<and> distinct (map orders_id (orders d))
     \<and> distinct (map orders_reservation_id (orders d)) \<and> distinct (map payments_id (payments d))
     \<and> distinct (map payments_idempotency_key (payments d))
     \<and> distinct (map idempotency_keys_key (idempotency_keys d))
     \<and> distinct (map domain_events_id (domain_events d))
     \<and> distinct (map public_demo_actions_idempotency_key (public_demo_actions d))"

definition references_ok :: "db \<Rightarrow> bool" where
  "references_ok d \<longleftrightarrow>
     inventory_product_id ` set (inventory d) \<subseteq> products_id ` set (products d)
     \<and> flash_sales_product_id ` set (flash_sales d) \<subseteq> products_id ` set (products d)
     \<and> reservations_sale_id ` set (reservations d) \<subseteq> flash_sales_id ` set (flash_sales d)
     \<and> reservations_product_id ` set (reservations d) \<subseteq> products_id ` set (products d)
     \<and> orders_reservation_id ` set (orders d) \<subseteq> reservations_id ` set (reservations d)
     \<and> payments_order_id ` set (payments d) \<subseteq> orders_id ` set (orders d)"

definition schema_ok :: "db \<Rightarrow> bool" where
  "schema_ok d \<longleftrightarrow> rows_checked d \<and> keys_unique d \<and> references_ok d"

lemmas schema_defs = schema_ok_def rows_checked_def keys_unique_def references_ok_def

lemma schema_ok_empty: "schema_ok empty_db"
  by (simp add: schema_defs empty_db_def)

section \<open>Every statement keeps the constraints\<close>

lemma map_update_kept: "(\<And>r. key (f r) = key r) \<Longrightarrow> map key (update_where P f rows) = map key rows"
  by (simp add: keyed_update.keys_update keyed_update.intro)

lemma image_update_kept: "(\<And>r. key (f r) = key r) \<Longrightarrow> key ` set (update_where P f rows) = key ` set rows"
  by (simp add: keyed_update.key_image_update keyed_update.intro)

lemma list_all_update:
  "list_all ok rows \<Longrightarrow> (\<And>r. r \<in> set rows \<Longrightarrow> P r \<Longrightarrow> ok (f r)) \<Longrightarrow> list_all ok (update_where P f rows)"
  by (auto simp: list_all_iff set_update_where)

lemma schema_update_products:
  assumes "schema_ok d" and "update_products d P f = Inr (d', n)"
    and "\<And>r. products_id (f r) = products_id r"
    and "\<And>r. products_sku (f r) = products_sku r"
  shows "schema_ok d'"
  using assms
  by (clarsimp simp: schema_defs sql_defs map_update_kept image_update_kept list_all_update)

lemma schema_update_inventory:
  assumes "schema_ok d" and "update_inventory d P f = Inr (d', n)"
    and "\<And>r. inventory_product_id (f r) = inventory_product_id r"
  shows "schema_ok d'"
  using assms
  by (clarsimp simp: schema_defs sql_defs map_update_kept image_update_kept list_all_update)

lemma schema_update_flash_sales:
  assumes "schema_ok d" and "update_flash_sales d P f = Inr (d', n)"
    and "\<And>r. flash_sales_id (f r) = flash_sales_id r"
    and "\<And>r. flash_sales_product_id (f r) = flash_sales_product_id r"
  shows "schema_ok d'"
  using assms
  by (clarsimp simp: schema_defs sql_defs map_update_kept image_update_kept list_all_update)

lemma schema_update_reservations:
  assumes "schema_ok d" and "update_reservations d P f = Inr (d', n)"
    and "\<And>r. reservations_id (f r) = reservations_id r"
    and "\<And>r. reservations_sale_id (f r) = reservations_sale_id r"
    and "\<And>r. reservations_product_id (f r) = reservations_product_id r"
  shows "schema_ok d'"
  using assms
  by (clarsimp simp: schema_defs sql_defs map_update_kept image_update_kept list_all_update)

lemma schema_update_orders:
  assumes "schema_ok d" and "update_orders d P f = Inr (d', n)"
    and "\<And>r. orders_id (f r) = orders_id r"
    and "\<And>r. orders_reservation_id (f r) = orders_reservation_id r"
  shows "schema_ok d'"
  using assms
  by (clarsimp simp: schema_defs sql_defs map_update_kept image_update_kept list_all_update)

lemma schema_update_payments:
  assumes "schema_ok d" and "update_payments d P f = Inr (d', n)"
    and "\<And>r. payments_id (f r) = payments_id r"
    and "\<And>r. payments_idempotency_key (f r) = payments_idempotency_key r"
    and "\<And>r. payments_order_id (f r) = payments_order_id r"
  shows "schema_ok d'"
  using assms
  by (clarsimp simp: schema_defs sql_defs map_update_kept image_update_kept list_all_update)

lemma schema_update_idempotency_keys:
  assumes "schema_ok d" and "update_idempotency_keys d P f = Inr (d', n)"
    and "\<And>r. idempotency_keys_key (f r) = idempotency_keys_key r"
  shows "schema_ok d'"
  using assms
  by (clarsimp simp: schema_defs sql_defs map_update_kept image_update_kept list_all_update)

lemma schema_insert_products: "schema_ok d \<Longrightarrow> insert_products d r = Inr d' \<Longrightarrow> schema_ok d'"
  by (clarsimp simp: schema_defs insert_products_def subset_insertI2 split: if_splits)

lemma schema_insert_inventory: "schema_ok d \<Longrightarrow> insert_inventory d r = Inr d' \<Longrightarrow> schema_ok d'"
  by (clarsimp simp: schema_defs insert_inventory_def subset_insertI2 split: if_splits)

lemma schema_insert_flash_sales: "schema_ok d \<Longrightarrow> insert_flash_sales d r = Inr d' \<Longrightarrow> schema_ok d'"
  by (clarsimp simp: schema_defs insert_flash_sales_def subset_insertI2 split: if_splits)

lemma schema_insert_reservations: "schema_ok d \<Longrightarrow> insert_reservations d r = Inr d' \<Longrightarrow> schema_ok d'"
  by (clarsimp simp: schema_defs insert_reservations_def subset_insertI2 split: if_splits)

lemma schema_insert_orders: "schema_ok d \<Longrightarrow> insert_orders d r = Inr d' \<Longrightarrow> schema_ok d'"
  by (clarsimp simp: schema_defs insert_orders_def subset_insertI2 split: if_splits)

lemma schema_insert_domain_events: "schema_ok d \<Longrightarrow> insert_domain_events d r = Inr d' \<Longrightarrow> schema_ok d'"
  by (clarsimp simp: schema_defs insert_domain_events_def subset_insertI2 split: if_splits)

lemma schema_insert_public_demo_actions: "schema_ok d \<Longrightarrow> insert_public_demo_actions d r = Inr d' \<Longrightarrow> schema_ok d'"
  by (clarsimp simp: schema_defs insert_public_demo_actions_def subset_insertI2 split: if_splits)

lemma schema_insert_idempotency_keys: "schema_ok d \<Longrightarrow> insert_idempotency_keys d r = Inr (Some d') \<Longrightarrow> schema_ok d'"
  by (clarsimp simp: schema_defs insert_idempotency_keys_def subset_insertI2 split: if_splits)

lemma schema_insert_payments: "schema_ok d \<Longrightarrow> insert_payments d r = Inr (Some d') \<Longrightarrow> schema_ok d'"
  by (clarsimp simp: schema_defs insert_payments_def subset_insertI2 split: if_splits)

lemmas schema_updates = schema_update_products schema_update_inventory schema_update_flash_sales
  schema_update_reservations schema_update_orders schema_update_payments schema_update_idempotency_keys

lemmas schema_inserts = schema_insert_products schema_insert_inventory schema_insert_flash_sales
  schema_insert_reservations schema_insert_orders schema_insert_domain_events
  schema_insert_public_demo_actions schema_insert_idempotency_keys schema_insert_payments

end
