(* ===== verification/Store.thy ===== *)
theory Store
  imports Schema
begin

text \<open>
  The store's frame (\<open>src/internal/store/store.go\<close>) and the environment of one call.

  Everything a call reads that is not in the database is in the record \<open>env\<close>: the Go clock
  (\<open>s.now()\<close>), the transaction timestamp (SQL \<open>now()\<close>), the random bytes of each
  \<open>rand.Read\<close>, the hash function behind the request fingerprints (any function: nothing about SHA-256 is
  assumed), the reservation rows other transactions hold locked (for SKIP LOCKED), and the fate of each database
  round trip. Round trips are numbered per call in program order. \<open>Fails\<close> makes the statement
  return an error, for whatever reason (connection, timeout, deadlock, a parameter the server
  rejects); at a COMMIT it means the transaction was rolled back, while \<open>LostAck\<close>
  means it was applied and only the acknowledgement was lost.

  A transaction works on a copy of the database: returning without \<open>Commit\<close> runs the deferred
  \<open>rollback\<close>, which is returning the database the transaction started from.
\<close>

datatype fault = NoFault | Fails | LostAck

record env =
  go_now :: int
  db_now :: int
  rand :: "nat \<Rightarrow> 8 word list option"
  sha256 :: "string \<Rightarrow> 8 word list"
  locked :: "string \<Rightarrow> bool"
  fault :: "nat \<Rightarrow> fault"

record Store =
  ttl :: int

type_synonym 'a outcome = "(go_error + 'a) \<times> db"

definition ErrNotFound :: go_error where
  "ErrNotFound = domain_error ''NOT_FOUND'' ''The requested resource was not found'' 404"

definition stmt :: "env \<Rightarrow> nat \<Rightarrow> (go_error + 'a) \<Rightarrow> go_error + 'a" where
  "stmt e n r = (if fault e n = NoFault then r else Inl (OtherError ''database''))"

definition commit :: "env \<Rightarrow> nat \<Rightarrow> db \<Rightarrow> db \<Rightarrow> (go_error + 'a) \<Rightarrow> 'a outcome" where
  "commit e n d0 d1 res = (case fault e n of
       NoFault \<Rightarrow> (res, d1)
     | Fails \<Rightarrow> (Inl (OtherError ''commit''), d0)
     | LostAck \<Rightarrow> (Inl (OtherError ''commit''), d1))"

text \<open>A statement sent outside a transaction commits by itself.\<close>

definition autocommit :: "env \<Rightarrow> nat \<Rightarrow> db \<Rightarrow> (go_error + (db \<times> 'a)) \<Rightarrow> 'a outcome" where
  "autocommit e n d r = (case r of
       Inl err \<Rightarrow> (Inl (if fault e n = NoFault then err else OtherError ''database''), d)
     | Inr (d1, x) \<Rightarrow> commit e n d d1 (Inr x))"

definition NULLIF_empty :: "string \<Rightarrow> string option" where
  "NULLIF_empty s = (if s = '''' then None else Some s)"

definition event :: "env \<Rightarrow> nat \<Rightarrow> nat \<Rightarrow> db \<Rightarrow> string \<Rightarrow> string \<Rightarrow> string \<Rightarrow> string \<Rightarrow> string
    \<Rightarrow> metadata \<Rightarrow> go_error + db" where
  "event e n k d aggregateType aggregateID eventType previous nxt meta =
    (case NewID (rand e k) of
       Inl err \<Rightarrow> Inl err
     | Inr eventID \<Rightarrow> stmt e n (insert_domain_events d
         \<lparr>domain_events_id = eventID, domain_events_aggregate_type = aggregateType,
          domain_events_aggregate_id = aggregateID, domain_events_event_type = eventType,
          domain_events_previous_state = NULLIF_empty previous,
          domain_events_new_state = NULLIF_empty nxt,
          domain_events_metadata = meta, domain_events_created_at = db_now e\<rparr>))"

definition notFound :: "go_error \<Rightarrow> go_error" where
  "notFound err = (if is_NoRows err then ErrNotFound else err)"

definition domainError :: "go_error \<Rightarrow> string \<Rightarrow> string \<Rightarrow> int \<Rightarrow> Error" where
  "domainError err code message status =
    (case errors_As err of
       Some de \<Rightarrow> \<lparr>Error_Code = code, Error_Message = message, Error_HTTPStatus = status\<rparr>
     | None \<Rightarrow> \<lparr>Error_Code = ''INTERNAL_ERROR'', Error_Message = ''An internal error occurred'',
         Error_HTTPStatus = 500\<rparr>)"

text \<open>A query that scans one row: no row is the driver's \<open>ErrNoRows\<close>.\<close>

definition query_row :: "'r option \<Rightarrow> go_error + 'r" where
  "query_row r = (case r of None \<Rightarrow> Inl ErrNoRows | Some x \<Rightarrow> Inr x)"

section \<open>Facts about the frame\<close>

lemma stmt_Inr [simp]: "stmt e n r = Inr x \<longleftrightarrow> fault e n = NoFault \<and> r = Inr x"
  by (simp add: stmt_def)

lemma stmt_ok [simp]: "fault e n = NoFault \<Longrightarrow> stmt e n r = r"
  by (simp add: stmt_def)

lemma stmt_Inl: "stmt e n r = Inl err \<longleftrightarrow>
    (if fault e n = NoFault then r = Inl err else err = OtherError ''database'')"
  by (auto simp: stmt_def)

lemma query_row_simps [simp]: "query_row (Some x) = Inr x" "query_row None = Inl ErrNoRows"
  by (simp_all add: query_row_def)

lemma query_row_Inr [simp]: "query_row r = Inr x \<longleftrightarrow> r = Some x"
  by (auto simp: query_row_def split: option.splits)

lemma query_row_Inl [simp]: "query_row r = Inl err \<longleftrightarrow> r = None \<and> err = ErrNoRows"
  by (auto simp: query_row_def split: option.splits)

lemma snd_commit: "snd (commit e n d0 d1 res) = (if fault e n = Fails then d0 else d1)"
  by (cases "fault e n") (simp_all add: commit_def)

lemma commit_Inr:
  "commit e n d0 d1 res = (Inr x, d') \<longleftrightarrow> fault e n = NoFault \<and> res = Inr x \<and> d' = d1"
  by (cases "fault e n") (auto simp: commit_def)

lemma commit_ok [simp]: "fault e n = NoFault \<Longrightarrow> commit e n d0 d1 res = (res, d1)"
  by (simp add: commit_def)

lemma event_Inr:
  "event e n k d at ai et p nx m = Inr d' \<longleftrightarrow> fault e n = NoFault \<and> (\<exists>eventID. NewID (rand e k) = Inr eventID
     \<and> eventID \<notin> domain_events_id ` set (domain_events d)
     \<and> d' = d\<lparr>domain_events := domain_events d @
         [\<lparr>domain_events_id = eventID, domain_events_aggregate_type = at,
          domain_events_aggregate_id = ai, domain_events_event_type = et,
          domain_events_previous_state = NULLIF_empty p, domain_events_new_state = NULLIF_empty nx,
          domain_events_metadata = m, domain_events_created_at = db_now e\<rparr>]\<rparr>)"
  by (auto simp: event_def insert_domain_events_def split: sum.splits if_splits)

lemma notFound_NoRows [simp]: "notFound ErrNoRows = ErrNotFound"
  by (simp add: notFound_def)

text \<open>
  The contract of a transaction: a call whose database effect is either the one the
  transaction body computed or none at all. Clients get atomicity and the frame rule for invariants.
\<close>

locale transaction =
  fixes run :: "env \<Rightarrow> db \<Rightarrow> 'q \<Rightarrow> 'a outcome" and good :: "db \<Rightarrow> bool"
  assumes keeps: "good d \<Longrightarrow> good (snd (run e d q))"
begin

lemma run_list: "good d \<Longrightarrow> good (foldl (\<lambda>d (e, q). snd (run e d q)) d eqs)"
  by (induction eqs arbitrary: d) (auto simp: keeps)

end

end
