(* ===== verification/Stock.thy ===== *)
theory Stock
  imports Store
begin

text \<open>
  The stock ledger: what the counters of \<open>inventory\<close> and \<open>flash_sales\<close> mean in terms of the
  reservations, as invariants of the database.

  A transaction updates the reservation row, the order row and the two counters in
  separate statements, so the invariants carry lists of reservations that are still owed a change:
  \<open>balanced es\<close> says that \<open>reserved\<close> exceeds the held reservations by exactly the units of
  \<open>es\<close>, \<open>allocated fs\<close> likewise for a sale's remaining stock, \<open>followed gs\<close> exempts the
  orders of \<open>gs\<close>, and \<open>ordered hs\<close> the reservations \<open>hs\<close> that have no order yet. A statement
  opens or discharges one entry of one list (\<open>ledger\<close> carries all four); between
  transactions they are empty, and every stored idempotency key has its response (\<open>good\<close>).
\<close>

section \<open>Units\<close>

definition held_state :: "ReservationState \<Rightarrow> bool" where
  "held_state st \<longleftrightarrow> st = ReservationPending \<or> st = ReservationConfirmed"

definition held_units :: "reservations_row list \<Rightarrow> string \<Rightarrow> int" where
  "held_units rs pid = sum_where reservations_quantity
     (\<lambda>r. reservations_product_id r = pid \<and> held_state (reservations_state r)) rs"

definition paid_units :: "reservations_row list \<Rightarrow> string \<Rightarrow> int" where
  "paid_units rs pid = sum_where reservations_quantity
     (\<lambda>r. reservations_product_id r = pid \<and> reservations_state r = ReservationPaid) rs"

definition active_units :: "reservations_row list \<Rightarrow> string \<Rightarrow> int" where
  "active_units rs sid = sum_where reservations_quantity
     (\<lambda>r. reservations_sale_id r = sid \<and> active_state (reservations_state r)) rs"

definition user_units :: "reservations_row list \<Rightarrow> string \<Rightarrow> string \<Rightarrow> int" where
  "user_units rs sid u = sum_where reservations_quantity
     (\<lambda>r. reservations_sale_id r = sid \<and> reservations_user_id r = u
        \<and> active_state (reservations_state r)) rs"

abbreviation owed_product :: "reservations_row list \<Rightarrow> string \<Rightarrow> int" where
  "owed_product es pid \<equiv> sum_where reservations_quantity (\<lambda>r. reservations_product_id r = pid) es"

abbreviation owed_sale :: "reservations_row list \<Rightarrow> string \<Rightarrow> int" where
  "owed_sale es sid \<equiv> sum_where reservations_quantity (\<lambda>r. reservations_sale_id r = sid) es"

section \<open>Invariants\<close>

definition stocked :: "db \<Rightarrow> bool" where
  "stocked d \<longleftrightarrow> products_id ` set (products d) \<subseteq> inventory_product_id ` set (inventory d)"

definition tied :: "db \<Rightarrow> bool" where
  "tied d \<longleftrightarrow> (\<forall>r \<in> set (reservations d). \<exists>s \<in> set (flash_sales d).
     flash_sales_id s = reservations_sale_id r \<and> flash_sales_product_id s = reservations_product_id r)"

definition balanced :: "reservations_row list \<Rightarrow> db \<Rightarrow> bool" where
  "balanced es d \<longleftrightarrow> (\<forall>i \<in> set (inventory d).
     inventory_reserved i = held_units (reservations d) (inventory_product_id i) + owed_product es (inventory_product_id i)
     \<and> inventory_sold i = paid_units (reservations d) (inventory_product_id i)
     \<and> inventory_expected_total i = inventory_available i + inventory_reserved i + inventory_sold i)"

definition allocated :: "reservations_row list \<Rightarrow> db \<Rightarrow> bool" where
  "allocated fs d \<longleftrightarrow> (\<forall>s \<in> set (flash_sales d).
     flash_sales_remaining_stock s + active_units (reservations d) (flash_sales_id s) + owed_sale fs (flash_sales_id s)
       \<le> flash_sales_allocated_stock s)"

definition limited :: "db \<Rightarrow> bool" where
  "limited d \<longleftrightarrow> (\<forall>s \<in> set (flash_sales d). \<forall>u.
     user_units (reservations d) (flash_sales_id s) u \<le> flash_sales_max_quantity_per_user s)"

definition order_follows :: "ReservationState \<Rightarrow> OrderState \<Rightarrow> bool" where
  "order_follows st ost \<longleftrightarrow> ost = order_state_of st \<or> (held_state st \<and> ost = OrderPaymentFailed)"

definition order_agrees :: "reservations_row \<Rightarrow> orders_row \<Rightarrow> bool" where
  "order_agrees r x \<longleftrightarrow> orders_reservation_id x = reservations_id r
     \<and> orders_sale_id x = reservations_sale_id r \<and> orders_product_id x = reservations_product_id r
     \<and> orders_user_id x = reservations_user_id r \<and> orders_quantity x = reservations_quantity r"

definition ordered :: "reservations_row list \<Rightarrow> db \<Rightarrow> bool" where
  "ordered gs d \<longleftrightarrow> (\<forall>r \<in> set (reservations d). reservations_id r \<notin> reservations_id ` set gs \<longrightarrow>
     (\<exists>x \<in> set (orders d). order_agrees r x))"

definition followed :: "reservations_row list \<Rightarrow> db \<Rightarrow> bool" where
  "followed gs d \<longleftrightarrow> (\<forall>r \<in> set (reservations d). reservations_id r \<notin> reservations_id ` set gs \<longrightarrow>
     (\<forall>x \<in> set (orders d). orders_reservation_id x = reservations_id r \<longrightarrow>
        order_follows (reservations_state r) (orders_state x)))"

definition receipts :: "db \<Rightarrow> bool" where
  "receipts d \<longleftrightarrow> (\<forall>p \<in> set (payments d). payments_status p = StatusSucceeded \<longrightarrow>
     (\<forall>x \<in> set (orders d). orders_id x = payments_order_id p \<longrightarrow>
        (\<forall>r \<in> set (reservations d). reservations_id r = orders_reservation_id x \<longrightarrow>
           reservations_state r = ReservationPaid)))"

definition ledger :: "reservations_row list \<Rightarrow> reservations_row list \<Rightarrow> reservations_row list
    \<Rightarrow> reservations_row list \<Rightarrow> db \<Rightarrow> bool" where
  "ledger es fs hs gs d \<longleftrightarrow> schema_ok d \<and> stocked d \<and> tied d \<and> balanced es d \<and> allocated fs d
     \<and> limited d \<and> ordered hs d \<and> followed gs d \<and> receipts d"

definition response_backed :: "db \<Rightarrow> idempotency_keys_row \<Rightarrow> bool" where
  "response_backed d k \<longleftrightarrow> idempotency_keys_scope k = ''reservation''
     \<and> (\<exists>st resp. idempotency_keys_response_status k = Some st
         \<and> idempotency_keys_response_body k = Some resp
         \<and> (Response_ErrorCode resp = '''' \<longrightarrow> (\<exists>res. Response_Result resp = Some res
             \<and> \<not> Result_Duplicate res
             \<and> (\<exists>r \<in> set (reservations d). reservations_id r = Reservation_ID (Result_Reservation res)
                 \<and> reservations_user_id r = idempotency_keys_user_id k))))"

definition answered :: "string set \<Rightarrow> db \<Rightarrow> bool" where
  "answered claims d \<longleftrightarrow> (\<forall>k \<in> set (idempotency_keys d).
     idempotency_keys_key k \<notin> claims \<longrightarrow> response_backed d k)"

definition good :: "db \<Rightarrow> bool" where
  "good d \<longleftrightarrow> ledger [] [] [] [] d \<and> answered {} d"

lemmas unit_defs = held_units_def paid_units_def active_units_def user_units_def
lemmas ledger_defs = stocked_def tied_def balanced_def allocated_def limited_def ordered_def
  followed_def receipts_def answered_def

lemma good_empty: "good empty_db"
  by (simp add: good_def ledger_def schema_ok_empty ledger_defs) (simp add: empty_db_def)

section \<open>Frame rules\<close>

text \<open>An invariant does not see the tables it does not mention.\<close>

lemma frame_products [simp]:
  "tied (d\<lparr>products := rows\<rparr>) = tied d"
  "balanced es (d\<lparr>products := rows\<rparr>) = balanced es d"
  "allocated fs (d\<lparr>products := rows\<rparr>) = allocated fs d"
  "limited (d\<lparr>products := rows\<rparr>) = limited d"
  "ordered hs (d\<lparr>products := rows\<rparr>) = ordered hs d"
  "followed gs (d\<lparr>products := rows\<rparr>) = followed gs d"
  "receipts (d\<lparr>products := rows\<rparr>) = receipts d"
  "answered K (d\<lparr>products := rows\<rparr>) = answered K d"
  by (simp_all add: ledger_defs response_backed_def)

lemma frame_inventory [simp]:
  "tied (d\<lparr>inventory := rows\<rparr>) = tied d"
  "allocated fs (d\<lparr>inventory := rows\<rparr>) = allocated fs d"
  "limited (d\<lparr>inventory := rows\<rparr>) = limited d"
  "ordered hs (d\<lparr>inventory := rows\<rparr>) = ordered hs d"
  "followed gs (d\<lparr>inventory := rows\<rparr>) = followed gs d"
  "receipts (d\<lparr>inventory := rows\<rparr>) = receipts d"
  "answered K (d\<lparr>inventory := rows\<rparr>) = answered K d"
  by (simp_all add: ledger_defs response_backed_def)

lemma frame_flash_sales [simp]:
  "stocked (d\<lparr>flash_sales := rows\<rparr>) = stocked d"
  "balanced es (d\<lparr>flash_sales := rows\<rparr>) = balanced es d"
  "ordered hs (d\<lparr>flash_sales := rows\<rparr>) = ordered hs d"
  "followed gs (d\<lparr>flash_sales := rows\<rparr>) = followed gs d"
  "receipts (d\<lparr>flash_sales := rows\<rparr>) = receipts d"
  "answered K (d\<lparr>flash_sales := rows\<rparr>) = answered K d"
  by (simp_all add: ledger_defs response_backed_def)

lemma frame_reservations [simp]:
  "stocked (d\<lparr>reservations := rows\<rparr>) = stocked d"
  by (simp_all add: ledger_defs response_backed_def)

lemma frame_orders [simp]:
  "stocked (d\<lparr>orders := rows\<rparr>) = stocked d"
  "tied (d\<lparr>orders := rows\<rparr>) = tied d"
  "balanced es (d\<lparr>orders := rows\<rparr>) = balanced es d"
  "allocated fs (d\<lparr>orders := rows\<rparr>) = allocated fs d"
  "limited (d\<lparr>orders := rows\<rparr>) = limited d"
  "answered K (d\<lparr>orders := rows\<rparr>) = answered K d"
  by (simp_all add: ledger_defs response_backed_def)

lemma frame_payments [simp]:
  "stocked (d\<lparr>payments := rows\<rparr>) = stocked d"
  "tied (d\<lparr>payments := rows\<rparr>) = tied d"
  "balanced es (d\<lparr>payments := rows\<rparr>) = balanced es d"
  "allocated fs (d\<lparr>payments := rows\<rparr>) = allocated fs d"
  "limited (d\<lparr>payments := rows\<rparr>) = limited d"
  "ordered hs (d\<lparr>payments := rows\<rparr>) = ordered hs d"
  "followed gs (d\<lparr>payments := rows\<rparr>) = followed gs d"
  "answered K (d\<lparr>payments := rows\<rparr>) = answered K d"
  by (simp_all add: ledger_defs response_backed_def)

lemma frame_idempotency_keys [simp]:
  "stocked (d\<lparr>idempotency_keys := rows\<rparr>) = stocked d"
  "tied (d\<lparr>idempotency_keys := rows\<rparr>) = tied d"
  "balanced es (d\<lparr>idempotency_keys := rows\<rparr>) = balanced es d"
  "allocated fs (d\<lparr>idempotency_keys := rows\<rparr>) = allocated fs d"
  "limited (d\<lparr>idempotency_keys := rows\<rparr>) = limited d"
  "ordered hs (d\<lparr>idempotency_keys := rows\<rparr>) = ordered hs d"
  "followed gs (d\<lparr>idempotency_keys := rows\<rparr>) = followed gs d"
  "receipts (d\<lparr>idempotency_keys := rows\<rparr>) = receipts d"
  by (simp_all add: ledger_defs response_backed_def)

lemma frame_domain_events [simp]:
  "stocked (d\<lparr>domain_events := rows\<rparr>) = stocked d"
  "tied (d\<lparr>domain_events := rows\<rparr>) = tied d"
  "balanced es (d\<lparr>domain_events := rows\<rparr>) = balanced es d"
  "allocated fs (d\<lparr>domain_events := rows\<rparr>) = allocated fs d"
  "limited (d\<lparr>domain_events := rows\<rparr>) = limited d"
  "ordered hs (d\<lparr>domain_events := rows\<rparr>) = ordered hs d"
  "followed gs (d\<lparr>domain_events := rows\<rparr>) = followed gs d"
  "receipts (d\<lparr>domain_events := rows\<rparr>) = receipts d"
  "answered K (d\<lparr>domain_events := rows\<rparr>) = answered K d"
  by (simp_all add: ledger_defs response_backed_def)

lemma frame_public_demo_actions [simp]:
  "stocked (d\<lparr>public_demo_actions := rows\<rparr>) = stocked d"
  "tied (d\<lparr>public_demo_actions := rows\<rparr>) = tied d"
  "balanced es (d\<lparr>public_demo_actions := rows\<rparr>) = balanced es d"
  "allocated fs (d\<lparr>public_demo_actions := rows\<rparr>) = allocated fs d"
  "limited (d\<lparr>public_demo_actions := rows\<rparr>) = limited d"
  "ordered hs (d\<lparr>public_demo_actions := rows\<rparr>) = ordered hs d"
  "followed gs (d\<lparr>public_demo_actions := rows\<rparr>) = followed gs d"
  "receipts (d\<lparr>public_demo_actions := rows\<rparr>) = receipts d"
  "answered K (d\<lparr>public_demo_actions := rows\<rparr>) = answered K d"
  by (simp_all add: ledger_defs response_backed_def)

section \<open>Units\<close>

lemma schema_qty: "schema_ok d \<Longrightarrow> r \<in> set (reservations d) \<Longrightarrow> 0 < reservations_quantity r"
  by (auto simp: schema_defs list_all_iff reservations_check_def)

lemma units_nonneg:
  assumes "schema_ok d"
  shows "0 \<le> held_units (reservations d) pid" "0 \<le> paid_units (reservations d) pid"
    "0 \<le> active_units (reservations d) sid" "0 \<le> user_units (reservations d) sid u"
  using schema_qty [OF assms] unfolding unit_defs by (force intro!: sum_where_nonneg)+

lemma units_append [simp]:
  "held_units (rs @ [r]) pid = held_units rs pid
     + (if reservations_product_id r = pid \<and> held_state (reservations_state r) then reservations_quantity r else 0)"
  "paid_units (rs @ [r]) pid = paid_units rs pid
     + (if reservations_product_id r = pid \<and> reservations_state r = ReservationPaid then reservations_quantity r else 0)"
  "active_units (rs @ [r]) sid = active_units rs sid
     + (if reservations_sale_id r = sid \<and> active_state (reservations_state r) then reservations_quantity r else 0)"
  "user_units (rs @ [r]) sid u = user_units rs sid u
     + (if reservations_sale_id r = sid \<and> reservations_user_id r = u \<and> active_state (reservations_state r)
        then reservations_quantity r else 0)"
  by (simp_all add: unit_defs)


section \<open>Destruction rules\<close>

lemma ledgerD:
  assumes "ledger es fs hs gs d"
  shows "schema_ok d" "stocked d" "tied d" "balanced es d" "allocated fs d" "limited d"
    "ordered hs d" "followed gs d" "receipts d"
  using assms by (simp_all add: ledger_def)

lemma keysD:
  assumes "schema_ok d"
  shows "distinct (map products_id (products d))" "distinct (map inventory_product_id (inventory d))"
    "distinct (map flash_sales_id (flash_sales d))" "distinct (map reservations_id (reservations d))"
    "distinct (map orders_id (orders d))" "distinct (map orders_reservation_id (orders d))"
    "distinct (map payments_id (payments d))" "distinct (map payments_idempotency_key (payments d))"
    "distinct (map idempotency_keys_key (idempotency_keys d))"
  using assms by (simp_all add: schema_defs)

lemma refsD:
  assumes "schema_ok d"
  shows "i \<in> set (inventory d) \<Longrightarrow> inventory_product_id i \<in> products_id ` set (products d)"
    "s \<in> set (flash_sales d) \<Longrightarrow> flash_sales_product_id s \<in> products_id ` set (products d)"
    "r \<in> set (reservations d) \<Longrightarrow> reservations_sale_id r \<in> flash_sales_id ` set (flash_sales d)"
    "r \<in> set (reservations d) \<Longrightarrow> reservations_product_id r \<in> products_id ` set (products d)"
    "x \<in> set (orders d) \<Longrightarrow> orders_reservation_id x \<in> reservations_id ` set (reservations d)"
    "p \<in> set (payments d) \<Longrightarrow> payments_order_id p \<in> orders_id ` set (orders d)"
  using assms by (simp_all add: schema_ok_def references_ok_def image_subset_iff)

end
