(* ===== verification/Reservation.thy ===== *)
theory Reservation
  imports Stock
begin

text \<open>
  Reservations (\<open>src/internal/store/reservation.go\<close>): \<open>Reserve\<close> with its idempotency protocol
  (\<open>replayReservation\<close>, \<open>finishReservationError\<close>, \<open>fingerprint\<close>), \<open>GetReservation\<close> and
  \<open>TransitionReservation\<close>. Each SQL statement is a definition of its own (\<open>sql_...\<close>).

  Round trips of \<open>Reserve\<close>: 0 BEGIN, 1 claim the key, 2 advisory lock, 3 read sale and product,
  4 read the buyer's active quantity, 5 take sale stock, 6 take inventory, 7 insert
  reservation, 8 insert order, 9 insert event, 10 store the response, 11 COMMIT; a decided refusal stores
  its response in round trip 12 and commits in 13; a replay reads in 14 and commits in 15.
\<close>

definition fingerprint_input :: "string \<Rightarrow> string \<Rightarrow> int \<Rightarrow> string" where
  "fingerprint_input saleID userID quantity =
     saleID @ [CHR 0x00] @ userID @ [CHR 0x00] @ fmt_d quantity"

definition fingerprint :: "env \<Rightarrow> string \<Rightarrow> string \<Rightarrow> int \<Rightarrow> string" where
  "fingerprint e saleID userID quantity =
     EncodeToString (sha256 e (fingerprint_input saleID userID quantity))"

section \<open>Statements of Reserve\<close>

definition new_key :: "env \<Rightarrow> string \<Rightarrow> string \<Rightarrow> string \<Rightarrow> idempotency_keys_row" where
  "new_key e key userID fp =
     \<lparr>idempotency_keys_key = key, idempotency_keys_scope = ''reservation'',
      idempotency_keys_user_id = userID, idempotency_keys_request_fingerprint = fp,
      idempotency_keys_resource_id = None, idempotency_keys_response_status = None,
      idempotency_keys_response_body = None, idempotency_keys_created_at = db_now e,
      idempotency_keys_expires_at = db_now e + 24 * 3600 * 1000000\<rparr>"

definition sql_claim_key :: "env \<Rightarrow> db \<Rightarrow> string \<Rightarrow> string \<Rightarrow> string \<Rightarrow> go_error + db option" where
  "sql_claim_key e d key userID fp = insert_idempotency_keys d (new_key e key userID fp)"

definition sql_sale_product :: "db \<Rightarrow> string \<Rightarrow> (flash_sales_row \<times> products_row) option" where
  "sql_sale_product d saleID =
    (case find (\<lambda>s. flash_sales_id s = saleID) (flash_sales d) of
       None \<Rightarrow> None
     | Some s \<Rightarrow> (case find (\<lambda>p. products_id p = flash_sales_product_id s) (products d) of
           None \<Rightarrow> None | Some p \<Rightarrow> Some (s, p)))"

definition sql_existing_quantity :: "db \<Rightarrow> string \<Rightarrow> string \<Rightarrow> int" where
  "sql_existing_quantity d saleID userID = sum_where reservations_quantity
     (\<lambda>r. reservations_sale_id r = saleID \<and> reservations_user_id r = userID
        \<and> active_state (reservations_state r)) (reservations d)"

definition sql_take_sale_stock :: "env \<Rightarrow> db \<Rightarrow> string \<Rightarrow> int \<Rightarrow> go_error + (db \<times> nat)" where
  "sql_take_sale_stock e d saleID quantity = update_flash_sales d
     (\<lambda>s. flash_sales_id s = saleID \<and> flash_sales_state s = SaleActive
        \<and> quantity \<le> flash_sales_remaining_stock s)
     (\<lambda>s. s\<lparr>flash_sales_remaining_stock := flash_sales_remaining_stock s - quantity,
        flash_sales_updated_at := db_now e\<rparr>)"

definition sql_take_inventory :: "env \<Rightarrow> db \<Rightarrow> string \<Rightarrow> int \<Rightarrow> go_error + (db \<times> nat)" where
  "sql_take_inventory e d productID quantity = update_inventory d
     (\<lambda>i. inventory_product_id i = productID \<and> quantity \<le> inventory_available i)
     (\<lambda>i. i\<lparr>inventory_available := inventory_available i - quantity,
        inventory_reserved := inventory_reserved i + quantity,
        inventory_updated_at := db_now e\<rparr>)"

definition new_reservation :: "env \<Rightarrow> string \<Rightarrow> string \<Rightarrow> string \<Rightarrow> string \<Rightarrow> int \<Rightarrow> int \<Rightarrow> reservations_row" where
  "new_reservation e reservationID saleID productID userID quantity expiresAt =
     \<lparr>reservations_id = reservationID, reservations_sale_id = saleID,
      reservations_product_id = productID, reservations_user_id = userID,
      reservations_quantity = quantity, reservations_state = ReservationPending,
      reservations_expires_at = expiresAt, reservations_created_at = db_now e,
      reservations_updated_at = db_now e\<rparr>"

definition new_order ::
  "env \<Rightarrow> string \<Rightarrow> string \<Rightarrow> string \<Rightarrow> string \<Rightarrow> string \<Rightarrow> int \<Rightarrow> int \<Rightarrow> string \<Rightarrow> orders_row" where
  "new_order e orderID reservationID saleID productID userID quantity amount currency =
     \<lparr>orders_id = orderID, orders_reservation_id = reservationID,
      orders_sale_id = saleID, orders_product_id = productID, orders_user_id = userID,
      orders_quantity = quantity, orders_amount_minor = amount, orders_currency = currency,
      orders_state = OrderPending, orders_created_at = db_now e, orders_updated_at = db_now e\<rparr>"

definition sql_store_success :: "db \<Rightarrow> string \<Rightarrow> string \<Rightarrow> idempotencyResponse \<Rightarrow> go_error + (db \<times> nat)" where
  "sql_store_success d key reservationID body = update_idempotency_keys d
     (\<lambda>k. idempotency_keys_key k = key)
     (\<lambda>k. k\<lparr>idempotency_keys_resource_id := Some reservationID,
        idempotency_keys_response_status := Some 201, idempotency_keys_response_body := Some body\<rparr>)"

definition sql_store_error :: "db \<Rightarrow> string \<Rightarrow> int \<Rightarrow> idempotencyResponse \<Rightarrow> go_error + (db \<times> nat)" where
  "sql_store_error d key status body = update_idempotency_keys d
     (\<lambda>k. idempotency_keys_key k = key)
     (\<lambda>k. k\<lparr>idempotency_keys_response_status := Some status,
        idempotency_keys_response_body := Some body\<rparr>)"

definition reservation_of_row :: "string \<Rightarrow> reservations_row \<Rightarrow> Reservation" where
  "reservation_of_row orderID r = \<lparr>Reservation_ID = reservations_id r,
     Reservation_SaleID = reservations_sale_id r, Reservation_ProductID = reservations_product_id r,
     Reservation_OrderID = orderID, Reservation_UserID = reservations_user_id r,
     Reservation_Quantity = reservations_quantity r, Reservation_State = reservations_state r,
     Reservation_ExpiresAt = reservations_expires_at r,
     Reservation_CreatedAt = reservations_created_at r, Reservation_UpdatedAt = reservations_updated_at r\<rparr>"

section \<open>Reserve\<close>

text \<open>
  \<open>finishReservationError\<close> commits whatever the transaction has done so far. The argument \<open>tx\<close> is the
  transaction's database, \<open>None\<close> when an earlier statement failed on the server: PostgreSQL then rejects every
  further statement of the transaction.
\<close>

definition finishReservationError ::
  "env \<Rightarrow> db \<Rightarrow> db option \<Rightarrow> string \<Rightarrow> Error \<Rightarrow> ReservationResult outcome" where
  "finishReservationError e d0 tx key domainErr =
    (case tx of
       None \<Rightarrow> (Inl (OtherError ''current transaction is aborted''), d0)
     | Some d \<Rightarrow>
        (case stmt e 12 (sql_store_error d key (Error_HTTPStatus domainErr)
            \<lparr>Response_ErrorCode = Error_Code domainErr, Response_Message = Error_Message domainErr,
             Response_Result = None\<rparr>) of
           Inl err \<Rightarrow> (Inl err, d0)
         | Inr (d', n) \<Rightarrow> commit e 13 d0 d' (Inl (DomainError domainErr))))"

definition decode_response :: "int \<Rightarrow> idempotencyResponse \<Rightarrow> go_error + ReservationResult" where
  "decode_response status response =
    (if Response_ErrorCode response \<noteq> ''''
     then Inl (domain_error (Response_ErrorCode response) (Response_Message response) status)
     else case Response_Result response of
         None \<Rightarrow> Inl (OtherError ''nil pointer dereference'')
       | Some result \<Rightarrow> Inr (result\<lparr>Result_Duplicate := True\<rparr>))"

definition replayReservation ::
  "env \<Rightarrow> db \<Rightarrow> string \<Rightarrow> string \<Rightarrow> string \<Rightarrow> ReservationResult outcome" where
  "replayReservation e d key userID fp =
    (case stmt e 14 (query_row (find (\<lambda>k. idempotency_keys_key k = key
            \<and> idempotency_keys_scope k = ''reservation'') (idempotency_keys d))) of
       Inl err \<Rightarrow> (Inl err, d)
     | Inr k \<Rightarrow>
        if idempotency_keys_user_id k \<noteq> userID \<or> idempotency_keys_request_fingerprint k \<noteq> fp
        then (Inl (domain_error ''IDEMPOTENCY_CONFLICT''
               ''Idempotency-Key was already used with a different request'' 409), d)
        else (case (idempotency_keys_response_status k, idempotency_keys_response_body k) of
             (Some status, Some response) \<Rightarrow>
               commit e 15 d d (decode_response status response)
           | _ \<Rightarrow> (Inl (domain_error ''IDEMPOTENCY_IN_PROGRESS''
               ''The original request is still processing'' 409), d)))"

text \<open>The last part of \<open>Reserve\<close>: stock has been taken, the reservation is recorded.\<close>

definition reserve_record ::
  "Store \<Rightarrow> env \<Rightarrow> db \<Rightarrow> db \<Rightarrow> string \<Rightarrow> string \<Rightarrow> int \<Rightarrow> string \<Rightarrow> products_row \<Rightarrow> ReservationResult outcome" where
  "reserve_record s e d0 d saleID userID quantity key p =
    (case NewID (rand e 0) of Inl err \<Rightarrow> (Inl err, d0) | Inr reservationID \<Rightarrow>
    (case NewID (rand e 1) of Inl err \<Rightarrow> (Inl err, d0) | Inr orderID \<Rightarrow>
   (let r = new_reservation e reservationID saleID (products_id p) userID quantity (go_now e + ttl s);
        x = new_order e orderID reservationID saleID (products_id p) userID quantity
              (wrap64 (products_price_minor p * quantity)) (products_currency p);
        result = \<lparr>Result_Reservation = reservation_of_row orderID r, Result_Duplicate = False\<rparr> in
    (case stmt e 7 (insert_reservations d r) of
       Inl err \<Rightarrow> (Inl (WrapError ''insert reservation'' err), d0)
     | Inr d1 \<Rightarrow>
    (case stmt e 8 (insert_orders d1 x) of
       Inl err \<Rightarrow> (Inl (WrapError ''insert order'' err), d0)
     | Inr d2 \<Rightarrow>
    (case event e 9 2 d2 ''reservation'' reservationID ''reservation.created'' '''' ''pending''
            (MetaInt ''quantity'' quantity) of
       Inl err \<Rightarrow> (Inl err, d0)
     | Inr d3 \<Rightarrow>
    (case stmt e 10 (sql_store_success d3 key reservationID
            \<lparr>Response_ErrorCode = '''', Response_Message = '''', Response_Result = Some result\<rparr>) of
       Inl err \<Rightarrow> (Inl err, d0)
     | Inr (d4, n) \<Rightarrow> commit e 11 d0 d4 (Inr result))))))))"

text \<open>
  The middle part: the sale is open, the buyer's limit allows it, and both counters
  are decremented conditionally.
\<close>

definition reserve_take ::
  "Store \<Rightarrow> env \<Rightarrow> db \<Rightarrow> db \<Rightarrow> string \<Rightarrow> string \<Rightarrow> int \<Rightarrow> string \<Rightarrow> flash_sales_row \<Rightarrow> products_row
     \<Rightarrow> ReservationResult outcome" where
  "reserve_take s e d0 d saleID userID quantity key sale p =
    (let now = go_now e; refuse = (\<lambda>d code msg. finishReservationError e d0 (Some d) key
           \<lparr>Error_Code = code, Error_Message = msg, Error_HTTPStatus = 409\<rparr>) in
     if flash_sales_state sale \<noteq> SaleActive \<or> now < flash_sales_starts_at sale
        \<or> \<not> now < flash_sales_ends_at sale
     then refuse d ''SALE_NOT_ACTIVE'' ''The flash sale is not active''
     else if \<not> products_active p then refuse d ''PRODUCT_INACTIVE'' ''The product is inactive''
     else case stmt e 4 (Inr (sql_existing_quantity d saleID userID)) of
       Inl err \<Rightarrow> (Inl err, d0)
     | Inr existingQuantity \<Rightarrow>
       if flash_sales_max_quantity_per_user sale < wrap64 (existingQuantity + quantity)
       then refuse d ''PURCHASE_LIMIT_EXCEEDED'' ''The per-user purchase limit would be exceeded''
       else case stmt e 5 (sql_take_sale_stock e d saleID quantity) of
         Inl err \<Rightarrow> (Inl err, d0)
       | Inr (d1, n1) \<Rightarrow>
         if n1 = 0 then refuse d1 ''INVENTORY_SOLD_OUT'' ''The flash sale allocation is sold out''
         else case stmt e 6 (sql_take_inventory e d1 (products_id p) quantity) of
           Inl err \<Rightarrow> (Inl err, d0)
         | Inr (d2, n2) \<Rightarrow>
           if n2 = 0 then refuse d2 ''INVENTORY_SOLD_OUT'' ''The requested product is sold out''
           else reserve_record s e d0 d2 saleID userID quantity key p)"

definition request_invalid :: "string \<Rightarrow> string \<Rightarrow> int \<Rightarrow> string \<Rightarrow> bool" where
  "request_invalid saleID userID quantity key \<longleftrightarrow> saleID = '''' \<or> userID = '''' \<or> 128 < length userID
     \<or> quantity \<le> 0 \<or> 100 < quantity \<or> key = '''' \<or> 200 < length key"

definition Reserve :: "Store \<Rightarrow> env \<Rightarrow> db \<Rightarrow> string \<Rightarrow> ReservationRequest \<Rightarrow> ReservationResult outcome" where
  "Reserve s e d saleID request =
    (let userID = TrimSpace (Request_UserID request);
         key = TrimSpace (Request_IdempotencyKey request);
         quantity = Request_Quantity request in
     if request_invalid saleID userID quantity key
     then (Inl (domain_error ''VALIDATION_ERROR''
             ''sale, user, quantity, and Idempotency-Key are required'' 400), d)
     else let fp = fingerprint e saleID userID quantity in
       case stmt e 0 (Inr ()) of Inl err \<Rightarrow> (Inl err, d) | Inr _ \<Rightarrow>
      (case stmt e 1 (sql_claim_key e d key userID fp) of
         Inl err \<Rightarrow> (Inl (WrapError ''claim idempotency key'' err), d)
       | Inr None \<Rightarrow> replayReservation e d key userID fp
       | Inr (Some d1) \<Rightarrow>
      (case stmt e 2 (Inr ()) of Inl err \<Rightarrow> (Inl err, d) | Inr _ \<Rightarrow>
      (case stmt e 3 (query_row (sql_sale_product d1 saleID)) of
         Inl err \<Rightarrow> finishReservationError e d (if is_NoRows err then Some d1 else None) key
           (domainError (notFound err) ''SALE_NOT_FOUND'' ''Flash sale was not found'' 404)
       | Inr (sale, p) \<Rightarrow> reserve_take s e d d1 saleID userID quantity key sale p))))"

section \<open>Reading and moving a reservation\<close>

definition sql_get_reservation :: "db \<Rightarrow> string \<Rightarrow> Reservation option" where
  "sql_get_reservation d rid =
    (case find (\<lambda>r. reservations_id r = rid) (reservations d) of
       None \<Rightarrow> None
     | Some r \<Rightarrow> (case find (\<lambda>x. orders_reservation_id x = reservations_id r) (orders d) of
           None \<Rightarrow> None
         | Some x \<Rightarrow> Some (reservation_of_row (orders_id x) r)))"

definition GetReservation :: "env \<Rightarrow> nat \<Rightarrow> db \<Rightarrow> string \<Rightarrow> go_error + Reservation" where
  "GetReservation e n d rid = map_sum notFound id (stmt e n (query_row (sql_get_reservation d rid)))"

definition sql_set_reservation_state ::
  "int \<Rightarrow> db \<Rightarrow> string \<Rightarrow> ReservationState \<Rightarrow> go_error + (db \<times> nat)" where
  "sql_set_reservation_state t d rid st = update_reservations d (\<lambda>r. reservations_id r = rid)
     (\<lambda>r. r\<lparr>reservations_state := st, reservations_updated_at := t\<rparr>)"

definition sql_set_order_state_of_reservation ::
  "int \<Rightarrow> db \<Rightarrow> string \<Rightarrow> OrderState \<Rightarrow> go_error + (db \<times> nat)" where
  "sql_set_order_state_of_reservation t d rid st = update_orders d (\<lambda>x. orders_reservation_id x = rid)
     (\<lambda>x. x\<lparr>orders_state := st, orders_updated_at := t\<rparr>)"

definition sql_release_inventory :: "int \<Rightarrow> db \<Rightarrow> string \<Rightarrow> int \<Rightarrow> go_error + (db \<times> nat)" where
  "sql_release_inventory t d productID quantity = update_inventory d
     (\<lambda>i. inventory_product_id i = productID \<and> quantity \<le> inventory_reserved i)
     (\<lambda>i. i\<lparr>inventory_available := inventory_available i + quantity,
        inventory_reserved := inventory_reserved i - quantity, inventory_updated_at := t\<rparr>)"

definition sql_release_sale_stock :: "int \<Rightarrow> db \<Rightarrow> string \<Rightarrow> int \<Rightarrow> go_error + (db \<times> nat)" where
  "sql_release_sale_stock t d saleID quantity = update_flash_sales d (\<lambda>s. flash_sales_id s = saleID)
     (\<lambda>s. s\<lparr>flash_sales_remaining_stock := flash_sales_remaining_stock s + quantity,
        flash_sales_updated_at := t\<rparr>)"

text \<open>
  Round trips of \<open>TransitionReservation\<close>: 0 BEGIN, 1 read and lock the row, 2 its state, 3 the
  order's state, 4 and 5 the two counters (cancellation only), 6 event, 7 COMMIT, 8 read back.
\<close>

definition transition_release :: "env \<Rightarrow> db \<Rightarrow> reservations_row \<Rightarrow> ReservationState \<Rightarrow> go_error + db" where
  "transition_release e d r target =
    (if target = ReservationCancelled then
      (case stmt e 4 (sql_release_inventory (db_now e) d (reservations_product_id r)
            (reservations_quantity r)) of
         Inl err \<Rightarrow> Inl err
       | Inr (d1, n) \<Rightarrow>
      (case stmt e 5 (sql_release_sale_stock (db_now e) d1 (reservations_sale_id r)
            (reservations_quantity r)) of
         Inl err \<Rightarrow> Inl err
       | Inr (d2, m) \<Rightarrow> Inr d2))
     else Inr d)"

definition TransitionReservation ::
  "env \<Rightarrow> db \<Rightarrow> string \<Rightarrow> ReservationState \<Rightarrow> Reservation outcome" where
  "TransitionReservation e d rid target =
    (case stmt e 0 (Inr ()) of Inl err \<Rightarrow> (Inl err, d) | Inr _ \<Rightarrow>
    (case stmt e 1 (query_row (find (\<lambda>r. reservations_id r = rid) (reservations d))) of
       Inl err \<Rightarrow> (Inl (notFound err), d)
     | Inr r \<Rightarrow>
    (case ValidateReservationTransition (reservations_state r) target of
       Some err \<Rightarrow> (Inl (domain_error ''INVALID_STATE_TRANSITION''
           (''invalid reservation transition '' @ ReservationState_string (reservations_state r)
              @ '' -> '' @ ReservationState_string target) 409), d)
     | None \<Rightarrow>
    (case stmt e 2 (sql_set_reservation_state (db_now e) d rid target) of
       Inl err \<Rightarrow> (Inl err, d)
     | Inr (d1, n1) \<Rightarrow>
    (case stmt e 3 (sql_set_order_state_of_reservation (db_now e) d1 rid (order_state_of target)) of
       Inl err \<Rightarrow> (Inl err, d)
     | Inr (d2, n2) \<Rightarrow>
    (case transition_release e d2 r target of
       Inl err \<Rightarrow> (Inl err, d)
     | Inr d3 \<Rightarrow>
    (case event e 6 0 d3 ''reservation'' rid (''reservation.'' @ ReservationState_string target)
            (ReservationState_string (reservations_state r)) (ReservationState_string target) MetaNull of
       Inl err \<Rightarrow> (Inl err, d)
     | Inr d4 \<Rightarrow>
    (case commit e 7 d d4 (Inr ()) of
       (Inl err, d5) \<Rightarrow> (Inl err, d5)
     | (Inr _, d5) \<Rightarrow> (GetReservation e 8 d5 rid, d5)))))))))"

section \<open>Statements and the ledger\<close>

lemma take_sale_ledger:
  assumes l: "ledger es fs hs gs d"
    and u: "sql_take_sale_stock e d (reservations_sale_id x) (reservations_quantity x) = Inr (d1, n)"
    and n: "n \<noteq> 0"
  shows "ledger es (x # fs) hs gs d1"
proof -
  note sc = ledgerD(1) [OF l] and eq = u [unfolded sql_take_sale_stock_def]
  have d1: "d1 = d\<lparr>flash_sales := update_where (\<lambda>s. flash_sales_id s = reservations_sale_id x)
      (\<lambda>s. s\<lparr>flash_sales_remaining_stock := flash_sales_remaining_stock s - reservations_quantity x,
         flash_sales_updated_at := db_now e\<rparr>) (flash_sales d)\<rparr>"
    using eq n by (clarsimp simp: update_flash_sales_Inr guarded_hit [OF keysD(3) [OF sc]])
  have "schema_ok d1"
    by (rule schema_update_flash_sales [OF sc eq]) simp_all
  moreover have "allocated (x # fs) d1"
    using ledgerD(5) [OF l] unfolding d1 allocated_def by (auto simp: ball_update_where)
  moreover have "tied d1" using ledgerD(3) [OF l] unfolding d1 tied_def by (simp add: bex_update_kept)
  moreover have "limited d1" using ledgerD(6) [OF l] unfolding d1 limited_def by (simp add: ball_update_kept)
  ultimately show ?thesis using l by (simp add: ledger_def d1)
qed

lemma take_sale_none:
  "sql_take_sale_stock e d sid q = Inr (d1, 0) \<Longrightarrow> d1 = d"
  by (simp add: sql_take_sale_stock_def update_flash_sales_Inr guarded_miss)

lemma take_inventory_ledger:
  assumes l: "ledger es fs hs gs d"
    and u: "sql_take_inventory e d (reservations_product_id x) (reservations_quantity x) = Inr (d1, n)"
    and n: "n \<noteq> 0"
  shows "ledger (x # es) fs hs gs d1"
proof -
  note sc = ledgerD(1) [OF l] and eq = u [unfolded sql_take_inventory_def]
  have d1: "d1 = d\<lparr>inventory := update_where (\<lambda>i. inventory_product_id i = reservations_product_id x)
      (\<lambda>i. i\<lparr>inventory_available := inventory_available i - reservations_quantity x,
         inventory_reserved := inventory_reserved i + reservations_quantity x,
         inventory_updated_at := db_now e\<rparr>) (inventory d)\<rparr>"
    using eq n by (clarsimp simp: update_inventory_Inr guarded_hit [OF keysD(2) [OF sc]])
  have "schema_ok d1"
    by (rule schema_update_inventory [OF sc eq]) simp_all
  moreover have "balanced (x # es) d1"
    using ledgerD(4) [OF l] unfolding d1 balanced_def by (auto simp: ball_update_where)
  moreover have "stocked d1" using ledgerD(2) [OF l] unfolding d1 stocked_def by (simp add: image_update_kept)
  ultimately show ?thesis using l by (simp add: ledger_def d1)
qed

lemma take_inventory_none:
  "sql_take_inventory e d pid q = Inr (d1, 0) \<Longrightarrow> d1 = d"
  by (simp add: sql_take_inventory_def update_inventory_Inr guarded_miss)

lemma insert_reservation_ledger:
  assumes l: "ledger (x # es) (x # fs) hs gs d" and u: "insert_reservations d x = Inr d1"
    and st: "reservations_state x = ReservationPending"
    and tie: "\<exists>s \<in> set (flash_sales d). flash_sales_id s = reservations_sale_id x
        \<and> flash_sales_product_id s = reservations_product_id x"
    and lim: "\<And>s. s \<in> set (flash_sales d) \<Longrightarrow> flash_sales_id s = reservations_sale_id x \<Longrightarrow>
        user_units (reservations d) (reservations_sale_id x) (reservations_user_id x)
          + reservations_quantity x \<le> flash_sales_max_quantity_per_user s"
  shows "ledger es fs (x # hs) gs d1"
proof -
  have d1: "d1 = d\<lparr>reservations := reservations d @ [x]\<rparr>"
    and new: "reservations_id x \<notin> reservations_id ` set (reservations d)"
    using u by (auto simp: insert_reservations_def split: if_splits)
  have none: "orders_reservation_id y \<noteq> reservations_id x" if "y \<in> set (orders d)" for y
    using refsD(5) [OF ledgerD(1) [OF l] that] new by auto
  have "schema_ok d1" by (rule schema_insert_reservations [OF ledgerD(1) [OF l] u])
  moreover have "balanced es d1"
    using ledgerD(4) [OF l] st unfolding d1 balanced_def by (auto simp: held_state_def)
  moreover have "allocated fs d1"
    using ledgerD(5) [OF l] st unfolding d1 allocated_def by (auto simp: active_state_def)
  moreover have "limited d1"
    using ledgerD(6) [OF l] st lim unfolding d1 limited_def by (auto simp: active_state_def)
  moreover have "tied d1" using ledgerD(3) [OF l] tie unfolding d1 tied_def by simp
  moreover have "ordered (x # hs) d1" using ledgerD(7) [OF l] unfolding d1 ordered_def by auto
  moreover have "followed gs d1" using ledgerD(8) [OF l] none unfolding d1 followed_def by auto
  moreover have "receipts d1" using ledgerD(9) [OF l] none unfolding d1 receipts_def by (auto; metis)
  ultimately show ?thesis using l by (simp add: ledger_def d1)
qed

lemma insert_order_ledger:
  assumes l: "ledger es fs (x # hs) gs d" and u: "insert_orders d y = Inr d1"
    and x: "x \<in> set (reservations d)" and ag: "order_agrees x y"
    and fl: "order_follows (reservations_state x) (orders_state y)"
  shows "ledger es fs hs gs d1"
proof -
  have d1: "d1 = d\<lparr>orders := orders d @ [y]\<rparr>"
    and new: "orders_id y \<notin> orders_id ` set (orders d)"
    using u by (auto simp: insert_orders_def split: if_splits)
  note key = distinct_key_eq [OF keysD(4) [OF ledgerD(1) [OF l]]]
  have only: "r = x" if "r \<in> set (reservations d)" "reservations_id r = orders_reservation_id y" for r
    using key [OF that(1) x] that ag by (simp add: order_agrees_def)
  have unpaid: "payments_order_id p \<noteq> orders_id y" if "p \<in> set (payments d)" for p
    using refsD(6) [OF ledgerD(1) [OF l] that] new by auto
  have "schema_ok d1" by (rule schema_insert_orders [OF ledgerD(1) [OF l] u])
  moreover have "ordered hs d1"
    using ledgerD(7) [OF l] ag only unfolding d1 ordered_def by (auto simp: order_agrees_def)
  moreover have "followed gs d1"
    using ledgerD(8) [OF l] fl only unfolding d1 followed_def by auto
  moreover have "receipts d1" using ledgerD(9) [OF l] unpaid unfolding d1 receipts_def by (auto; metis)
  ultimately show ?thesis using l by (simp add: ledger_def d1)
qed

lemma event_ledger:
  assumes "ledger es fs hs gs d" and "event e n k d at ai et p nx m = Inr d1"
  shows "ledger es fs hs gs d1"
proof -
  have "schema_ok d1" using assms
    by (auto simp: event_def ledger_def split: sum.splits elim: schema_insert_domain_events)
  then show ?thesis using assms by (auto simp: event_Inr ledger_def)
qed


section \<open>Giving units back\<close>

text \<open>
  Marking pending reservations \<open>cs\<close> as cancelled or expired moves their units from the counts
  to what is owed.
\<close>

lemma mark_sum:
  assumes "distinct (map reservations_id rs)" "distinct (map reservations_id cs)" "set cs \<subseteq> set rs"
    and "\<And>r. r \<in> set rs \<Longrightarrow> P r \<longleftrightarrow> reservations_id r \<in> reservations_id ` set cs"
    and no: "\<And>r. \<not> Q (f r)"
  shows "sum_where q Q (update_where P f rs) = sum_where q Q rs - sum_where q Q cs"
proof -
  have m: "mset (filter P rs) = mset cs" by (rule filter_key_set [OF assms(1-4)])
  have "sum_where q Q (map f (filter P rs)) = 0" by (rule sum_where_zero) (use no in auto)
  then show ?thesis using sum_where_mset [OF m, of q Q] by (simp add: sum_where_update)
qed

lemma mark_units:
  fixes st :: ReservationState and t :: int and f :: "reservations_row \<Rightarrow> reservations_row"
  defines "f \<equiv> (\<lambda>r. r\<lparr>reservations_state := st, reservations_updated_at := t\<rparr>)"
  assumes cs: "distinct (map reservations_id rs)" "distinct (map reservations_id cs)" "set cs \<subseteq> set rs"
      "\<And>r. r \<in> set rs \<Longrightarrow> P r \<longleftrightarrow> reservations_id r \<in> reservations_id ` set cs"
    and pending: "\<And>r. r \<in> set cs \<Longrightarrow> reservations_state r = ReservationPending"
    and pos: "\<And>r. r \<in> set cs \<Longrightarrow> 0 \<le> reservations_quantity r"
    and st: "st = ReservationCancelled \<or> st = ReservationExpired"
  shows "held_units (update_where P f rs) pid = held_units rs pid - owed_product cs pid"
    "paid_units (update_where P f rs) pid = paid_units rs pid"
    "active_units (update_where P f rs) sid = active_units rs sid - owed_sale cs sid"
    "user_units (update_where P f rs) sid v \<le> user_units rs sid v"
proof -
  have in_cs: "sum_where reservations_quantity (\<lambda>r. A r \<and> B (reservations_state r)) cs
      = sum_where reservations_quantity A cs" if "B ReservationPending" for A B
    by (rule sum_where_cong) (use pending that in auto)
  have pst: "held_state ReservationPending" "active_state ReservationPending"
    by (simp_all add: held_state_def active_state_def)
  have nst: "\<not> held_state (reservations_state (f r))" "\<not> active_state (reservations_state (f r))"
      "reservations_state (f r) \<noteq> ReservationPaid" for r
    using st by (auto simp: f_def held_state_def active_state_def)
  note sum = mark_sum [OF cs]
  show "held_units (update_where P f rs) pid = held_units rs pid - owed_product cs pid"
    unfolding held_units_def by (simp add: sum nst in_cs [of held_state, OF pst(1)])
  show "paid_units (update_where P f rs) pid = paid_units rs pid"
    unfolding paid_units_def by (simp add: sum nst sum_where_zero pending)
  show "active_units (update_where P f rs) sid = active_units rs sid - owed_sale cs sid"
    unfolding active_units_def by (simp add: sum nst in_cs [of active_state, OF pst(2)])
  show "user_units (update_where P f rs) sid v \<le> user_units rs sid v"
    using sum_where_nonneg [of cs reservations_quantity, OF pos]
    unfolding user_units_def by (simp add: sum nst)
qed

lemma mark_ledger:
  assumes l: "ledger es fs hs gs d"
    and cs: "distinct (map reservations_id cs)" "set cs \<subseteq> set (reservations d)"
      "\<And>r. r \<in> set cs \<Longrightarrow> reservations_state r = ReservationPending"
    and st: "st = ReservationCancelled \<or> st = ReservationExpired"
    and P: "\<And>r. r \<in> set (reservations d) \<Longrightarrow> P r \<longleftrightarrow> reservations_id r \<in> reservations_id ` set cs"
    and u: "update_reservations d P (\<lambda>r. r\<lparr>reservations_state := st, reservations_updated_at := t\<rparr>) = Inr (d1, n)"
  shows "ledger (cs @ es) (cs @ fs) hs (cs @ gs) d1"
proof -
  note sc = ledgerD(1) [OF l]
  have d1: "d1 = d\<lparr>reservations := update_where P
      (\<lambda>r. r\<lparr>reservations_state := st, reservations_updated_at := t\<rparr>) (reservations d)\<rparr>"
    using u by (simp add: update_reservations_Inr)
  have pos: "0 \<le> reservations_quantity r" if "r \<in> set cs" for r
    using schema_qty [OF sc, of r] that cs(2) by auto
  have unpaid: "reservations_state r \<noteq> ReservationPaid" if r: "r \<in> set (reservations d)" "P r" for r
  proof -
    obtain c where c: "c \<in> set cs" "reservations_id r = reservations_id c" using P r by blast
    then have "r = c" using distinct_key_eq [OF keysD(4) [OF sc] r(1)] cs(2) by blast
    then show ?thesis using cs(3) [OF c(1)] by simp
  qed
  note units = mark_units [OF keysD(4) [OF sc] cs(1,2) P cs(3) pos st, where t = t]
  have "schema_ok d1" by (rule schema_update_reservations [OF sc u]) simp_all
  moreover have "balanced (cs @ es) d1"
    using ledgerD(4) [OF l] units(1,2) by (simp add: balanced_def d1)
  moreover have "allocated (cs @ fs) d1"
    using ledgerD(5) [OF l] by (simp add: allocated_def d1 units(3) add.assoc)
  moreover have "limited d1"
    using ledgerD(6) [OF l] units(4) order_trans by (fastforce simp: limited_def d1)
  moreover have "tied d1" using ledgerD(3) [OF l] by (simp add: d1 tied_def ball_update_kept)
  moreover have "ordered hs d1"
    using ledgerD(7) [OF l] by (simp add: d1 ordered_def order_agrees_def ball_update_kept)
  moreover have "followed (cs @ gs) d1"
    using ledgerD(8) [OF l] P by (auto simp: d1 followed_def ball_update_where)
  moreover have "receipts d1"
    using ledgerD(9) [OF l] unpaid unfolding d1 receipts_def by (auto simp: ball_update_where)
  ultimately show ?thesis using l by (simp add: ledger_def d1)
qed


lemma inventory_row_of:
  assumes "stocked d" and "pid \<in> products_id ` set (products d)"
  obtains i where "i \<in> set (inventory d)" "inventory_product_id i = pid"
proof -
  have "pid \<in> inventory_product_id ` set (inventory d)" using assms unfolding stocked_def by blast
  then show thesis using that by blast
qed

lemma owed_nonneg: "(\<And>y. y \<in> set es \<Longrightarrow> 0 \<le> reservations_quantity y) \<Longrightarrow> 0 \<le> sum_where reservations_quantity Q es"
  by (rule sum_where_nonneg)

text \<open>
  The counters cover what is owed, so a release never finds too little reserved and never overflows: the statement
  succeeds and affects exactly one row.
\<close>

lemma reserved_covers:
  assumes l: "ledger (x # es) fs hs gs d" and i: "i \<in> set (inventory d)"
      "inventory_product_id i = reservations_product_id x"
    and pos: "\<And>y. y \<in> set es \<Longrightarrow> 0 \<le> reservations_quantity y"
  shows "reservations_quantity x \<le> inventory_reserved i"
proof -
  have "0 \<le> held_units (reservations d) (inventory_product_id i)"
    by (rule units_nonneg [OF ledgerD(1) [OF l]])
  moreover have "0 \<le> owed_product es (inventory_product_id i)" by (rule owed_nonneg) (rule pos)
  ultimately show ?thesis using ledgerD(4) [OF l] i by (auto simp: balanced_def)
qed

lemma inventory_checkD:
  "schema_ok d \<Longrightarrow> i \<in> set (inventory d) \<Longrightarrow> inventory_check i"
  by (simp add: schema_defs list_all_iff)

lemma flash_sales_checkD:
  "schema_ok d \<Longrightarrow> s \<in> set (flash_sales d) \<Longrightarrow> flash_sales_check s"
  by (simp add: schema_defs list_all_iff)

lemma release_inventory_ledger:
  assumes l: "ledger (x # es) fs hs gs d" and q: "0 \<le> reservations_quantity x"
    and pos: "\<And>y. y \<in> set es \<Longrightarrow> 0 \<le> reservations_quantity y"
    and p: "reservations_product_id x \<in> products_id ` set (products d)"
  obtains rows where
    "sql_release_inventory t d (reservations_product_id x) (reservations_quantity x) = Inr (d\<lparr>inventory := rows\<rparr>, 1)"
    "ledger es fs hs gs (d\<lparr>inventory := rows\<rparr>)"
proof -
  let ?f = "\<lambda>i. i\<lparr>inventory_available := inventory_available i + reservations_quantity x,
     inventory_reserved := inventory_reserved i - reservations_quantity x, inventory_updated_at := t\<rparr>"
  let ?Q = "\<lambda>i. reservations_quantity x \<le> inventory_reserved i"
  let ?rows = "update_where (\<lambda>i. inventory_product_id i = reservations_product_id x) ?f (inventory d)"
  note sc = ledgerD(1) [OF l] and bal = ledgerD(4) [OF l]
  obtain i where i: "i \<in> set (inventory d)" "inventory_product_id i = reservations_product_id x"
    by (rule inventory_row_of [OF ledgerD(2) [OF l] p])
  have ok: "inventory_check (?f j)" if "j \<in> set (inventory d)" "?Q j" for j
    using inventory_checkD [OF sc that(1)] that q bal by (auto simp: inventory_check_def balanced_def int4_def)
  have one: "rows_where (\<lambda>i. inventory_product_id i = reservations_product_id x \<and> ?Q i) (inventory d) = 1"
    using guarded_update [OF keysD(2) [OF sc], of "reservations_product_id x" ?Q ?f] i
      reserved_covers [OF l i pos] by auto
  then have u: "sql_release_inventory t d (reservations_product_id x) (reservations_quantity x)
      = Inr (d\<lparr>inventory := ?rows\<rparr>, 1)"
    using ok guarded_hit [OF keysD(2) [OF sc], of "reservations_product_id x" ?Q ?f]
    by (simp add: sql_release_inventory_def update_inventory_Inr)
  have "schema_ok (d\<lparr>inventory := ?rows\<rparr>)"
    by (rule schema_update_inventory [OF sc u [unfolded sql_release_inventory_def]]) simp_all
  moreover have "balanced es (d\<lparr>inventory := ?rows\<rparr>)"
    using bal by (auto simp: balanced_def ball_update_where)
  moreover have "stocked (d\<lparr>inventory := ?rows\<rparr>)"
    using ledgerD(2) [OF l] by (simp add: stocked_def image_update_kept)
  ultimately show thesis using that [OF u] l by (simp add: ledger_def)
qed

lemma release_sale_ledger:
  assumes l: "ledger es (x # fs) hs gs d" and q: "0 \<le> reservations_quantity x"
    and pos: "\<And>y. y \<in> set fs \<Longrightarrow> 0 \<le> reservations_quantity y"
  obtains rows n where
    "sql_release_sale_stock t d (reservations_sale_id x) (reservations_quantity x) = Inr (d\<lparr>flash_sales := rows\<rparr>, n)"
    "ledger es fs hs gs (d\<lparr>flash_sales := rows\<rparr>)"
proof -
  let ?f = "\<lambda>s. s\<lparr>flash_sales_remaining_stock := flash_sales_remaining_stock s + reservations_quantity x,
     flash_sales_updated_at := t\<rparr>"
  let ?P = "\<lambda>s. flash_sales_id s = reservations_sale_id x"
  let ?rows = "update_where ?P ?f (flash_sales d)"
  note sc = ledgerD(1) [OF l] and al = ledgerD(5) [OF l]
  have ok: "flash_sales_check (?f s)" if "s \<in> set (flash_sales d)" "?P s" for s
  proof -
    have "0 \<le> active_units (reservations d) (flash_sales_id s)" by (rule units_nonneg [OF sc])
    moreover have "0 \<le> owed_sale fs (flash_sales_id s)" by (rule owed_nonneg) (rule pos)
    ultimately have "flash_sales_remaining_stock s + reservations_quantity x \<le> flash_sales_allocated_stock s"
      using al that by (auto simp: allocated_def)
    then show ?thesis
      using flash_sales_checkD [OF sc that(1)] q by (auto simp: flash_sales_check_def int4_def)
  qed
  then have u: "sql_release_sale_stock t d (reservations_sale_id x) (reservations_quantity x)
      = Inr (d\<lparr>flash_sales := ?rows\<rparr>, rows_where ?P (flash_sales d))"
    by (simp add: sql_release_sale_stock_def update_flash_sales_Inr)
  have "schema_ok (d\<lparr>flash_sales := ?rows\<rparr>)"
    by (rule schema_update_flash_sales [OF sc u [unfolded sql_release_sale_stock_def]]) simp_all
  moreover have "allocated fs (d\<lparr>flash_sales := ?rows\<rparr>)"
    using al by (auto simp: allocated_def ball_update_where)
  moreover have "tied (d\<lparr>flash_sales := ?rows\<rparr>)"
    using ledgerD(3) [OF l] by (simp add: tied_def bex_update_kept)
  moreover have "limited (d\<lparr>flash_sales := ?rows\<rparr>)"
    using ledgerD(6) [OF l] by (simp add: limited_def ball_update_kept)
  ultimately show thesis using that [OF u] l by (simp add: ledger_def)
qed

lemma orders_checkD: "schema_ok d \<Longrightarrow> x \<in> set (orders d) \<Longrightarrow> orders_check x"
  by (simp add: schema_defs list_all_iff)

lemma order_state_ledger:
  assumes l: "ledger es fs hs (x # gs) d"
    and st: "\<And>r. r \<in> set (reservations d) \<Longrightarrow> reservations_id r = reservations_id x \<Longrightarrow>
        order_follows (reservations_state r) st"
  obtains rows n where
    "sql_set_order_state_of_reservation t d (reservations_id x) st = Inr (d\<lparr>orders := rows\<rparr>, n)"
    "ledger es fs hs gs (d\<lparr>orders := rows\<rparr>)"
proof -
  let ?f = "\<lambda>y. y\<lparr>orders_state := st, orders_updated_at := t\<rparr>"
  let ?P = "\<lambda>y. orders_reservation_id y = reservations_id x"
  let ?rows = "update_where ?P ?f (orders d)"
  note sc = ledgerD(1) [OF l]
  have u: "sql_set_order_state_of_reservation t d (reservations_id x) st
      = Inr (d\<lparr>orders := ?rows\<rparr>, rows_where ?P (orders d))"
    using orders_checkD [OF sc]
    by (simp add: sql_set_order_state_of_reservation_def update_orders_Inr orders_check_def)
  have "schema_ok (d\<lparr>orders := ?rows\<rparr>)"
    by (rule schema_update_orders [OF sc u [unfolded sql_set_order_state_of_reservation_def]]) simp_all
  moreover have "ordered hs (d\<lparr>orders := ?rows\<rparr>)"
    using ledgerD(7) [OF l] by (simp add: ordered_def order_agrees_def bex_update_kept)
  moreover have "followed gs (d\<lparr>orders := ?rows\<rparr>)"
    using ledgerD(8) [OF l] st by (auto simp: followed_def ball_update_where)
  moreover have "receipts (d\<lparr>orders := ?rows\<rparr>)"
    using ledgerD(9) [OF l] by (simp add: receipts_def ball_update_kept)
  ultimately show thesis using that [OF u] l by (simp add: ledger_def)
qed

end
