(* ===== verification/Booking.thy ===== *)
theory Booking
  imports Reservation
begin

text \<open>
  What \<open>Reserve\<close> and \<open>TransitionReservation\<close> (\<open>src/internal/store/reservation.go\<close>) keep: each is
  taken apart into its ways to end (\<open>..._cases\<close>), and on every one of them, whatever round trip fails, the
  committed database is good again. Shared with payments and expiration: moving one reservation
  to a new state (\<open>restated\<close>).
\<close>

section \<open>Stored responses\<close>

lemma weaken_allocated:
  assumes l: "ledger es (x # fs) hs gs d" and q: "0 \<le> reservations_quantity x"
  shows "ledger es fs hs gs d"
proof -
  have "allocated fs d"
    unfolding allocated_def
  proof
    fix s assume "s \<in> set (flash_sales d)"
    with ledgerD(5) [OF l] have "flash_sales_remaining_stock s + active_units (reservations d) (flash_sales_id s)
        + owed_sale (x # fs) (flash_sales_id s) \<le> flash_sales_allocated_stock s"
      by (simp only: allocated_def)
    then show "flash_sales_remaining_stock s + active_units (reservations d) (flash_sales_id s)
        + owed_sale fs (flash_sales_id s) \<le> flash_sales_allocated_stock s"
      using q by (simp split: if_splits)
  qed
  then show ?thesis using l by (simp add: ledger_def)
qed

lemma keys_ledger:
  assumes "ledger es fs hs gs d" and "schema_ok (d\<lparr>idempotency_keys := rows\<rparr>)"
  shows "ledger es fs hs gs (d\<lparr>idempotency_keys := rows\<rparr>)"
  using assms by (simp add: ledger_def)

lemma response_backed_mono:
  assumes "response_backed d k"
    and "\<And>r. r \<in> set (reservations d) \<Longrightarrow> \<exists>r' \<in> set (reservations d'). reservations_id r' = reservations_id r
        \<and> reservations_user_id r' = reservations_user_id r"
  shows "response_backed d' k"
  using assms unfolding response_backed_def by (metis (no_types, opaque_lifting))

lemma answered_mono:
  assumes "answered K d" and "idempotency_keys d' = idempotency_keys d"
    and "\<And>r. r \<in> set (reservations d) \<Longrightarrow> \<exists>r' \<in> set (reservations d'). reservations_id r' = reservations_id r
        \<and> reservations_user_id r' = reservations_user_id r"
  shows "answered K d'"
  using assms response_backed_mono [of d _ d'] unfolding answered_def by auto

lemma claim_Some:
  "sql_claim_key e d key u fp = Inr (Some d1) \<longleftrightarrow> key \<notin> idempotency_keys_key ` set (idempotency_keys d)
     \<and> d1 = d\<lparr>idempotency_keys := idempotency_keys d @ [new_key e key u fp]\<rparr>"
  by (auto simp: sql_claim_key_def insert_idempotency_keys_def new_key_def)

lemma new_key_sel [simp]:
  "idempotency_keys_key (new_key e key u fp) = key"
  "idempotency_keys_scope (new_key e key u fp) = ''reservation''"
  "idempotency_keys_user_id (new_key e key u fp) = u"
  "idempotency_keys_request_fingerprint (new_key e key u fp) = fp"
  by (simp_all add: new_key_def)

lemma claim_good:
  assumes g: "good d" and c: "sql_claim_key e d key u fp = Inr (Some d1)"
  shows "ledger [] [] [] [] d1" "answered {key} d1"
proof -
  have d1: "d1 = d\<lparr>idempotency_keys := idempotency_keys d @ [new_key e key u fp]\<rparr>"
    using c by (simp add: claim_Some)
  have "schema_ok d1" using g
    by (intro schema_insert_idempotency_keys [OF _ c [unfolded sql_claim_key_def]]) (simp add: good_def ledger_def)
  then show "ledger [] [] [] [] d1"
    using g unfolding d1 good_def by (intro keys_ledger) simp_all
  show "answered {key} d1"
    using g by (auto simp: d1 good_def answered_def response_backed_def)
qed

text \<open>Storing the response of the claimed key completes the transaction.\<close>

lemma store_response_good:
  assumes l: "ledger [] [] [] [] d" and a: "answered {key} d"
    and u: "update_idempotency_keys d (\<lambda>k. idempotency_keys_key k = key) f = Inr (d1, n)"
    and f: "\<And>k. idempotency_keys_key (f k) = idempotency_keys_key k"
    and b: "\<And>k. k \<in> set (idempotency_keys d) \<Longrightarrow> idempotency_keys_key k = key \<Longrightarrow> response_backed d (f k)"
  shows "good d1"
proof -
  have d1: "d1 = d\<lparr>idempotency_keys := update_where (\<lambda>k. idempotency_keys_key k = key) f (idempotency_keys d)\<rparr>"
    using u by (simp add: update_idempotency_keys_Inr)
  have "schema_ok d1" by (rule schema_update_idempotency_keys [OF ledgerD(1) [OF l] u f])
  then have "ledger [] [] [] [] d1" using l unfolding d1 by (intro keys_ledger)
  moreover have "answered {} d1"
    using a b unfolding d1 answered_def by (auto simp: ball_update_where response_backed_def)
  ultimately show ?thesis by (simp add: good_def)
qed

lemma finish_error_good:
  assumes g: "good d0" and l: "ledger [] [] [] [] d" and a: "answered {key} d"
    and k: "\<And>k. k \<in> set (idempotency_keys d) \<Longrightarrow> idempotency_keys_key k = key \<Longrightarrow>
        idempotency_keys_scope k = ''reservation''"
    and c: "Error_Code de \<noteq> ''''"
  shows "good (snd (finishReservationError e d0 (Some d) key de))"
proof -
  have "good d1" if "sql_store_error d key (Error_HTTPStatus de) \<lparr>Response_ErrorCode = Error_Code de,
      Response_Message = Error_Message de, Response_Result = None\<rparr> = Inr (d1, n)" for d1 n
    by (rule store_response_good [OF l a that [unfolded sql_store_error_def]])
      (use c k in \<open>simp_all add: response_backed_def\<close>)
  then show ?thesis
    using g by (auto simp: finishReservationError_def snd_commit split: sum.splits)
qed

lemma finish_error_aborted [simp]: "snd (finishReservationError e d0 None key de) = d0"
  by (simp add: finishReservationError_def)

section \<open>Reserve, case by case\<close>

abbreviation reserved_row :: "Store \<Rightarrow> env \<Rightarrow> string \<Rightarrow> string \<Rightarrow> int \<Rightarrow> products_row \<Rightarrow> string \<Rightarrow> reservations_row" where
  "reserved_row s e saleID userID quantity p rid \<equiv>
     new_reservation e rid saleID (products_id p) userID quantity (go_now e + ttl s)"

abbreviation reserved_order :: "env \<Rightarrow> string \<Rightarrow> string \<Rightarrow> int \<Rightarrow> products_row \<Rightarrow> string \<Rightarrow> string \<Rightarrow> orders_row" where
  "reserved_order e saleID userID quantity p rid oid \<equiv>
     new_order e oid rid saleID (products_id p) userID quantity
       (wrap64 (products_price_minor p * quantity)) (products_currency p)"

abbreviation reserved_result :: "Store \<Rightarrow> env \<Rightarrow> string \<Rightarrow> string \<Rightarrow> int \<Rightarrow> products_row \<Rightarrow> string \<Rightarrow> string \<Rightarrow> ReservationResult" where
  "reserved_result s e saleID userID quantity p rid oid \<equiv>
     \<lparr>Result_Reservation = reservation_of_row oid (reserved_row s e saleID userID quantity p rid),
      Result_Duplicate = False\<rparr>"

lemma reserve_record_cases:
  assumes "reserve_record s e d0 d saleID u q key p = (res, d')"
  obtains (abort) err where "res = Inl err" "d' = d0"
  | (recorded) rid oid d1 d2 d3 n where "NewID (rand e 0) = Inr rid" "NewID (rand e 1) = Inr oid"
      "insert_reservations d (reserved_row s e saleID u q p rid) = Inr d1"
      "insert_orders d1 (reserved_order e saleID u q p rid oid) = Inr d2"
      "event e 9 2 d2 ''reservation'' rid ''reservation.created'' '''' ''pending'' (MetaInt ''quantity'' q) = Inr d3"
      "sql_store_success d3 key rid \<lparr>Response_ErrorCode = '''', Response_Message = '''',
         Response_Result = Some (reserved_result s e saleID u q p rid oid)\<rparr> = Inr (d', n)"
      "res = Inr (reserved_result s e saleID u q p rid oid) \<or> res = Inl (OtherError ''commit'')"
  using assms unfolding reserve_record_def Let_def
  by (auto simp: commit_def split: sum.splits fault.splits prod.splits)

lemma new_reservation_sel [simp]:
  "reservations_id (new_reservation e rid sid pid u q t) = rid"
  "reservations_sale_id (new_reservation e rid sid pid u q t) = sid"
  "reservations_product_id (new_reservation e rid sid pid u q t) = pid"
  "reservations_user_id (new_reservation e rid sid pid u q t) = u"
  "reservations_quantity (new_reservation e rid sid pid u q t) = q"
  "reservations_state (new_reservation e rid sid pid u q t) = ReservationPending"
  "reservations_expires_at (new_reservation e rid sid pid u q t) = t"
  by (simp_all add: new_reservation_def)

lemma new_order_sel [simp]:
  "orders_id (new_order e oid rid sid pid u q a c) = oid"
  "orders_reservation_id (new_order e oid rid sid pid u q a c) = rid"
  "orders_state (new_order e oid rid sid pid u q a c) = OrderPending"
  "orders_amount_minor (new_order e oid rid sid pid u q a c) = a"
  "order_agrees (new_reservation e rid sid pid u q t) (new_order e oid rid sid pid u q a c)"
  by (simp_all add: new_order_def order_agrees_def)

lemma insert_reservations_Inr:
  "insert_reservations d r = Inr d1 \<Longrightarrow> d1 = d\<lparr>reservations := reservations d @ [r]\<rparr>"
  by (simp add: insert_reservations_def split: if_splits)

lemma insert_orders_Inr: "insert_orders d x = Inr d1 \<Longrightarrow> d1 = d\<lparr>orders := orders d @ [x]\<rparr>"
  by (simp add: insert_orders_def split: if_splits)

lemma reserve_record_good:
  assumes g: "good d0" and l: "\<And>rid. ledger [reserved_row s e saleID u q p rid] [reserved_row s e saleID u q p rid] [] [] d"
    and a: "answered {key} d"
    and k: "\<And>k. k \<in> set (idempotency_keys d) \<Longrightarrow> idempotency_keys_key k = key \<Longrightarrow>
        idempotency_keys_scope k = ''reservation'' \<and> idempotency_keys_user_id k = u"
    and tie: "\<exists>sl \<in> set (flash_sales d). flash_sales_id sl = saleID \<and> flash_sales_product_id sl = products_id p"
    and lim: "\<And>sl. sl \<in> set (flash_sales d) \<Longrightarrow> flash_sales_id sl = saleID \<Longrightarrow>
        user_units (reservations d) saleID u + q \<le> flash_sales_max_quantity_per_user sl"
  shows "good (snd (reserve_record s e d0 d saleID u q key p))"
proof (cases "reserve_record s e d0 d saleID u q key p")
  case (Pair res d')
  from Pair show ?thesis
  proof (cases rule: reserve_record_cases)
    case abort
    with Pair g show ?thesis by simp
  next
    case (recorded rid oid d1 d2 d3 n)
    let ?r = "reserved_row s e saleID u q p rid"
    note d1 = insert_reservations_Inr [OF recorded(3)] and d2 = insert_orders_Inr [OF recorded(4)]
    have "ledger [] [] [?r] [] d1"
      by (rule insert_reservation_ledger [OF l recorded(3)]) (use tie lim in simp_all)
    then have "ledger [] [] [] [] d2"
      by (rule insert_order_ledger [OF _ recorded(4)]) (simp_all add: d1 order_follows_def)
    then have l3: "ledger [] [] [] [] d3" by (rule event_ledger [OF _ recorded(5)])
    have d3: "idempotency_keys d3 = idempotency_keys d" "reservations d3 = reservations d @ [?r]"
      using recorded(5) by (auto simp: event_Inr d1 d2)
    have a3: "answered {key} d3" by (rule answered_mono [OF a d3(1)]) (auto simp: d3(2))
    have "good d'"
      by (rule store_response_good [OF l3 a3 recorded(6) [unfolded sql_store_success_def]])
        (use k d3 in \<open>simp_all add: response_backed_def reservation_of_row_def\<close>)
    then show ?thesis using Pair by simp
  qed
qed

lemma refusal_code [simp]:
  "Error_Code \<lparr>Error_Code = c, Error_Message = m, Error_HTTPStatus = h\<rparr> = c" by simp

lemma reserve_take_cases:
  assumes "reserve_take s e d0 d saleID u q key sale p = (res, d')"
  obtains (abort) err where "res = Inl err" "d' = d0"
  | (refuse) code msg where "code \<noteq> ''''" "finishReservationError e d0 (Some d) key
        \<lparr>Error_Code = code, Error_Message = msg, Error_HTTPStatus = 409\<rparr> = (res, d')"
  | (leak) d1 n where "sql_take_sale_stock e d saleID q = Inr (d1, n)" "n \<noteq> 0"
      "sql_take_inventory e d1 (products_id p) q = Inr (d1, 0)"
      "finishReservationError e d0 (Some d1) key \<lparr>Error_Code = ''INVENTORY_SOLD_OUT'',
         Error_Message = ''The requested product is sold out'', Error_HTTPStatus = 409\<rparr> = (res, d')"
  | (take) d1 n d2 m where "sql_take_sale_stock e d saleID q = Inr (d1, n)" "n \<noteq> 0"
      "sql_take_inventory e d1 (products_id p) q = Inr (d2, m)" "m \<noteq> 0"
      "reserve_record s e d0 d2 saleID u q key p = (res, d')"
      "flash_sales_state sale = SaleActive" "flash_sales_starts_at sale \<le> go_now e"
      "go_now e < flash_sales_ends_at sale" "products_active p"
      "wrap64 (sql_existing_quantity d saleID u + q) \<le> flash_sales_max_quantity_per_user sale"
proof -
  show thesis
    using assms unfolding reserve_take_def Let_def
    by (auto intro: that dest: take_sale_none take_inventory_none
        split: if_splits sum.splits prod.splits simp: not_less)
qed

lemma take_sale_frame:
  assumes "sql_take_sale_stock e d sid q = Inr (d1, n)"
  obtains rows where "d1 = d\<lparr>flash_sales := rows\<rparr>"
    "(\<lambda>x. (flash_sales_id x, flash_sales_product_id x, flash_sales_max_quantity_per_user x)) ` set rows
       = (\<lambda>x. (flash_sales_id x, flash_sales_product_id x, flash_sales_max_quantity_per_user x)) ` set (flash_sales d)"
  using assms by (auto simp: sql_take_sale_stock_def update_flash_sales_Inr image_update_kept)

lemma take_inventory_frame:
  assumes "sql_take_inventory e d pid q = Inr (d1, n)"
  obtains rows where "d1 = d\<lparr>inventory := rows\<rparr>"
  using assms by (auto simp: sql_take_inventory_def update_inventory_Inr)

lemma existing_quantity_user_units: "sql_existing_quantity d sid u = user_units (reservations d) sid u"
  by (simp add: sql_existing_quantity_def user_units_def)

text \<open>The sum in the limit check cannot wrap: the buyer's units are already bounded by a 32-bit limit.\<close>

lemma existing_no_wrap:
  assumes l: "ledger es fs hs gs d" and s: "sale \<in> set (flash_sales d)" "flash_sales_id sale = sid"
    and q: "0 < q" "q \<le> 100"
  shows "wrap64 (sql_existing_quantity d sid u + q) = user_units (reservations d) sid u + q"
proof -
  have "0 \<le> user_units (reservations d) sid u" by (rule units_nonneg [OF ledgerD(1) [OF l]])
  moreover have "user_units (reservations d) sid u \<le> flash_sales_max_quantity_per_user sale"
    using ledgerD(6) [OF l] s by (auto simp: limited_def)
  moreover have "int4 (flash_sales_max_quantity_per_user sale)"
    using flash_sales_checkD [OF ledgerD(1) [OF l] s(1)] by (simp add: flash_sales_check_def)
  ultimately have "int8 (sql_existing_quantity d sid u + q)"
    using q by (simp add: int8_def int4_def existing_quantity_user_units)
  then show ?thesis by (simp add: wrap64_id existing_quantity_user_units)
qed

lemma reserve_take_good:
  assumes g: "good d0" and l: "ledger [] [] [] [] d" and a: "answered {key} d"
    and k: "\<And>k. k \<in> set (idempotency_keys d) \<Longrightarrow> idempotency_keys_key k = key \<Longrightarrow>
        idempotency_keys_scope k = ''reservation'' \<and> idempotency_keys_user_id k = u"
    and s: "sale \<in> set (flash_sales d)" "flash_sales_id sale = saleID" "flash_sales_product_id sale = products_id p"
    and q: "0 < q" "q \<le> 100"
  shows "good (snd (reserve_take s e d0 d saleID u q key sale p))"
proof (cases "reserve_take s e d0 d saleID u q key sale p")
  case (Pair res d')
  have sale: "ledger [] [reserved_row s e saleID u q p rid] [] [] d1"
    if "sql_take_sale_stock e d saleID q = Inr (d1, n)" "n \<noteq> 0" for rid d1 n
    by (rule take_sale_ledger [OF l _ that(2)]) (use that(1) in simp)
  from Pair show ?thesis
  proof (cases rule: reserve_take_cases)
    case abort
    with Pair g show ?thesis by simp
  next
    case (refuse code msg)
    then show ?thesis using finish_error_good [OF g l a, of "\<lparr>Error_Code = code, Error_Message = msg,
      Error_HTTPStatus = 409\<rparr>" e] k Pair by simp
  next
    case (leak d1 n)
    obtain rows where d1: "d1 = d\<lparr>flash_sales := rows\<rparr>" by (rule take_sale_frame [OF leak(1)])
    have "ledger [] [] [] [] d1" by (rule weaken_allocated [OF sale [OF leak(1,2)]]) (use q in simp)
    moreover have "answered {key} d1" using a by (simp add: d1)
    ultimately have "good (snd (finishReservationError e d0 (Some d1) key \<lparr>Error_Code = ''INVENTORY_SOLD_OUT'',
        Error_Message = ''The requested product is sold out'', Error_HTTPStatus = 409\<rparr>))"
      by (rule finish_error_good [OF g]) (use k in \<open>simp_all add: d1\<close>)
    then show ?thesis by (simp add: leak(4) Pair)
  next
    case (take d1 n d2 m)
    obtain rows where d1: "d1 = d\<lparr>flash_sales := rows\<rparr>" and rows:
      "(\<lambda>x. (flash_sales_id x, flash_sales_product_id x, flash_sales_max_quantity_per_user x)) ` set rows
       = (\<lambda>x. (flash_sales_id x, flash_sales_product_id x, flash_sales_max_quantity_per_user x)) ` set (flash_sales d)"
      by (rule take_sale_frame [OF take(1)])
    obtain rows2 where d2: "d2 = d1\<lparr>inventory := rows2\<rparr>" by (rule take_inventory_frame [OF take(3)])
    have lim: "user_units (reservations d) saleID u + q \<le> flash_sales_max_quantity_per_user sale"
      using take(10) existing_no_wrap [OF l s(1,2) q] by simp
    have same: "\<exists>y \<in> set (flash_sales d). flash_sales_id y = flash_sales_id x
        \<and> flash_sales_max_quantity_per_user y = flash_sales_max_quantity_per_user x" if "x \<in> set rows" for x
      using rows that by (smt (verit, best) imageE imageI prod.inject)
    have "good (snd (reserve_record s e d0 d2 saleID u q key p))"
    proof (rule reserve_record_good [OF g])
      show "ledger [reserved_row s e saleID u q p rid] [reserved_row s e saleID u q p rid] [] [] d2" for rid
        by (rule take_inventory_ledger [OF sale [OF take(1,2)] _ take(4)]) (use take(3) in simp)
      show "answered {key} d2" using a by (simp add: d2 d1)
      show "\<exists>sl \<in> set (flash_sales d2). flash_sales_id sl = saleID \<and> flash_sales_product_id sl = products_id p"
        using s rows by (simp add: d2 d1) (smt (verit, best) imageE imageI prod.inject)
      show "user_units (reservations d2) saleID u + q \<le> flash_sales_max_quantity_per_user sl"
        if "sl \<in> set (flash_sales d2)" "flash_sales_id sl = saleID" for sl
        using same [of sl] that lim s distinct_key_eq [OF keysD(3) [OF ledgerD(1) [OF l]]]
        by (simp add: d2 d1) metis
    qed (use k in \<open>simp add: d2 d1\<close>)
    then show ?thesis using Pair take(5) by simp
  qed
qed

lemma sale_product_Some:
  assumes "schema_ok d" and "sql_sale_product d saleID = Some (sale, p)"
  shows "sale \<in> set (flash_sales d)" "flash_sales_id sale = saleID" "p \<in> set (products d)"
    "flash_sales_product_id sale = products_id p"
  using assms(2) find_Some_iff_key [OF keysD(3) [OF assms(1)]] find_Some_iff_key [OF keysD(1) [OF assms(1)]]
  by (auto simp: sql_sale_product_def split: option.splits)

lemma replay_keeps [simp]: "snd (replayReservation e d key u fp) = d"
  by (simp add: replayReservation_def snd_commit split: sum.split option.split)

lemma Reserve_good:
  assumes g: "good d"
  shows "good (snd (Reserve s e d saleID request))"
proof -
  let ?u = "TrimSpace (Request_UserID request)" and ?key = "TrimSpace (Request_IdempotencyKey request)"
    and ?q = "Request_Quantity request"
  let ?fp = "fingerprint e saleID ?u ?q"
  have claimed: "good (snd (case stmt e 3 (query_row (sql_sale_product d1 saleID)) of
         Inl err \<Rightarrow> finishReservationError e d (if is_NoRows err then Some d1 else None) ?key
           (domainError (notFound err) ''SALE_NOT_FOUND'' ''Flash sale was not found'' 404)
       | Inr (sale, p) \<Rightarrow> reserve_take s e d d1 saleID ?u ?q ?key sale p))"
    if c: "sql_claim_key e d ?key ?u ?fp = Inr (Some d1)" and v: "\<not> request_invalid saleID ?u ?q ?key" for d1
  proof -
    note l = claim_good [OF g c]
    have d1: "?key \<notin> idempotency_keys_key ` set (idempotency_keys d)"
        "d1 = d\<lparr>idempotency_keys := idempotency_keys d @ [new_key e ?key ?u ?fp]\<rparr>"
      using c by (simp_all add: claim_Some)
    have k: "idempotency_keys_scope k = ''reservation'' \<and> idempotency_keys_user_id k = ?u"
      if "k \<in> set (idempotency_keys d1)" "idempotency_keys_key k = ?key" for k
      using that d1(1) by (auto simp: d1(2) image_iff)
    have code: "Error_Code (domainError x ''SALE_NOT_FOUND'' m h) \<noteq> ''''" for x m h
      by (simp add: domainError_def split: option.split)
    have "good (snd (reserve_take s e d d1 saleID ?u ?q ?key sale p))"
      if "sql_sale_product d1 saleID = Some (sale, p)" for sale p
      by (rule reserve_take_good [OF g l k sale_product_Some(1,2,4) [OF ledgerD(1) [OF l(1)] that]])
        (use v in \<open>simp_all add: request_invalid_def\<close>)
    moreover have "good (snd (finishReservationError e d (Some d1) ?key
        (domainError x ''SALE_NOT_FOUND'' m h)))" for x m h
      by (rule finish_error_good [OF g l _ code]) (use k in simp)
    ultimately show ?thesis using g by (auto split: sum.split)
  qed
  show ?thesis
    using g claimed by (auto simp: Reserve_def Let_def simp del: stmt_ok split: sum.split option.split)
qed

section \<open>Moving one reservation\<close>

interpretation restate: keyed_update reservations_id
  "\<lambda>r. r\<lparr>reservations_state := st, reservations_updated_at := t\<rparr>" for st t
  by unfold_locales simp

abbreviation restated :: "ReservationState \<Rightarrow> int \<Rightarrow> string \<Rightarrow> reservations_row list \<Rightarrow> reservations_row list" where
  "restated st t rid rs \<equiv> update_where (\<lambda>r. reservations_id r = rid)
     (\<lambda>r. r\<lparr>reservations_state := st, reservations_updated_at := t\<rparr>) rs"

lemma restated_units:
  assumes "distinct (map reservations_id rs)" and "r \<in> set rs"
  shows "held_units (restated st t (reservations_id r) rs) pid = held_units rs pid
      - (if reservations_product_id r = pid \<and> held_state (reservations_state r) then reservations_quantity r else 0)
      + (if reservations_product_id r = pid \<and> held_state st then reservations_quantity r else 0)"
    "paid_units (restated st t (reservations_id r) rs) pid = paid_units rs pid
      - (if reservations_product_id r = pid \<and> reservations_state r = ReservationPaid then reservations_quantity r else 0)
      + (if reservations_product_id r = pid \<and> st = ReservationPaid then reservations_quantity r else 0)"
    "active_units (restated st t (reservations_id r) rs) sid = active_units rs sid
      - (if reservations_sale_id r = sid \<and> active_state (reservations_state r) then reservations_quantity r else 0)
      + (if reservations_sale_id r = sid \<and> active_state st then reservations_quantity r else 0)"
    "user_units (restated st t (reservations_id r) rs) sid u = user_units rs sid u
      - (if reservations_sale_id r = sid \<and> reservations_user_id r = u \<and> active_state (reservations_state r)
         then reservations_quantity r else 0)
      + (if reservations_sale_id r = sid \<and> reservations_user_id r = u \<and> active_state st
         then reservations_quantity r else 0)"
  unfolding unit_defs
  using restate.sum_update_one [OF assms, of "\<lambda>x. reservations_id x = reservations_id r"]
  by simp_all

lemma set_state_eq:
  assumes "schema_ok d"
  shows "sql_set_reservation_state t d rid st = Inr (d\<lparr>reservations := restated st t rid (reservations d)\<rparr>,
     rows_where (\<lambda>r. reservations_id r = rid) (reservations d))"
  using assms
  by (auto simp: sql_set_reservation_state_def update_reservations_Inr schema_defs list_all_iff reservations_check_def)

lemma restated_schema: "schema_ok d \<Longrightarrow> schema_ok (d\<lparr>reservations := restated st t rid (reservations d)\<rparr>)"
  by (rule schema_update_reservations [OF _ set_state_eq [unfolded sql_set_reservation_state_def]]) simp_all

text \<open>What a change of state of one row leaves alone, whatever the new state.\<close>

lemma restated_frame:
  fixes st :: ReservationState and t :: int and d d1 :: db and r :: reservations_row
  assumes l: "ledger es fs hs gs d" and r: "r \<in> set (reservations d)"
    and np: "reservations_state r \<noteq> ReservationPaid"
  defines "d1 \<equiv> d\<lparr>reservations := restated st t (reservations_id r) (reservations d)\<rparr>"
  shows "schema_ok d1" "stocked d1" "tied d1" "ordered hs d1" "followed (r # gs) d1" "receipts d1"
proof -
  show "schema_ok d1" unfolding d1_def by (rule restated_schema [OF ledgerD(1) [OF l]])
  show "stocked d1" using ledgerD(2) [OF l] by (simp add: d1_def)
  show "tied d1" using ledgerD(3) [OF l] by (simp add: d1_def tied_def ball_update_kept)
  show "ordered hs d1" using ledgerD(7) [OF l] by (simp add: d1_def ordered_def order_agrees_def ball_update_kept)
  show "followed (r # gs) d1" using ledgerD(8) [OF l] by (auto simp: d1_def followed_def ball_update_where)
  have "x = r" if "x \<in> set (reservations d)" "reservations_id x = reservations_id r" for x
    using distinct_key_eq [OF keysD(4) [OF ledgerD(1) [OF l]] that(1) r that(2)] .
  then show "receipts d1"
    using ledgerD(9) [OF l] np by (auto simp: d1_def receipts_def ball_update_where)
qed

lemma confirm_ledger:
  assumes l: "ledger es fs hs gs d" and r: "r \<in> set (reservations d)" "reservations_state r = ReservationPending"
  shows "ledger es fs hs (r # gs) (d\<lparr>reservations := restated ReservationConfirmed t (reservations_id r) (reservations d)\<rparr>)"
proof -
  note units = restated_units [OF keysD(4) [OF ledgerD(1) [OF l]] r(1), where st = ReservationConfirmed and t = t]
  note fr = restated_frame [OF l r(1), where st = ReservationConfirmed and t = t]
  show ?thesis
    using fr ledgerD(4-6) [OF l] r(2) unfolding ledger_def
    by (simp add: balanced_def allocated_def limited_def units held_state_def active_state_def)
qed

lemma release_mark_ledger:
  assumes l: "ledger es fs hs gs d" and r: "r \<in> set (reservations d)" "reservations_state r = ReservationPending"
    and st: "st = ReservationCancelled \<or> st = ReservationExpired"
  shows "ledger (r # es) (r # fs) hs (r # gs) (d\<lparr>reservations := restated st t (reservations_id r) (reservations d)\<rparr>)"
  using mark_ledger [OF l, of "[r]", OF _ _ _ st _ set_state_eq [OF ledgerD(1) [OF l], unfolded sql_set_reservation_state_def]] r
  by simp

lemma restated_answered:
  "answered K d \<Longrightarrow> answered K (d\<lparr>reservations := restated st t rid (reservations d)\<rparr>)"
  by (erule answered_mono) (auto simp: bex_update_kept)

section \<open>TransitionReservation\<close>

lemma transition_release_ok:
  assumes l: "ledger [r] [r] [] [] d" and r: "0 \<le> reservations_quantity r"
    "reservations_product_id r \<in> products_id ` set (products d)" and e: "fault e 4 = NoFault" "fault e 5 = NoFault"
  obtains rows rows' where
    "transition_release e d r ReservationCancelled = Inr (d\<lparr>inventory := rows, flash_sales := rows'\<rparr>)"
    "ledger [] [] [] [] (d\<lparr>inventory := rows, flash_sales := rows'\<rparr>)"
proof -
  obtain rows where rows: "sql_release_inventory (db_now e) d (reservations_product_id r) (reservations_quantity r)
      = Inr (d\<lparr>inventory := rows\<rparr>, 1)" "ledger [] [r] [] [] (d\<lparr>inventory := rows\<rparr>)"
    by (rule release_inventory_ledger [OF l r(1) _ r(2)]) simp
  obtain rows' n where "sql_release_sale_stock (db_now e) (d\<lparr>inventory := rows\<rparr>) (reservations_sale_id r)
      (reservations_quantity r) = Inr (d\<lparr>inventory := rows, flash_sales := rows'\<rparr>, n)"
      "ledger [] [] [] [] (d\<lparr>inventory := rows, flash_sales := rows'\<rparr>)"
    by (rule release_sale_ledger [OF rows(2) r(1)]) simp_all
  with rows(1) e show thesis by (intro that) (simp_all add: transition_release_def)
qed

lemma restated_state: "\<forall>x \<in> set (restated st t rid rs). reservations_id x = rid \<longrightarrow> reservations_state x = st"
  by (simp add: ball_update_where)

lemma Transition_cases:
  assumes "TransitionReservation e d rid target = (res, d')"
  obtains (abort) err where "res = Inl err" "d' = d"
  | (moved) r d1 n1 d2 n2 d3 where "find (\<lambda>r. reservations_id r = rid) (reservations d) = Some r"
      "lifecycle (reservations_state r) target"
      "sql_set_reservation_state (db_now e) d rid target = Inr (d1, n1)"
      "sql_set_order_state_of_reservation (db_now e) d1 rid (order_state_of target) = Inr (d2, n2)"
      "transition_release e d2 r target = Inr d3"
      "event e 6 0 d3 ''reservation'' rid (''reservation.'' @ ReservationState_string target)
            (ReservationState_string (reservations_state r)) (ReservationState_string target) MetaNull = Inr d'"
      "res = GetReservation e 8 d' rid \<or> res = Inl (OtherError ''commit'')"
  using assms unfolding TransitionReservation_def
  by (auto simp: commit_def Validate_None split: sum.splits fault.splits prod.splits option.splits)

lemma order_move_ledger:
  assumes "ledger es fs hs (x # gs) d"
    and "sql_set_order_state_of_reservation t d (reservations_id x) st = Inr (d1, n)"
    and "\<And>r. r \<in> set (reservations d) \<Longrightarrow> reservations_id r = reservations_id x \<Longrightarrow> order_follows (reservations_state r) st"
  shows "ledger es fs hs gs d1" "\<exists>rows. d1 = d\<lparr>orders := rows\<rparr>"
  using order_state_ledger [OF assms(1,3), where t = t] assms(2) by auto

lemma transition_release_Inr:
  assumes l: "ledger [r] [r] [] [] d" and r: "0 \<le> reservations_quantity r"
    "reservations_product_id r \<in> products_id ` set (products d)"
    and t: "transition_release e d r ReservationCancelled = Inr d1"
  shows "ledger [] [] [] [] d1" "\<exists>rows rows'. d1 = d\<lparr>inventory := rows, flash_sales := rows'\<rparr>"
proof -
  have "fault e 4 = NoFault" "fault e 5 = NoFault"
    using t by (auto simp: transition_release_def split: sum.splits)
  then obtain rows rows' where
      "transition_release e d r ReservationCancelled = Inr (d\<lparr>inventory := rows, flash_sales := rows'\<rparr>)"
      "ledger [] [] [] [] (d\<lparr>inventory := rows, flash_sales := rows'\<rparr>)"
    by (rule transition_release_ok [OF l r])
  with t have "d1 = d\<lparr>inventory := rows, flash_sales := rows'\<rparr> \<and> ledger [] [] [] [] d1" by simp
  then show "ledger [] [] [] [] d1" "\<exists>rows rows'. d1 = d\<lparr>inventory := rows, flash_sales := rows'\<rparr>"
    by blast+
qed

lemma order_of_follows: "order_follows st (order_state_of st)"
  by (simp add: order_follows_def)

lemma Transition_good:
  assumes g: "good d" and t: "target = ReservationConfirmed \<or> target = ReservationCancelled"
  shows "good (snd (TransitionReservation e d rid target))"
proof (cases "TransitionReservation e d rid target")
  case (Pair res d')
  from Pair show ?thesis
  proof (cases rule: Transition_cases)
    case abort
    with Pair g show ?thesis by simp
  next
    case (moved r d1 n1 d2 n2 d3)
    have l: "ledger [] [] [] [] d" and a: "answered {} d" using g by (simp_all add: good_def)
    note sc = ledgerD(1) [OF l]
    have r: "r \<in> set (reservations d)" "reservations_id r = rid"
      using moved(1) find_Some_iff_key [OF keysD(4) [OF sc]] by auto
    have pend: "reservations_state r = ReservationPending" using moved(2) t by (auto elim: lifecycle.cases)
    have d1: "d1 = d\<lparr>reservations := restated target (db_now e) rid (reservations d)\<rparr>"
      using moved(3) by (simp add: set_state_eq [OF sc])
    have follow: "order_follows (reservations_state x) (order_state_of target)"
      if "x \<in> set (reservations d1)" "reservations_id x = reservations_id r" for x
    proof -
      have "reservations_state x = target"
        using that restated_state [where rid = rid and st = target and t = "db_now e" and rs = "reservations d"] by (simp add: d1 r(2))
      then show ?thesis by (simp add: order_of_follows)
    qed
    note order = moved(4) [folded r(2)]
    have "ledger [] [] [] [] d3 \<and> (\<exists>rows rows' rows''. d3 = d1\<lparr>orders := rows, inventory := rows', flash_sales := rows''\<rparr>)"
    proof (cases "target = ReservationCancelled")
      case True
      have l1: "ledger [r] [r] [] [r] d1"
        using release_mark_ledger [OF l r(1) pend, of target "db_now e"] True by (simp add: d1 r(2))
      note l2 = order_move_ledger [OF l1 order follow]
      have "0 \<le> reservations_quantity r" using schema_qty [OF sc r(1)] by simp
      moreover have "reservations_product_id r \<in> products_id ` set (products d2)"
        using refsD(4) [OF sc r(1)] l2(2) by (auto simp: d1)
      ultimately show ?thesis
        using transition_release_Inr [OF l2(1)] moved(5) True l2(2) by fastforce
    next
      case False
      then have tc: "target = ReservationConfirmed" using t by simp
      have l1: "ledger [] [] [] [r] d1" using confirm_ledger [OF l r(1) pend] by (simp add: d1 r(2) tc)
      note l2 = order_move_ledger [OF l1 order follow]
      moreover have "d3 = d2" using moved(5) False by (simp add: transition_release_def)
      moreover have "d1\<lparr>orders := x\<rparr> = d1\<lparr>orders := x, inventory := inventory d1, flash_sales := flash_sales d1\<rparr>" for x
        by simp
      ultimately show ?thesis by metis
    qed
    then have l3: "ledger [] [] [] [] d3" and a3: "answered {} d3"
      using restated_answered [OF a] by (auto simp: d1)
    have "ledger [] [] [] [] d'" by (rule event_ledger [OF l3 moved(6)])
    moreover have "answered {} d'" using a3 moved(6) by (auto simp: event_Inr)
    ultimately show ?thesis using Pair by (simp add: good_def)
  qed
qed

end
