(* ===== verification/ReserveEffect.thy ===== *)
theory ReserveEffect
  imports Booking
begin

text \<open>
  What \<open>Reserve\<close> (\<open>src/internal/store/reservation.go\<close>) does to the database, exactly. \<open>Reserve_cases\<close> lists the
  four ways a call can end, whatever fails: nothing changed, a refusal stored under the key, a refusal stored
  after the sale's stock was already decremented, or a booking. \<open>Reserve_booked\<close> is the converse: when the sale is open, the
  limit and both counters allow it and the identifiers are fresh, the booking happens.
\<close>

section \<open>The exact effect of Reserve\<close>

abbreviation taken_sales :: "env \<Rightarrow> string \<Rightarrow> int \<Rightarrow> flash_sales_row list \<Rightarrow> flash_sales_row list" where
  "taken_sales e sid q rows \<equiv> update_where (\<lambda>s. flash_sales_id s = sid)
     (\<lambda>s. s\<lparr>flash_sales_remaining_stock := flash_sales_remaining_stock s - q, flash_sales_updated_at := db_now e\<rparr>) rows"

abbreviation taken_inventory :: "env \<Rightarrow> string \<Rightarrow> int \<Rightarrow> inventory_row list \<Rightarrow> inventory_row list" where
  "taken_inventory e pid q rows \<equiv> update_where (\<lambda>i. inventory_product_id i = pid)
     (\<lambda>i. i\<lparr>inventory_available := inventory_available i - q, inventory_reserved := inventory_reserved i + q,
        inventory_updated_at := db_now e\<rparr>) rows"

abbreviation created_event :: "env \<Rightarrow> string \<Rightarrow> string \<Rightarrow> int \<Rightarrow> domain_events_row" where
  "created_event e eid rid q \<equiv> \<lparr>domain_events_id = eid, domain_events_aggregate_type = ''reservation'',
     domain_events_aggregate_id = rid, domain_events_event_type = ''reservation.created'',
     domain_events_previous_state = None, domain_events_new_state = Some ''pending'',
     domain_events_metadata = MetaInt ''quantity'' q, domain_events_created_at = db_now e\<rparr>"

abbreviation success_key :: "idempotency_keys_row \<Rightarrow> ReservationResult \<Rightarrow> idempotency_keys_row" where
  "success_key k result \<equiv> k\<lparr>idempotency_keys_resource_id := Some (Reservation_ID (Result_Reservation result)),
     idempotency_keys_response_status := Some 201,
     idempotency_keys_response_body := Some \<lparr>Response_ErrorCode = '''', Response_Message = '''',
       Response_Result = Some result\<rparr>\<rparr>"

abbreviation error_key :: "idempotency_keys_row \<Rightarrow> Error \<Rightarrow> idempotency_keys_row" where
  "error_key k de \<equiv> k\<lparr>idempotency_keys_response_status := Some (Error_HTTPStatus de),
     idempotency_keys_response_body := Some \<lparr>Response_ErrorCode = Error_Code de,
       Response_Message = Error_Message de, Response_Result = None\<rparr>\<rparr>"

lemma sale_product_keys [simp]:
  "sql_sale_product (d\<lparr>idempotency_keys := ks\<rparr>) saleID = sql_sale_product d saleID"
  by (simp add: sql_sale_product_def split: option.split)

lemma reservation_of_row_id [simp]: "Reservation_ID (reservation_of_row oid r) = reservations_id r"
  by (simp add: reservation_of_row_def)

lemma update_key_last:
  "key \<notin> idempotency_keys_key ` set ks \<Longrightarrow> idempotency_keys_key k = key \<Longrightarrow>
     update_where (\<lambda>k. idempotency_keys_key k = key) f (ks @ [k]) = ks @ [f k]"
  by (induction ks) (auto simp: update_where_def)

lemma take_sale_Inr:
  assumes "schema_ok d" and "sql_take_sale_stock e d sid q = Inr (d1, n)" and "n \<noteq> 0"
  shows "d1 = d\<lparr>flash_sales := taken_sales e sid q (flash_sales d)\<rparr>"
    "\<forall>s \<in> set (flash_sales d). flash_sales_id s = sid \<longrightarrow> q \<le> flash_sales_remaining_stock s \<and> flash_sales_state s = SaleActive"
proof -
  have h: "rows_where (\<lambda>s. flash_sales_id s = sid \<and> flash_sales_state s = SaleActive
      \<and> q \<le> flash_sales_remaining_stock s) (flash_sales d) \<noteq> 0"
    and d1: "d1 = d\<lparr>flash_sales := update_where (\<lambda>s. flash_sales_id s = sid \<and> flash_sales_state s = SaleActive
      \<and> q \<le> flash_sales_remaining_stock s) (\<lambda>s. s\<lparr>flash_sales_remaining_stock := flash_sales_remaining_stock s - q,
        flash_sales_updated_at := db_now e\<rparr>) (flash_sales d)\<rparr>"
    using assms(2,3) by (simp_all add: sql_take_sale_stock_def update_flash_sales_Inr)
  show "d1 = d\<lparr>flash_sales := taken_sales e sid q (flash_sales d)\<rparr>"
    unfolding d1 by (simp add: guarded_hit [OF keysD(3) [OF assms(1)] h])
  show "\<forall>s \<in> set (flash_sales d). flash_sales_id s = sid \<longrightarrow> q \<le> flash_sales_remaining_stock s \<and> flash_sales_state s = SaleActive"
    using guarded_update [OF keysD(3) [OF assms(1)], of sid "\<lambda>s. flash_sales_state s = SaleActive
      \<and> q \<le> flash_sales_remaining_stock s" id] h by auto
qed

lemma take_inventory_Inr:
  assumes "schema_ok d" and "sql_take_inventory e d pid q = Inr (d1, n)" and "n \<noteq> 0"
  shows "d1 = d\<lparr>inventory := taken_inventory e pid q (inventory d)\<rparr>"
    "\<forall>i \<in> set (inventory d). inventory_product_id i = pid \<longrightarrow> q \<le> inventory_available i"
proof -
  have h: "rows_where (\<lambda>i. inventory_product_id i = pid \<and> q \<le> inventory_available i) (inventory d) \<noteq> 0"
    and d1: "d1 = d\<lparr>inventory := update_where (\<lambda>i. inventory_product_id i = pid \<and> q \<le> inventory_available i)
      (\<lambda>i. i\<lparr>inventory_available := inventory_available i - q, inventory_reserved := inventory_reserved i + q,
        inventory_updated_at := db_now e\<rparr>) (inventory d)\<rparr>"
    using assms(2,3) by (simp_all add: sql_take_inventory_def update_inventory_Inr)
  show "d1 = d\<lparr>inventory := taken_inventory e pid q (inventory d)\<rparr>"
    unfolding d1 by (simp add: guarded_hit [OF keysD(2) [OF assms(1)] h])
  show "\<forall>i \<in> set (inventory d). inventory_product_id i = pid \<longrightarrow> q \<le> inventory_available i"
    using guarded_update [OF keysD(2) [OF assms(1)], of pid "\<lambda>i. q \<le> inventory_available i" id] h by auto
qed

text \<open>The database after a recorded reservation, over the one the transaction started from.\<close>

abbreviation booked :: "Store \<Rightarrow> env \<Rightarrow> db \<Rightarrow> string \<Rightarrow> string \<Rightarrow> int \<Rightarrow> string \<Rightarrow> products_row
    \<Rightarrow> string \<Rightarrow> string \<Rightarrow> string \<Rightarrow> db" where
  "booked s e d saleID u q key p rid oid eid \<equiv> d\<lparr>
     inventory := taken_inventory e (products_id p) q (inventory d),
     flash_sales := taken_sales e saleID q (flash_sales d),
     reservations := reservations d @ [reserved_row s e saleID u q p rid],
     orders := orders d @ [reserved_order e saleID u q p rid oid],
     domain_events := domain_events d @ [created_event e eid rid q],
     idempotency_keys := idempotency_keys d @
       [success_key (new_key e key u (fingerprint e saleID u q)) (reserved_result s e saleID u q p rid oid)]\<rparr>"

abbreviation refused :: "env \<Rightarrow> db \<Rightarrow> string \<Rightarrow> string \<Rightarrow> int \<Rightarrow> string \<Rightarrow> Error \<Rightarrow> db" where
  "refused e d saleID u q key de \<equiv> d\<lparr>idempotency_keys := idempotency_keys d @
     [error_key (new_key e key u (fingerprint e saleID u q)) de]\<rparr>"

lemma update_idempotency_keys_eq:
  "update_idempotency_keys d P f = Inr (d\<lparr>idempotency_keys := update_where P f (idempotency_keys d)\<rparr>,
     rows_where P (idempotency_keys d))"
  by (simp add: update_idempotency_keys_Inr)

lemma finish_error_cases:
  assumes "finishReservationError e d0 (Some d) key de = (res, d')"
    and "idempotency_keys d = ks @ [k]" "key \<notin> idempotency_keys_key ` set ks" "idempotency_keys_key k = key"
  obtains (abort) err where "res = Inl err" "d' = d0"
  | (stored) "res = Inl (DomainError de) \<or> res = Inl (OtherError ''commit'')"
      "d' = d\<lparr>idempotency_keys := ks @ [error_key k de]\<rparr>"
  using assms unfolding finishReservationError_def sql_store_error_def update_idempotency_keys_eq
  by (auto simp: commit_def update_key_last split: sum.splits fault.splits)

lemma reserve_record_booked:
  assumes "reserve_record s e d0 d saleID u q key p = (res, d')"
    and "idempotency_keys d = ks @ [k]" "key \<notin> idempotency_keys_key ` set ks" "idempotency_keys_key k = key"
  obtains (abort) err where "res = Inl err" "d' = d0"
  | (booked) rid oid eid where "NewID (rand e 0) = Inr rid" "NewID (rand e 1) = Inr oid" "NewID (rand e 2) = Inr eid"
      "rid \<notin> reservations_id ` set (reservations d)"
      "d' = d\<lparr>reservations := reservations d @ [reserved_row s e saleID u q p rid],
         orders := orders d @ [reserved_order e saleID u q p rid oid],
         domain_events := domain_events d @ [created_event e eid rid q],
         idempotency_keys := ks @ [success_key k (reserved_result s e saleID u q p rid oid)]\<rparr>"
      "res = Inr (reserved_result s e saleID u q p rid oid) \<or> res = Inl (OtherError ''commit'')"
  using assms(1)
proof (cases rule: reserve_record_cases)
  case (recorded rid oid d1 d2 d3 n)
  note d1 = insert_reservations_Inr [OF recorded(3)] and d2 = insert_orders_Inr [OF recorded(4)]
  have new: "rid \<notin> reservations_id ` set (reservations d)"
    using recorded(3) by (simp add: insert_reservations_def split: if_splits)
  obtain eid where eid: "NewID (rand e 2) = Inr eid"
      "d3 = d2\<lparr>domain_events := domain_events d @ [created_event e eid rid q]\<rparr>"
    using recorded(5) by (auto simp: event_Inr d1 d2 NULLIF_empty_def)
  have "d' = d3\<lparr>idempotency_keys := update_where (\<lambda>k. idempotency_keys_key k = key)
      (\<lambda>k. success_key k (reserved_result s e saleID u q p rid oid)) (idempotency_keys d3)\<rparr>"
    using recorded(6) by (simp add: sql_store_success_def update_idempotency_keys_Inr reservation_of_row_def)
  then have "d' = d\<lparr>reservations := reservations d @ [reserved_row s e saleID u q p rid],
         orders := orders d @ [reserved_order e saleID u q p rid oid],
         domain_events := domain_events d @ [created_event e eid rid q],
         idempotency_keys := ks @ [success_key k (reserved_result s e saleID u q p rid oid)]\<rparr>"
    using assms(2-4) by (simp add: eid(2) d2 d1 update_key_last)
  with recorded(1,2,7) eid(1) new show thesis by (rule_tac booked)
qed (rule abort)

lemma take_inventory_refused:
  assumes "sql_take_inventory e d pid q = Inr (d1, 0)" "i \<in> set (inventory d)" "inventory_product_id i = pid"
  shows "inventory_available i < q"
  using assms by (auto simp: sql_take_inventory_def update_inventory_Inr rows_where_0)

abbreviation sold_out :: Error where
  "sold_out \<equiv> \<lparr>Error_Code = ''INVENTORY_SOLD_OUT'', Error_Message = ''The requested product is sold out'',
     Error_HTTPStatus = 409\<rparr>"

lemma Reserve_cases:
  assumes r: "Reserve s e d saleID request = (res, d')" and g: "schema_ok d"
  defines "u \<equiv> TrimSpace (Request_UserID request)" and "key \<equiv> TrimSpace (Request_IdempotencyKey request)"
    and "q \<equiv> Request_Quantity request"
  obtains (same) "d' = d"
  | (refused) de where "key \<notin> idempotency_keys_key ` set (idempotency_keys d)" "\<not> request_invalid saleID u q key"
      "Error_Code de \<noteq> ''''"
      "d' = refused e d saleID u q key de" "res = Inl (DomainError de) \<or> res = Inl (OtherError ''commit'')"
  | (leaked) sale p where "key \<notin> idempotency_keys_key ` set (idempotency_keys d)" "\<not> request_invalid saleID u q key"
      "sql_sale_product d saleID = Some (sale, p)"
      "\<forall>i \<in> set (inventory d). inventory_product_id i = products_id p \<longrightarrow> inventory_available i < q"
      "d' = refused e (d\<lparr>flash_sales := taken_sales e saleID q (flash_sales d)\<rparr>) saleID u q key sold_out"
      "res = Inl (DomainError sold_out) \<or> res = Inl (OtherError ''commit'')"
  | (booked) sale p rid oid eid where "key \<notin> idempotency_keys_key ` set (idempotency_keys d)"
      "\<not> request_invalid saleID u q key" "sql_sale_product d saleID = Some (sale, p)"
      "flash_sales_state sale = SaleActive" "flash_sales_starts_at sale \<le> go_now e"
      "go_now e < flash_sales_ends_at sale" "products_active p" "q \<le> flash_sales_remaining_stock sale"
      "\<forall>i \<in> set (inventory d). inventory_product_id i = products_id p \<longrightarrow> q \<le> inventory_available i"
      "wrap64 (sql_existing_quantity d saleID u + q) \<le> flash_sales_max_quantity_per_user sale"
      "NewID (rand e 0) = Inr rid" "NewID (rand e 1) = Inr oid" "NewID (rand e 2) = Inr eid"
      "rid \<notin> reservations_id ` set (reservations d)"
      "d' = booked s e d saleID u q key p rid oid eid"
      "res = Inr (reserved_result s e saleID u q p rid oid) \<or> res = Inl (OtherError ''commit'')"
proof (cases "d' = d")
  case True
  then show ?thesis by (rule same)
next
  case False
  let ?fp = "fingerprint e saleID u q"
  let ?d1 = "d\<lparr>idempotency_keys := idempotency_keys d @ [new_key e key u ?fp]\<rparr>"
  have v: "\<not> request_invalid saleID u q key" and c: "sql_claim_key e d key u ?fp = Inr (Some ?d1)"
    and body: "(case stmt e 3 (query_row (sql_sale_product ?d1 saleID)) of
         Inl err \<Rightarrow> finishReservationError e d (if is_NoRows err then Some ?d1 else None) key
           (domainError (notFound err) ''SALE_NOT_FOUND'' ''Flash sale was not found'' 404)
       | Inr (sale, p) \<Rightarrow> reserve_take s e d ?d1 saleID u q key sale p) = (res, d')"
    using r False replay_keeps [of e d key u ?fp] unfolding Reserve_def Let_def u_def key_def q_def
    by (auto simp: claim_Some simp del: replay_keeps split: if_splits sum.splits option.splits)
  have new: "key \<notin> idempotency_keys_key ` set (idempotency_keys d)" using c by (simp add: claim_Some)
  have key: "idempotency_keys ?d1 = idempotency_keys d @ [new_key e key u ?fp]"
    "idempotency_keys_key (new_key e key u ?fp) = key" by simp_all
  have sp: "sql_sale_product ?d1 saleID = sql_sale_product d saleID" by simp
  show thesis
  proof (cases "stmt e 3 (query_row (sql_sale_product ?d1 saleID))")
    case (Inl err)
    have "is_NoRows err" using Inl body False by (auto simp: finishReservationError_def split: if_splits)
    with Inl body have fin: "finishReservationError e d (Some ?d1) key
        (domainError (notFound err) ''SALE_NOT_FOUND'' ''Flash sale was not found'' 404) = (res, d')" by simp
    from fin key(1) new key(2) show ?thesis
    proof (cases rule: finish_error_cases)
      case stored
      show ?thesis by (rule refused [OF new v _ _ stored(1)])
        (use stored(2) in \<open>simp_all add: domainError_def split: option.split\<close>)
    qed (use False in simp)
  next
    case (Inr x)
    obtain sale p where x: "x = (sale, p)" by (cases x)
    have sl: "sql_sale_product d saleID = Some (sale, p)" using Inr by (simp add: x sp)
    have "reserve_take s e d ?d1 saleID u q key sale p = (res, d')" using body Inr by (simp add: x)
    then show ?thesis
    proof (cases rule: reserve_take_cases)
      case (refuse code msg)
      from refuse(2) key(1) new key(2) show ?thesis
      proof (cases rule: finish_error_cases)
        case stored
        show ?thesis by (rule refused [OF new v _ _ stored(1)]) (use stored(2) refuse(1) in simp_all)
      qed (use False in simp)
    next
      case (leak d1 n)
      have s1: "schema_ok ?d1"
        by (rule schema_insert_idempotency_keys [OF g c [unfolded sql_claim_key_def]])
      note t = take_sale_Inr [OF s1 leak(1,2)]
      have key1: "idempotency_keys d1 = idempotency_keys d @ [new_key e key u ?fp]" by (simp add: t(1))
      from leak(4) key1 new key(2) show ?thesis
      proof (cases rule: finish_error_cases)
        case stored
        show ?thesis
          by (rule leaked [OF new v sl _ _ stored(1)])
            (use stored(2) t take_inventory_refused [OF leak(3)] in simp_all)
      qed (use False in simp)
    next
      case (take d1 n d2 m)
      have s1: "schema_ok ?d1"
        by (rule schema_insert_idempotency_keys [OF g c [unfolded sql_claim_key_def]])
      note t = take_sale_Inr [OF s1 take(1,2)]
      have s2: "schema_ok d1"
        by (rule schema_update_flash_sales [OF s1 take(1) [unfolded sql_take_sale_stock_def]]) simp_all
      note i = take_inventory_Inr [OF s2 take(3,4)]
      have sale: "sale \<in> set (flash_sales d)" "flash_sales_id sale = saleID"
        using sale_product_Some [OF g sl] by simp_all
      have key2: "idempotency_keys d2 = idempotency_keys d @ [new_key e key u ?fp]" by (simp add: i(1) t(1))
      from take(5) key2 new key(2) show ?thesis
      proof (cases rule: reserve_record_booked)
        case (booked rid oid eid)
        show ?thesis
          by (rule that(4) [OF new v sl take(6-9) _ _ _ booked(1-3) _ _ booked(6)])
            (use booked(4,5) i t sale take(10) in \<open>simp_all add: sql_existing_quantity_def\<close>)
      qed (use False in simp)
    qed (use False in simp)
  qed
qed

section \<open>Reserve succeeds when it may\<close>

text \<open>
  What the environment has to provide: every round trip succeeds, and the three identifiers are fresh.
\<close>

definition fresh_ids :: "env \<Rightarrow> db \<Rightarrow> string \<Rightarrow> string \<Rightarrow> string \<Rightarrow> bool" where
  "fresh_ids e d rid oid eid \<longleftrightarrow> NewID (rand e 0) = Inr rid \<and> NewID (rand e 1) = Inr oid \<and> NewID (rand e 2) = Inr eid
     \<and> rid \<notin> reservations_id ` set (reservations d) \<and> oid \<notin> orders_id ` set (orders d)
     \<and> eid \<notin> domain_events_id ` set (domain_events d)"

definition all_ok :: "env \<Rightarrow> bool" where
  "all_ok e \<longleftrightarrow> (\<forall>n. fault e n = NoFault)"

lemma all_okD [simp]: "all_ok e \<Longrightarrow> fault e n = NoFault" by (simp add: all_ok_def)

lemma guarded_one:
  assumes "distinct (map key rows)" "r \<in> set rows" "key r = k" "Q r"
  shows "rows_where (\<lambda>r. key r = k \<and> Q r) rows = 1"
    "update_where (\<lambda>r. key r = k \<and> Q r) f rows = update_where (\<lambda>r. key r = k) f rows"
  using guarded_update [OF assms(1), of k Q f] assms(2-4) by auto

lemma take_sale_ok:
  assumes sc: "schema_ok d" and s: "sale \<in> set (flash_sales d)" "flash_sales_id sale = sid"
    "flash_sales_state sale = SaleActive" "q \<le> flash_sales_remaining_stock sale" "0 < q"
  shows "sql_take_sale_stock e d sid q = Inr (d\<lparr>flash_sales := taken_sales e sid q (flash_sales d)\<rparr>, 1)"
proof -
  have "flash_sales_check (x\<lparr>flash_sales_remaining_stock := flash_sales_remaining_stock x - q, flash_sales_updated_at := t\<rparr>)"
    if "x \<in> set (flash_sales d)" "q \<le> flash_sales_remaining_stock x" for x t
    using flash_sales_checkD [OF sc that(1)] that(2) s(5) by (simp add: flash_sales_check_def int4_def)
  then show ?thesis
    using guarded_one [OF keysD(3) [OF sc] s(1,2), of "\<lambda>s. flash_sales_state s = SaleActive \<and> q \<le> flash_sales_remaining_stock s"] s(3,4)
    by (simp add: sql_take_sale_stock_def update_flash_sales_Inr)
qed

lemma take_inventory_ok:
  assumes l: "ledger [] fs hs gs d" and i: "i \<in> set (inventory d)" "inventory_product_id i = pid"
    "q \<le> inventory_available i" "0 < q"
  shows "sql_take_inventory e d pid q = Inr (d\<lparr>inventory := taken_inventory e pid q (inventory d)\<rparr>, 1)"
proof -
  note sc = ledgerD(1) [OF l]
  have "inventory_check (x\<lparr>inventory_available := inventory_available x - q, inventory_reserved := inventory_reserved x + q,
      inventory_updated_at := t\<rparr>)" if x: "x \<in> set (inventory d)" "q \<le> inventory_available x" for x t
  proof -
    have "inventory_reserved x + q \<le> inventory_expected_total x"
      using ledgerD(4) [OF l] x inventory_checkD [OF sc x(1)] by (auto simp: balanced_def inventory_check_def)
    then show ?thesis using inventory_checkD [OF sc x(1)] x(2) i(4) by (simp add: inventory_check_def int4_def)
  qed
  then show ?thesis
    using guarded_one [OF keysD(2) [OF sc] i(1,2), of "\<lambda>i. q \<le> inventory_available i"] i(3)
    by (simp add: sql_take_inventory_def update_inventory_Inr)
qed

lemma reserve_record_ok:
  assumes ok: "all_ok e" and ids: "fresh_ids e d rid oid eid"
    and sc: "schema_ok d" and refs: "saleID \<in> flash_sales_id ` set (flash_sales d)" "p \<in> set (products d)"
    and u: "1 \<le> char_length u" "char_length u \<le> 128" and q: "0 < q" "q \<le> 100"
    and amount: "0 \<le> wrap64 (products_price_minor p * q)"
    and keys: "idempotency_keys d = ks @ [k]" "key \<notin> idempotency_keys_key ` set ks" "idempotency_keys_key k = key"
  shows "reserve_record s e d0 d saleID u q key p = (Inr (reserved_result s e saleID u q p rid oid),
     d\<lparr>reservations := reservations d @ [reserved_row s e saleID u q p rid],
         orders := orders d @ [reserved_order e saleID u q p rid oid],
         domain_events := domain_events d @ [created_event e eid rid q],
         idempotency_keys := ks @ [success_key k (reserved_result s e saleID u q p rid oid)]\<rparr>)"
proof -
  let ?r = "reserved_row s e saleID u q p rid" and ?x = "reserved_order e saleID u q p rid oid"
  have ids': "NewID (rand e 0) = Inr rid" "NewID (rand e 1) = Inr oid" "NewID (rand e 2) = Inr eid"
    "rid \<notin> reservations_id ` set (reservations d)" "oid \<notin> orders_id ` set (orders d)"
    "eid \<notin> domain_events_id ` set (domain_events d)" using ids by (simp_all add: fresh_ids_def)
  have p: "products_id p \<in> products_id ` set (products d)" using refs(2) by simp
  have unordered: "rid \<notin> orders_reservation_id ` set (orders d)" using refsD(5) [OF sc] ids'(4) by auto
  have "reservations_check ?r" using u q by (simp add: reservations_check_def int4_def)
  then have d1: "insert_reservations d ?r = Inr (d\<lparr>reservations := reservations d @ [?r]\<rparr>)"
    using ids'(4) refs(1) p by (simp add: insert_reservations_def)
  have "orders_check ?x" using q amount wrap64_int8 by (simp add: orders_check_def new_order_def int4_def)
  then have d2: "insert_orders (d\<lparr>reservations := reservations d @ [?r]\<rparr>) ?x
      = Inr (d\<lparr>reservations := reservations d @ [?r], orders := orders d @ [?x]\<rparr>)"
    using ids'(5) unordered refs(1) p by (simp add: insert_orders_def new_order_def)
  have d3: "event e 9 2 (d\<lparr>reservations := reservations d @ [?r], orders := orders d @ [?x]\<rparr>) ''reservation'' rid
      ''reservation.created'' '''' ''pending'' (MetaInt ''quantity'' q)
      = Inr (d\<lparr>reservations := reservations d @ [?r], orders := orders d @ [?x],
          domain_events := domain_events d @ [created_event e eid rid q]\<rparr>)"
    using ids'(3,6) ok by (simp add: event_Inr NULLIF_empty_def)
  show ?thesis
    unfolding reserve_record_def
    using ok keys by (simp add: Let_def ids'(1,2) d1 d2 d3 sql_store_success_def update_idempotency_keys_eq
        update_key_last del: One_nat_def)
qed

lemma char_length_le: "char_length s \<le> length s"
  by (simp add: char_length_def)

text \<open>When the limit and both counters allow it, \<open>Reserve\<close> gets as far as recording the reservation.\<close>

lemma Reserve_recording:
  assumes g: "good d" and ok: "all_ok e"
    and req: "u = TrimSpace (Request_UserID request)" "key = TrimSpace (Request_IdempotencyKey request)"
      "q = Request_Quantity request"
    and v: "\<not> request_invalid saleID u q key"
    and new: "key \<notin> idempotency_keys_key ` set (idempotency_keys d)"
    and sp: "sql_sale_product d saleID = Some (sale, p)"
    and open_sale: "flash_sales_state sale = SaleActive" "flash_sales_starts_at sale \<le> go_now e"
      "go_now e < flash_sales_ends_at sale" "products_active p"
    and lim: "user_units (reservations d) saleID u + q \<le> flash_sales_max_quantity_per_user sale"
    and stock: "q \<le> flash_sales_remaining_stock sale"
      "\<exists>i \<in> set (inventory d). inventory_product_id i = products_id p \<and> q \<le> inventory_available i"
  defines "d3 \<equiv> d\<lparr>inventory := taken_inventory e (products_id p) q (inventory d), flash_sales := taken_sales e saleID q (flash_sales d),
      idempotency_keys := idempotency_keys d @ [new_key e key u (fingerprint e saleID u q)]\<rparr>"
  shows "Reserve s e d saleID request = reserve_record s e d d3 saleID u q key p" "schema_ok d3"
proof -
  let ?k = "new_key e key u (fingerprint e saleID u q)"
  let ?d1 = "d\<lparr>idempotency_keys := idempotency_keys d @ [?k]\<rparr>"
  let ?d2 = "?d1\<lparr>flash_sales := taken_sales e saleID q (flash_sales d)\<rparr>"
  have d3: "d3 = ?d2\<lparr>inventory := taken_inventory e (products_id p) q (inventory d)\<rparr>" by (simp add: d3_def)
  have q: "0 < q" "q \<le> 100" using v by (simp_all add: request_invalid_def)
  have c: "sql_claim_key e d key u (fingerprint e saleID u q) = Inr (Some ?d1)" using new by (simp add: claim_Some)
  note l = claim_good [OF g c]
  have l0: "ledger [] [] [] [] d" using g by (simp add: good_def)
  note sale = sale_product_Some [OF ledgerD(1) [OF l0] sp]
  have sp1: "sql_sale_product ?d1 saleID = Some (sale, p)"
    using sp by simp
  have ts: "sql_take_sale_stock e ?d1 saleID q = Inr (?d2, 1)"
    using take_sale_ok [OF ledgerD(1) [OF l(1)], of sale saleID q e] sale open_sale(1) stock(1) q(1) by simp
  have l2: "ledger [] [reserved_row s e saleID u q p rid] [] [] ?d2" for rid
    by (rule take_sale_ledger [OF l(1), where n = 1]) (use ts in simp_all)
  obtain i where i: "i \<in> set (inventory ?d2)" "inventory_product_id i = products_id p" "q \<le> inventory_available i"
    using stock(2) by auto
  have ti: "sql_take_inventory e ?d2 (products_id p) q = Inr (d3, 1)"
    using take_inventory_ok [OF l2 i q(1), of e] by (simp add: d3)
  show "schema_ok d3"
    by (rule schema_update_inventory [OF ledgerD(1) [OF l2] ti [unfolded sql_take_inventory_def]]) simp
  have ex: "wrap64 (sql_existing_quantity ?d1 saleID u + q) \<le> flash_sales_max_quantity_per_user sale"
    using existing_no_wrap [OF l(1), of sale saleID q u] sale q lim by simp
  have "reserve_take s e d ?d1 saleID u q key sale p = reserve_record s e d d3 saleID u q key p"
    unfolding reserve_take_def Let_def using open_sale ok ex ts ti by simp
  then show "Reserve s e d saleID request = reserve_record s e d d3 saleID u q key p"
    using v ok c sp1 unfolding Reserve_def Let_def req by (simp add: query_row_def)
qed

lemma Reserve_booked:
  assumes g: "good d" and ok: "all_ok e" and ids: "fresh_ids e d rid oid eid"
    and req: "u = TrimSpace (Request_UserID request)" "key = TrimSpace (Request_IdempotencyKey request)"
      "q = Request_Quantity request"
    and v: "\<not> request_invalid saleID u q key" "1 \<le> char_length u"
    and new: "key \<notin> idempotency_keys_key ` set (idempotency_keys d)"
    and sp: "sql_sale_product d saleID = Some (sale, p)"
    and open_sale: "flash_sales_state sale = SaleActive" "flash_sales_starts_at sale \<le> go_now e"
      "go_now e < flash_sales_ends_at sale" "products_active p"
    and lim: "user_units (reservations d) saleID u + q \<le> flash_sales_max_quantity_per_user sale"
    and stock: "q \<le> flash_sales_remaining_stock sale"
      "\<exists>i \<in> set (inventory d). inventory_product_id i = products_id p \<and> q \<le> inventory_available i"
    and amount: "0 \<le> wrap64 (products_price_minor p * q)"
  shows "Reserve s e d saleID request = (Inr (reserved_result s e saleID u q p rid oid),
     booked s e d saleID u q key p rid oid eid)"
proof -
  let ?k = "new_key e key u (fingerprint e saleID u q)"
  let ?d3 = "d\<lparr>inventory := taken_inventory e (products_id p) q (inventory d), flash_sales := taken_sales e saleID q (flash_sales d),
      idempotency_keys := idempotency_keys d @ [?k]\<rparr>"
  have q: "0 < q" "q \<le> 100" and ul: "char_length u \<le> 128"
    using v(1) char_length_le [of u] by (simp_all add: request_invalid_def)
  have sc: "schema_ok d" using g by (simp add: good_def ledger_def)
  note r = Reserve_recording [OF g ok req v(1) new sp open_sale lim stock]
  have ids3: "fresh_ids e ?d3 rid oid eid" using ids by (simp add: fresh_ids_def)
  have refs: "saleID \<in> flash_sales_id ` set (flash_sales ?d3)" "p \<in> set (products ?d3)"
    using sale_product_Some [OF sc sp] by (auto simp: image_update_kept)
  have keys: "idempotency_keys ?d3 = idempotency_keys d @ [?k]" "idempotency_keys_key ?k = key" by simp_all
  show ?thesis
    using reserve_record_ok [OF ok ids3 r(2) refs v(2) ul q amount keys(1) new keys(2), where s = s and ?d0.0 = d] by (simp add: r(1))
qed

end
