(* ===== verification/Payment.thy ===== *)
theory Payment
  imports Booking
begin

text \<open>
  Synthetic payments (\<open>src/internal/store/payment.go\<close>): \<open>SimulatePayment\<close> with its own idempotency
  key. Round trips: 0 BEGIN, 1 insert the payment, 2 read it back on a conflict, 3 COMMIT of
  the replay, 4 read and lock order and reservation, 5 inventory, 6 reservation, 7 order, 8 event of
  the reservation, 9 order (failed payment), 10 payment status, 11 event of the payment,
  12 COMMIT.
\<close>

record PaymentRequest =
  PaymentRequest_OrderID :: string
  PaymentRequest_Outcome :: string
  PaymentRequest_IdempotencyKey :: string

record PaymentResult =
  PaymentResult_Payment :: Payment
  PaymentResult_Duplicate :: bool

definition parse_outcome :: "string \<Rightarrow> PaymentOutcome option" where
  "parse_outcome s = (if s = ''successful'' then Some Successful else if s = ''failed'' then Some Failed
     else if s = ''delayed'' then Some Delayed else None)"

primrec PaymentStatus_string :: "PaymentStatus \<Rightarrow> string" where
  "PaymentStatus_string StatusSucceeded = ''succeeded''"
| "PaymentStatus_string StatusFailed = ''failed''"
| "PaymentStatus_string StatusPending = ''pending''"

definition payment_fingerprint :: "env \<Rightarrow> string \<Rightarrow> string \<Rightarrow> string" where
  "payment_fingerprint e orderID outcome = EncodeToString (sha256 e (orderID @ [CHR 0x00] @ outcome))"

definition payment_of_row :: "payments_row \<Rightarrow> Payment" where
  "payment_of_row p = \<lparr>Payment_ID = payments_id p, Payment_OrderID = payments_order_id p,
     Payment_IdempotencyKey = payments_idempotency_key p, Payment_Outcome = payments_outcome p,
     Payment_Status = payments_status p, Payment_CreatedAt = payments_created_at p,
     Payment_UpdatedAt = payments_updated_at p\<rparr>"

section \<open>Statements\<close>

definition new_payment :: "env \<Rightarrow> string \<Rightarrow> string \<Rightarrow> string \<Rightarrow> PaymentOutcome \<Rightarrow> string \<Rightarrow> payments_row" where
  "new_payment e paymentID orderID key outcome fp =
     \<lparr>payments_id = paymentID, payments_order_id = orderID, payments_idempotency_key = key,
      payments_outcome = outcome, payments_status = StatusPending, payments_request_fingerprint = fp,
      payments_created_at = db_now e, payments_updated_at = db_now e\<rparr>"

definition sql_insert_payment ::
  "env \<Rightarrow> db \<Rightarrow> string \<Rightarrow> string \<Rightarrow> string \<Rightarrow> PaymentOutcome \<Rightarrow> string \<Rightarrow> go_error + db option" where
  "sql_insert_payment e d paymentID orderID key outcome fp =
     insert_payments d (new_payment e paymentID orderID key outcome fp)"

definition sql_order_reservation :: "db \<Rightarrow> string \<Rightarrow> reservations_row option" where
  "sql_order_reservation d orderID =
    (case find (\<lambda>x. orders_id x = orderID) (orders d) of
       None \<Rightarrow> None
     | Some x \<Rightarrow> find (\<lambda>r. reservations_id r = orders_reservation_id x) (reservations d))"

definition sql_sell_inventory :: "env \<Rightarrow> db \<Rightarrow> string \<Rightarrow> int \<Rightarrow> go_error + (db \<times> nat)" where
  "sql_sell_inventory e d productID quantity = update_inventory d
     (\<lambda>i. inventory_product_id i = productID \<and> quantity \<le> inventory_reserved i)
     (\<lambda>i. i\<lparr>inventory_reserved := inventory_reserved i - quantity,
        inventory_sold := inventory_sold i + quantity, inventory_updated_at := db_now e\<rparr>)"

definition sql_set_order_state :: "env \<Rightarrow> db \<Rightarrow> string \<Rightarrow> OrderState \<Rightarrow> go_error + (db \<times> nat)" where
  "sql_set_order_state e d orderID st = update_orders d (\<lambda>x. orders_id x = orderID)
     (\<lambda>x. x\<lparr>orders_state := st, orders_updated_at := db_now e\<rparr>)"

definition sql_set_payment_status ::
  "env \<Rightarrow> db \<Rightarrow> string \<Rightarrow> PaymentStatus \<Rightarrow> go_error + (db \<times> payments_row option)" where
  "sql_set_payment_status e d paymentID st =
    map_sum id (\<lambda>(d', n). (d', find (\<lambda>p. payments_id p = paymentID) (payments d')))
     (update_payments d (\<lambda>p. payments_id p = paymentID)
       (\<lambda>p. p\<lparr>payments_status := st, payments_updated_at := db_now e\<rparr>))"

section \<open>SimulatePayment\<close>

definition payment_effect ::
  "env \<Rightarrow> db \<Rightarrow> string \<Rightarrow> PaymentOutcome \<Rightarrow> reservations_row \<Rightarrow> go_error + (db \<times> PaymentStatus)" where
  "payment_effect e d orderID outcome r = (case outcome of
     Successful \<Rightarrow>
       if reservations_state r \<noteq> ReservationConfirmed
       then Inl (domain_error ''INVALID_STATE_TRANSITION'' ''Only confirmed reservations can be paid'' 409)
       else (case stmt e 5 (sql_sell_inventory e d (reservations_product_id r) (reservations_quantity r)) of
           Inl err \<Rightarrow> Inl (WrapError ''reconcile paid inventory'' err)
         | Inr (d1, n) \<Rightarrow>
           if n \<noteq> 1 then Inl (OtherError ''paid inventory invariant prevented reconciliation'')
           else (case stmt e 6 (sql_set_reservation_state (db_now e) d1 (reservations_id r) ReservationPaid) of
               Inl err \<Rightarrow> Inl err
             | Inr (d2, n2) \<Rightarrow>
              (case stmt e 7 (sql_set_order_state e d2 orderID OrderPaid) of
                 Inl err \<Rightarrow> Inl err
               | Inr (d3, n3) \<Rightarrow>
                (case event e 8 1 d3 ''reservation'' (reservations_id r) ''reservation.paid'' ''confirmed''
                       ''paid'' MetaNull of
                   Inl err \<Rightarrow> Inl err
                 | Inr d4 \<Rightarrow> Inr (d4, StatusSucceeded)))))
   | Failed \<Rightarrow>
       if reservations_state r \<noteq> ReservationConfirmed \<and> reservations_state r \<noteq> ReservationPending
       then Inl (domain_error ''INVALID_STATE_TRANSITION''
              ''Payment cannot fail for a completed reservation'' 409)
       else (case stmt e 9 (sql_set_order_state e d orderID OrderPaymentFailed) of
           Inl err \<Rightarrow> Inl err
         | Inr (d1, n) \<Rightarrow> Inr (d1, StatusFailed))
   | Delayed \<Rightarrow> Inr (d, StatusPending))"

definition replay_payment :: "env \<Rightarrow> db \<Rightarrow> string \<Rightarrow> string \<Rightarrow> PaymentResult outcome" where
  "replay_payment e d key fp =
    (case stmt e 2 (query_row (find (\<lambda>p. payments_idempotency_key p = key) (payments d))) of
       Inl err \<Rightarrow> (Inl err, d)
     | Inr p \<Rightarrow>
       if payments_request_fingerprint p \<noteq> fp
       then (Inl (domain_error ''IDEMPOTENCY_CONFLICT''
              ''Idempotency-Key was already used with a different payment request'' 409), d)
       else commit e 3 d d (Inr \<lparr>PaymentResult_Payment = payment_of_row p, PaymentResult_Duplicate = True\<rparr>))"

definition SimulatePayment :: "env \<Rightarrow> db \<Rightarrow> PaymentRequest \<Rightarrow> PaymentResult outcome" where
  "SimulatePayment e d request =
    (let orderID = TrimSpace (PaymentRequest_OrderID request);
         outcome = ToLower (TrimSpace (PaymentRequest_Outcome request));
         key = TrimSpace (PaymentRequest_IdempotencyKey request) in
     case (if orderID = '''' \<or> key = '''' then None else parse_outcome outcome) of
       None \<Rightarrow> (Inl (domain_error ''VALIDATION_ERROR''
           ''orderId, valid outcome, and Idempotency-Key are required'' 400), d)
     | Some oc \<Rightarrow>
       let fp = payment_fingerprint e orderID outcome in
      (case NewID (rand e 0) of Inl err \<Rightarrow> (Inl err, d) | Inr paymentID \<Rightarrow>
      (case stmt e 0 (Inr ()) of Inl err \<Rightarrow> (Inl err, d) | Inr _ \<Rightarrow>
      (case stmt e 1 (sql_insert_payment e d paymentID orderID key oc fp) of
         Inl err \<Rightarrow> (Inl err, d)
       | Inr None \<Rightarrow> replay_payment e d key fp
       | Inr (Some d1) \<Rightarrow>
      (case stmt e 4 (query_row (sql_order_reservation d1 orderID)) of
         Inl err \<Rightarrow> (Inl (notFound err), d)
       | Inr r \<Rightarrow>
      (case payment_effect e d1 orderID oc r of
         Inl err \<Rightarrow> (Inl err, d)
       | Inr (d2, status) \<Rightarrow>
      (case stmt e 10 (case sql_set_payment_status e d2 paymentID status of
              Inl err \<Rightarrow> Inl err
            | Inr (d3, None) \<Rightarrow> Inl ErrNoRows
            | Inr (d3, Some p) \<Rightarrow> Inr (d3, p)) of
         Inl err \<Rightarrow> (Inl err, d)
       | Inr (d3, p) \<Rightarrow>
      (case event e 11 2 d3 ''payment'' paymentID (''payment.'' @ PaymentStatus_string status) ''''
              (PaymentStatus_string status) (MetaString ''outcome'' outcome) of
         Inl err \<Rightarrow> (Inl err, d)
       | Inr d4 \<Rightarrow>
         commit e 12 d d4 (Inr \<lparr>PaymentResult_Payment = payment_of_row p,
           PaymentResult_Duplicate = False\<rparr>)))))))))"

section \<open>Statements and the ledger\<close>

interpretation repaid: keyed_update payments_id
  "\<lambda>p. p\<lparr>payments_status := st, payments_updated_at := t\<rparr>" for st t
  by unfold_locales simp

lemma new_payment_sel [simp]:
  "payments_id (new_payment e pid oid key oc fp) = pid"
  "payments_order_id (new_payment e pid oid key oc fp) = oid"
  "payments_idempotency_key (new_payment e pid oid key oc fp) = key"
  "payments_status (new_payment e pid oid key oc fp) = StatusPending"
  "payments_request_fingerprint (new_payment e pid oid key oc fp) = fp"
  by (simp_all add: new_payment_def)

lemma insert_payment_Some:
  "sql_insert_payment e d pid oid key oc fp = Inr (Some d1) \<longleftrightarrow>
     key \<notin> payments_idempotency_key ` set (payments d) \<and> pid \<notin> payments_id ` set (payments d)
     \<and> oid \<in> orders_id ` set (orders d) \<and> d1 = d\<lparr>payments := payments d @ [new_payment e pid oid key oc fp]\<rparr>"
  by (auto simp: sql_insert_payment_def insert_payments_def)

lemma insert_payment_ledger:
  assumes l: "ledger es fs hs gs d" and u: "sql_insert_payment e d pid oid key oc fp = Inr (Some d1)"
  shows "ledger es fs hs gs d1"
proof -
  have "schema_ok d1"
    by (rule schema_insert_payments [OF ledgerD(1) [OF l] u [unfolded sql_insert_payment_def]])
  then show ?thesis using l u by (auto simp: insert_payment_Some ledger_def receipts_def)
qed

text \<open>A successful payment: the reserved units become sold and the reservation paid.\<close>

lemma pay_ledger:
  assumes l: "ledger es fs hs gs d" and r: "r \<in> set (reservations d)" "reservations_state r = ReservationConfirmed"
    and u: "sql_sell_inventory e d (reservations_product_id r) (reservations_quantity r) = Inr (d1, n)" "n \<noteq> 0"
  shows "ledger es fs hs (r # gs) (d1\<lparr>reservations := restated ReservationPaid t (reservations_id r) (reservations d)\<rparr>)"
    (is "ledger es fs hs (r # gs) ?d2")
proof -
  note sc = ledgerD(1) [OF l] and eq = u(1) [unfolded sql_sell_inventory_def]
  let ?f = "\<lambda>i. i\<lparr>inventory_reserved := inventory_reserved i - reservations_quantity r,
        inventory_sold := inventory_sold i + reservations_quantity r, inventory_updated_at := db_now e\<rparr>"
  have d1: "d1 = d\<lparr>inventory := update_where (\<lambda>i. inventory_product_id i = reservations_product_id r) ?f (inventory d)\<rparr>"
    using eq u(2) by (clarsimp simp: update_inventory_Inr guarded_hit [OF keysD(2) [OF sc]])
  note units = restated_units [OF keysD(4) [OF sc] r(1), where st = ReservationPaid and t = t]
  note fr = restated_frame [OF l r(1), where st = ReservationPaid and t = t]
  have sc1: "schema_ok d1" by (rule schema_update_inventory [OF sc eq]) simp
  then have "schema_ok ?d2" using restated_schema [OF sc1, where rid = "reservations_id r" and st = ReservationPaid and t = t] by (simp add: d1)
  moreover have "balanced es ?d2"
    using ledgerD(4) [OF l] r(2) by (auto simp: d1 balanced_def ball_update_where units held_state_def)
  moreover have "allocated fs ?d2" "limited ?d2"
    using ledgerD(5,6) [OF l] r(2) by (simp_all add: d1 allocated_def limited_def units active_state_def)
  moreover have "stocked ?d2" using ledgerD(2) [OF l] by (simp add: d1 stocked_def image_update_kept)
  moreover have "tied ?d2" "ordered hs ?d2" "followed (r # gs) ?d2" "receipts ?d2"
    using fr(3-6) r(2) by (simp_all add: d1 tied_def ordered_def followed_def receipts_def)
  ultimately show ?thesis by (simp add: ledger_def)
qed

lemma sell_inventory_total:
  assumes l: "ledger [] fs hs gs d" and r: "r \<in> set (reservations d)" "reservations_state r = ReservationConfirmed"
  shows "\<exists>d1. sql_sell_inventory e d (reservations_product_id r) (reservations_quantity r) = Inr (d1, 1)"
proof -
  note sc = ledgerD(1) [OF l] and bal = ledgerD(4) [OF l]
  have q: "0 < reservations_quantity r" by (rule schema_qty [OF sc r(1)])
  have qp: "0 \<le> reservations_quantity x" if "x \<in> set (reservations d)" for x using schema_qty [OF sc that] by simp
  obtain i where i: "i \<in> set (inventory d)" "inventory_product_id i = reservations_product_id r"
    by (rule inventory_row_of [OF ledgerD(2) [OF l] refsD(4) [OF sc r(1)]])
  have "reservations_quantity r \<le> held_units (reservations d) (reservations_product_id r)"
    unfolding held_units_def by (rule sum_where_member_le [OF qp r(1)]) (simp_all add: r(2) held_state_def)
  then have ge: "reservations_quantity r \<le> inventory_reserved i" using bal i by (auto simp: balanced_def)
  have ok: "inventory_check (j\<lparr>inventory_reserved := inventory_reserved j - reservations_quantity r,
      inventory_sold := inventory_sold j + reservations_quantity r, inventory_updated_at := t\<rparr>)"
    if "j \<in> set (inventory d)" "reservations_quantity r \<le> inventory_reserved j" for j t
  proof -
    have "inventory_sold j + inventory_reserved j \<le> inventory_expected_total j"
      using inventory_checkD [OF sc that(1)] bal that(1) by (auto simp: inventory_check_def balanced_def)
    then show ?thesis using inventory_checkD [OF sc that(1)] that(2) q by (auto simp: inventory_check_def int4_def)
  qed
  have "rows_where (\<lambda>i. inventory_product_id i = reservations_product_id r
      \<and> reservations_quantity r \<le> inventory_reserved i) (inventory d) = 1"
    using guarded_update [OF keysD(2) [OF sc], of "reservations_product_id r"
        "\<lambda>i. reservations_quantity r \<le> inventory_reserved i" id] i ge by auto
  then show ?thesis using ok by (auto simp: sql_sell_inventory_def update_inventory_Inr)
qed

lemma set_order_state_eq:
  assumes "schema_ok d" and "x \<in> set (orders d)"
  shows "sql_set_order_state e d (orders_id x) st
    = sql_set_order_state_of_reservation (db_now e) d (orders_reservation_id x) st"
proof -
  have "orders_id y = orders_id x \<longleftrightarrow> orders_reservation_id y = orders_reservation_id x" if "y \<in> set (orders d)" for y
    using distinct_key_eq [OF keysD(5) [OF assms(1)] that assms(2)]
      distinct_key_eq [OF keysD(6) [OF assms(1)] that assms(2)] by auto
  then show ?thesis
    unfolding sql_set_order_state_def sql_set_order_state_of_reservation_def update_orders_def checked_update_def
    by (simp add: list_all_iff update_where_def rows_where_def cong: filter_cong map_cong)
qed

lemma followed_weaken: "ledger es fs hs gs d \<Longrightarrow> ledger es fs hs (x # gs) d"
  by (simp add: ledger_def followed_def)

lemma set_payment_status_eq:
  "sql_set_payment_status e d pid st =
     Inr (d\<lparr>payments := update_where (\<lambda>p. payments_id p = pid)
        (\<lambda>p. p\<lparr>payments_status := st, payments_updated_at := db_now e\<rparr>) (payments d)\<rparr>,
      map_option (\<lambda>p. p\<lparr>payments_status := st, payments_updated_at := db_now e\<rparr>)
        (find (\<lambda>p. payments_id p = pid) (payments d)))"
  by (induction "payments d")
    (auto simp: sql_set_payment_status_def update_payments_def checked_update_def list_all_iff
      repaid.find_update find_Some_iff intro!: option.map_cong0)

lemma payment_status_ledger:
  assumes l: "ledger es fs hs gs d" and u: "sql_set_payment_status e d pid st = Inr (d1, p)"
    and paid: "\<And>y x r. st = StatusSucceeded \<Longrightarrow> y \<in> set (payments d) \<Longrightarrow> payments_id y = pid \<Longrightarrow>
       x \<in> set (orders d) \<Longrightarrow> orders_id x = payments_order_id y \<Longrightarrow> r \<in> set (reservations d) \<Longrightarrow>
       reservations_id r = orders_reservation_id x \<Longrightarrow> reservations_state r = ReservationPaid"
  shows "ledger es fs hs gs d1"
proof -
  have d1: "d1 = d\<lparr>payments := update_where (\<lambda>p. payments_id p = pid)
       (\<lambda>p. p\<lparr>payments_status := st, payments_updated_at := db_now e\<rparr>) (payments d)\<rparr>"
    using u by (simp add: set_payment_status_eq)
  have "update_payments d (\<lambda>p. payments_id p = pid)
       (\<lambda>p. p\<lparr>payments_status := st, payments_updated_at := db_now e\<rparr>)
      = Inr (d1, rows_where (\<lambda>p. payments_id p = pid) (payments d))"
    by (simp add: update_payments_Inr d1)
  then have "schema_ok d1" by (rule schema_update_payments [OF ledgerD(1) [OF l]]) simp_all
  moreover have "receipts d1"
    using ledgerD(9) [OF l] paid by (simp add: d1 receipts_def ball_update_where)
  ultimately show ?thesis using l by (simp add: ledger_def d1)
qed

section \<open>SimulatePayment, case by case\<close>

abbreviation order_arg :: "PaymentRequest \<Rightarrow> string" where
  "order_arg request \<equiv> TrimSpace (PaymentRequest_OrderID request)"

abbreviation outcome_arg :: "PaymentRequest \<Rightarrow> string" where
  "outcome_arg request \<equiv> ToLower (TrimSpace (PaymentRequest_Outcome request))"

abbreviation key_arg :: "PaymentRequest \<Rightarrow> string" where
  "key_arg request \<equiv> TrimSpace (PaymentRequest_IdempotencyKey request)"

lemma payment_effect_cases:
  assumes "payment_effect e d oid oc r = Inr (d', status)"
  obtains (delayed) "oc = Delayed" "d' = d" "status = StatusPending"
  | (failed) n where "oc = Failed" "held_state (reservations_state r)"
      "sql_set_order_state e d oid OrderPaymentFailed = Inr (d', n)" "status = StatusFailed"
  | (paid) d1 d2 n2 d3 n3 where "oc = Successful" "reservations_state r = ReservationConfirmed"
      "sql_sell_inventory e d (reservations_product_id r) (reservations_quantity r) = Inr (d1, 1)"
      "sql_set_reservation_state (db_now e) d1 (reservations_id r) ReservationPaid = Inr (d2, n2)"
      "sql_set_order_state e d2 oid OrderPaid = Inr (d3, n3)"
      "event e 8 1 d3 ''reservation'' (reservations_id r) ''reservation.paid'' ''confirmed'' ''paid'' MetaNull = Inr d'"
      "status = StatusSucceeded"
  using assms unfolding payment_effect_def
  by (cases oc) (auto simp: held_state_def split: if_splits sum.splits prod.splits)

lemma sell_frame:
  "sql_sell_inventory e d pid q = Inr (d1, n) \<Longrightarrow> \<exists>rows. d1 = d\<lparr>inventory := rows\<rparr>"
  by (auto simp: sql_sell_inventory_def update_inventory_Inr)

lemma order_frame:
  "sql_set_order_state e d oid st = Inr (d1, n) \<Longrightarrow> \<exists>rows. d1 = d\<lparr>orders := rows\<rparr>
     \<and> map (\<lambda>x. (orders_id x, orders_reservation_id x)) rows = map (\<lambda>x. (orders_id x, orders_reservation_id x)) (orders d)"
  by (auto simp: sql_set_order_state_def update_orders_Inr map_update_kept)

lemma payment_effect_ledger:
  assumes l: "ledger [] [] [] [] d" and x: "x \<in> set (orders d)" "orders_id x = oid"
    and r: "r \<in> set (reservations d)" "reservations_id r = orders_reservation_id x"
    and u: "payment_effect e d oid oc r = Inr (d', status)"
  shows "ledger [] [] [] [] d'" "payments d' = payments d" "answered K d \<Longrightarrow> answered K d'"
    "status = StatusSucceeded \<Longrightarrow> y \<in> set (orders d') \<Longrightarrow> orders_id y = oid \<Longrightarrow> z \<in> set (reservations d') \<Longrightarrow>
       reservations_id z = orders_reservation_id y \<Longrightarrow> reservations_state z = ReservationPaid"
proof -
  note sc = ledgerD(1) [OF l]
  have "ledger [] [] [] [] d' \<and> payments d' = payments d \<and> (answered K d \<longrightarrow> answered K d')
     \<and> (status = StatusSucceeded \<longrightarrow> (\<forall>y \<in> set (orders d'). orders_id y = oid \<longrightarrow> (\<forall>z \<in> set (reservations d').
         reservations_id z = orders_reservation_id y \<longrightarrow> reservations_state z = ReservationPaid)))"
    using u
  proof (cases rule: payment_effect_cases)
    case delayed
    then show ?thesis using l by simp
  next
    case (failed n)
    have "ledger [] [] [] [] d'"
    proof (rule order_move_ledger(1) [OF followed_weaken [OF l]])
      show "sql_set_order_state_of_reservation (db_now e) d (reservations_id r) OrderPaymentFailed = Inr (d', n)"
        using failed(3) set_order_state_eq [OF sc x(1), of e] x(2) r(2) by simp
      show "order_follows (reservations_state z) OrderPaymentFailed"
        if "z \<in> set (reservations d)" "reservations_id z = reservations_id r" for z
        using distinct_key_eq [OF keysD(4) [OF sc] that(1) r(1) that(2)] failed(2) by (simp add: order_follows_def)
    qed
    then show ?thesis using order_frame [OF failed(3)] failed(4) by auto
  next
    case (paid d1 d2 n2 d3 n3)
    obtain rows where d1: "d1 = d\<lparr>inventory := rows\<rparr>" using sell_frame [OF paid(3)] by blast
    have "ledger [] [] [] [r] (d1\<lparr>reservations := restated ReservationPaid (db_now e) (reservations_id r) (reservations d)\<rparr>)"
      by (rule pay_ledger [OF l r(1) paid(2,3)]) simp
    moreover have d2: "d2 = d1\<lparr>reservations := restated ReservationPaid (db_now e) (reservations_id r) (reservations d)\<rparr>"
      using paid(4) by (simp add: sql_set_reservation_state_def update_reservations_Inr d1)
    ultimately have l2: "ledger [] [] [] [r] d2" by simp
    have x2: "x \<in> set (orders d2)" using x(1) by (simp add: d2 d1)
    have move: "sql_set_order_state_of_reservation (db_now e) d2 (reservations_id r) OrderPaid = Inr (d3, n3)"
      using paid(5) set_order_state_eq [OF ledgerD(1) [OF l2] x2, of e] x(2) r(2) by simp
    have rp: "\<forall>z \<in> set (reservations d2). reservations_id z = reservations_id r \<longrightarrow> reservations_state z = ReservationPaid"
      using restated_state [where rid = "reservations_id r" and st = ReservationPaid and t = "db_now e" and rs = "reservations d"]
      by (simp add: d2)
    have "ledger [] [] [] [] d3"
      by (rule order_move_ledger(1) [OF l2 move]) (use rp in \<open>simp add: order_follows_def\<close>)
    then have "ledger [] [] [] [] d'" by (rule event_ledger [OF _ paid(6)])
    moreover obtain rows' where d3: "d3 = d2\<lparr>orders := rows'\<rparr>"
        "map (\<lambda>x. (orders_id x, orders_reservation_id x)) rows' = map (\<lambda>x. (orders_id x, orders_reservation_id x)) (orders d2)"
      using order_frame [OF paid(5)] by blast
    moreover have "orders_reservation_id y = reservations_id r" if "y \<in> set rows'" "orders_id y = oid" for y
    proof -
      have "(orders_id y, orders_reservation_id y) \<in> (\<lambda>x. (orders_id x, orders_reservation_id x)) ` set (orders d)"
        using imageI [OF that(1), of "\<lambda>x. (orders_id x, orders_reservation_id x)"] arg_cong [OF d3(2), of set]
        by (simp add: d2 d1)
      then obtain w where "w \<in> set (orders d)" "orders_id y = orders_id w" "orders_reservation_id y = orders_reservation_id w"
        by blast
      then show ?thesis using distinct_key_eq [OF keysD(5) [OF sc] _ x(1)] x(2) r(2) that(2) by metis
    qed
    moreover have "answered K d2" if "answered K d"
      using restated_answered [of K d1] that by (simp add: d2 d1)
    moreover have "reservations d' = reservations d2" "payments d' = payments d" "orders d' = orders d3"
        "answered K d' = answered K d3"
      using paid(6) by (auto simp: event_Inr d3(1) d2 d1)
    ultimately show ?thesis using rp by simp
  qed
  then show "ledger [] [] [] [] d'" "payments d' = payments d" "answered K d \<Longrightarrow> answered K d'"
    "status = StatusSucceeded \<Longrightarrow> y \<in> set (orders d') \<Longrightarrow> orders_id y = oid \<Longrightarrow> z \<in> set (reservations d') \<Longrightarrow>
       reservations_id z = orders_reservation_id y \<Longrightarrow> reservations_state z = ReservationPaid"
    by blast+
qed

lemma order_reservation_Some:
  assumes "schema_ok d" and "sql_order_reservation d oid = Some r"
  obtains x where "x \<in> set (orders d)" "orders_id x = oid" "r \<in> set (reservations d)"
    "reservations_id r = orders_reservation_id x"
  using assms(2) find_Some_iff_key [OF keysD(5) [OF assms(1)]] find_Some_iff_key [OF keysD(4) [OF assms(1)]]
  by (auto simp: sql_order_reservation_def split: option.splits)

lemma Simulate_cases:
  assumes "SimulatePayment e d request = (res, d')"
  obtains (same) "d' = d"
  | (applied) pid oc d1 r d2 status d3 p where "order_arg request \<noteq> ''''" "key_arg request \<noteq> ''''"
      "NewID (rand e 0) = Inr pid"
      "parse_outcome (outcome_arg request) = Some oc"
      "sql_insert_payment e d pid (order_arg request)
         (key_arg request) oc (payment_fingerprint e (order_arg request) (outcome_arg request)) = Inr (Some d1)"
      "sql_order_reservation d1 (order_arg request) = Some r"
      "payment_effect e d1 (order_arg request) oc r = Inr (d2, status)"
      "sql_set_payment_status e d2 pid status = Inr (d3, Some p)"
      "event e 11 2 d3 ''payment'' pid (''payment.'' @ PaymentStatus_string status) ''''
         (PaymentStatus_string status) (MetaString ''outcome'' (outcome_arg request)) = Inr d'"
      "res = Inr \<lparr>PaymentResult_Payment = payment_of_row p, PaymentResult_Duplicate = False\<rparr>
         \<or> res = Inl (OtherError ''commit'')"
  using assms unfolding SimulatePayment_def Let_def replay_payment_def
  by (auto simp: commit_def split: if_splits sum.splits fault.splits prod.splits option.splits)

lemma Simulate_good:
  assumes g: "good d"
  shows "good (snd (SimulatePayment e d request))"
proof (cases "SimulatePayment e d request")
  case (Pair res d')
  from Pair show ?thesis
  proof (cases rule: Simulate_cases)
    case same
    with Pair g show ?thesis by simp
  next
    case (applied pid oc d1 r d2 status d3 p)
    let ?oid = "order_arg request"
    have l: "ledger [] [] [] [] d" and a: "answered {} d" using g by (simp_all add: good_def)
    have l1: "ledger [] [] [] [] d1" by (rule insert_payment_ledger [OF l applied(5)])
    obtain x where x: "x \<in> set (orders d1)" "orders_id x = ?oid" "r \<in> set (reservations d1)"
      "reservations_id r = orders_reservation_id x" by (rule order_reservation_Some [OF ledgerD(1) [OF l1] applied(6)])
    note eff = payment_effect_ledger [OF l1 x applied(7)]
    have ins: "d1 = d\<lparr>payments := payments d @ [new_payment e pid ?oid (key_arg request) oc
          (payment_fingerprint e ?oid (outcome_arg request))]\<rparr>"
        "pid \<notin> payments_id ` set (payments d)"
      using applied(5) by (simp_all add: insert_payment_Some)
    have mine: "payments_order_id y = ?oid" if "y \<in> set (payments d2)" "payments_id y = pid" for y
      using that ins(2) unfolding eff(2) ins(1) by (auto simp: image_iff) (metis new_payment_sel(2))
    have "ledger [] [] [] [] d3"
      by (rule payment_status_ledger [OF eff(1) applied(8)]) (use mine eff(4) in metis)
    then have "ledger [] [] [] [] d'" by (rule event_ledger [OF _ applied(9)])
    moreover have "\<exists>rows. d3 = d2\<lparr>payments := rows\<rparr>"
      using applied(8) by (auto simp: set_payment_status_eq)
    then have "answered {} d3" using eff(3) [of "{}"] a ins(1) by auto
    then have "answered {} d'" using applied(9) by (auto simp: event_Inr)
    ultimately show ?thesis using Pair by (simp add: good_def)
  qed
qed

end
