(* ===== verification/Expiration.thy ===== *)
theory Expiration
  imports Booking
begin

text \<open>
  The expiration batch (\<open>src/internal/store/expiration.go\<close>). Round trips: 0 BEGIN, 1 select and
  mark, then four per expired reservation (inventory, sale, order, event), then COMMIT.
\<close>

record ExpirationResult =
  Expiration_Processed :: int
  Expiration_Expired :: int
  Expiration_Restored :: int

definition expire_candidates :: "env \<Rightarrow> db \<Rightarrow> nat \<Rightarrow> int \<Rightarrow> reservations_row list" where
  "expire_candidates e d batchSize at = take batchSize (sort_key reservations_expires_at
     (filter (\<lambda>r. reservations_state r = ReservationPending \<and> reservations_expires_at r \<le> at
        \<and> \<not> locked e (reservations_id r)) (reservations d)))"

definition sql_expire :: "env \<Rightarrow> db \<Rightarrow> nat \<Rightarrow> int \<Rightarrow> go_error + (db \<times> reservations_row list)" where
  "sql_expire e d batchSize at =
    (let candidates = expire_candidates e d batchSize at in
     map_sum id (\<lambda>(d', n). (d', candidates))
      (update_reservations d
        (\<lambda>r. reservations_id r \<in> reservations_id ` set candidates
           \<and> reservations_state r = ReservationPending)
        (\<lambda>r. r\<lparr>reservations_state := ReservationExpired, reservations_updated_at := at\<rparr>)))"

fun expire_loop :: "env \<Rightarrow> int \<Rightarrow> nat \<Rightarrow> reservations_row list \<Rightarrow> db \<Rightarrow> go_error + db" where
  "expire_loop e at i [] d = Inr d"
| "expire_loop e at i (r # rs) d =
    (case stmt e (2 + 4 * i) (sql_release_inventory at d (reservations_product_id r)
            (reservations_quantity r)) of
       Inl err \<Rightarrow> Inl err
     | Inr (d1, n) \<Rightarrow>
       if n \<noteq> 1 then Inl (OtherError (''inventory invariant prevented restoration for reservation ''
            @ reservations_id r))
       else
    (case stmt e (3 + 4 * i) (sql_release_sale_stock at d1 (reservations_sale_id r)
            (reservations_quantity r)) of
       Inl err \<Rightarrow> Inl err
     | Inr (d2, n2) \<Rightarrow>
    (case stmt e (4 + 4 * i) (sql_set_order_state_of_reservation at d2 (reservations_id r) OrderExpired) of
       Inl err \<Rightarrow> Inl err
     | Inr (d3, n3) \<Rightarrow>
    (case event e (5 + 4 * i) i d3 ''reservation'' (reservations_id r) ''reservation.expired'' ''pending''
            ''expired'' (MetaInt ''restored'' (reservations_quantity r)) of
       Inl err \<Rightarrow> Inl err
     | Inr d4 \<Rightarrow> expire_loop e at (Suc i) rs d4))))"

definition ExpireBatch :: "env \<Rightarrow> db \<Rightarrow> int \<Rightarrow> int \<Rightarrow> ExpirationResult outcome" where
  "ExpireBatch e d batchSize at =
    (if batchSize \<le> 0 \<or> 1000 < batchSize
     then (Inl (OtherError ''batch size must be between 1 and 1000''), d)
     else case stmt e 0 (Inr ()) of Inl err \<Rightarrow> (Inl err, d) | Inr _ \<Rightarrow>
      (case stmt e 1 (sql_expire e d (nat batchSize) at) of
         Inl err \<Rightarrow> (Inl err, d)
       | Inr (d1, expired) \<Rightarrow>
      (case expire_loop e at 0 expired d1 of
         Inl err \<Rightarrow> (Inl err, d)
       | Inr d2 \<Rightarrow>
         let count = int (length expired) in
         commit e (2 + 4 * length expired) d d2
           (Inr \<lparr>Expiration_Processed = count, Expiration_Expired = count,
              Expiration_Restored = count\<rparr>))))"

section \<open>The batch and the ledger\<close>

lemma candidates_props:
  assumes "distinct (map reservations_id (reservations d))"
  shows "set (expire_candidates e d n at) \<subseteq> set (reservations d)"
    "distinct (map reservations_id (expire_candidates e d n at))"
    "r \<in> set (expire_candidates e d n at) \<Longrightarrow> reservations_state r = ReservationPending
       \<and> reservations_expires_at r \<le> at \<and> \<not> locked e (reservations_id r)"
    "length (expire_candidates e d n at) \<le> n"
proof -
  let ?xs = "sort_key reservations_expires_at (filter (\<lambda>r. reservations_state r = ReservationPending
      \<and> reservations_expires_at r \<le> at \<and> \<not> locked e (reservations_id r)) (reservations d))"
  have sub: "set (expire_candidates e d n at) \<subseteq> set ?xs"
    unfolding expire_candidates_def by (rule set_take_subset)
  then show "set (expire_candidates e d n at) \<subseteq> set (reservations d)"
    and "r \<in> set (expire_candidates e d n at) \<Longrightarrow> reservations_state r = ReservationPending
       \<and> reservations_expires_at r \<le> at \<and> \<not> locked e (reservations_id r)" by auto
  have "distinct (map reservations_id ?xs)"
    using assms by (auto simp: distinct_map intro: inj_on_subset)
  then show "distinct (map reservations_id (expire_candidates e d n at))"
    unfolding expire_candidates_def by (simp add: distinct_take flip: take_map)
  show "length (expire_candidates e d n at) \<le> n" by (simp add: expire_candidates_def)
qed

abbreviation expired_rows :: "int \<Rightarrow> reservations_row list \<Rightarrow> reservations_row list \<Rightarrow> reservations_row list" where
  "expired_rows at cs rs \<equiv> update_where (\<lambda>r. reservations_id r \<in> reservations_id ` set cs
       \<and> reservations_state r = ReservationPending)
     (\<lambda>r. r\<lparr>reservations_state := ReservationExpired, reservations_updated_at := at\<rparr>) rs"

lemma sql_expire_eq:
  assumes "schema_ok d"
  shows "sql_expire e d n at = Inr (d\<lparr>reservations := expired_rows at (expire_candidates e d n at) (reservations d)\<rparr>,
     expire_candidates e d n at)"
proof -
  have "reservations_check (r\<lparr>reservations_state := ReservationExpired, reservations_updated_at := at\<rparr>)"
    if "r \<in> set (reservations d)" for r
    using assms that by (auto simp: schema_defs list_all_iff reservations_check_def)
  then show ?thesis
    by (simp add: sql_expire_def Let_def update_reservations_def checked_update_def list_all_iff)
qed

lemma sql_expire_ledger:
  assumes l: "ledger [] [] [] [] d" and u: "sql_expire e d n at = Inr (d1, cs)"
  shows "cs = expire_candidates e d n at" "ledger cs cs [] cs d1"
    "\<forall>z \<in> set (reservations d1). reservations_id z \<in> reservations_id ` set cs \<longrightarrow> reservations_state z = ReservationExpired"
    "answered K d \<Longrightarrow> answered K d1"
proof -
  note sc = ledgerD(1) [OF l]
  note cand = candidates_props [OF keysD(4) [OF sc], where e = e and n = n and at = at]
  show cs: "cs = expire_candidates e d n at" using u by (simp add: sql_expire_eq [OF sc])
  have d1: "d1 = d\<lparr>reservations := expired_rows at cs (reservations d)\<rparr>"
    using u by (auto simp: sql_expire_eq [OF sc])
  have hit: "reservations_state r = ReservationPending"
    if r: "r \<in> set (reservations d)" "reservations_id r \<in> reservations_id ` set cs" for r
  proof -
    from r(2) obtain c where c: "c \<in> set cs" "reservations_id r = reservations_id c" by blast
    then have "r = c" using cand(1) cs distinct_key_eq [OF keysD(4) [OF sc] r(1)] by blast
    then show ?thesis using cand(3) c(1) cs by blast
  qed
  have "update_reservations d (\<lambda>r. reservations_id r \<in> reservations_id ` set cs \<and> reservations_state r = ReservationPending)
      (\<lambda>r. r\<lparr>reservations_state := ReservationExpired, reservations_updated_at := at\<rparr>)
      = Inr (d1, rows_where (\<lambda>r. reservations_id r \<in> reservations_id ` set cs \<and> reservations_state r = ReservationPending) (reservations d))"
    using sc by (auto simp: update_reservations_Inr d1 schema_defs list_all_iff reservations_check_def)
  then have "ledger (cs @ []) (cs @ []) [] (cs @ []) d1"
    using cand hit by (intro mark_ledger [OF l]) (auto simp: cs)
  then show "ledger cs cs [] cs d1" by simp
  show "\<forall>z \<in> set (reservations d1). reservations_id z \<in> reservations_id ` set cs \<longrightarrow> reservations_state z = ReservationExpired"
    using hit by (simp add: d1 ball_update_where)
  show "answered K d1" if "answered K d"
    by (rule answered_mono [OF that]) (auto simp: d1 bex_update_kept)
qed

lemma expire_loop_ledger:
  assumes "ledger cs cs [] cs d"
    and "\<And>c. c \<in> set cs \<Longrightarrow> 0 \<le> reservations_quantity c \<and> reservations_product_id c \<in> products_id ` set (products d)"
    and "\<forall>z \<in> set (reservations d). reservations_id z \<in> reservations_id ` set cs \<longrightarrow> reservations_state z = ReservationExpired"
    and "expire_loop e at i cs d = Inr d'"
  shows "ledger [] [] [] [] d' \<and> reservations d' = reservations d \<and> idempotency_keys d' = idempotency_keys d"
  using assms
proof (induction cs arbitrary: i d)
  case (Cons c cs)
  have pos: "0 \<le> reservations_quantity y" if "y \<in> set cs" for y
    using Cons.prems(2) that by auto
  have c': "0 \<le> reservations_quantity c" "reservations_product_id c \<in> products_id ` set (products d)"
    using Cons.prems(2) by simp_all
  obtain r1 where r1: "sql_release_inventory at d (reservations_product_id c) (reservations_quantity c)
      = Inr (d\<lparr>inventory := r1\<rparr>, 1)" "ledger cs (c # cs) [] (c # cs) (d\<lparr>inventory := r1\<rparr>)"
    by (rule release_inventory_ledger [OF Cons.prems(1) c'(1) pos c'(2)])
  obtain r2 n2 where r2: "sql_release_sale_stock at (d\<lparr>inventory := r1\<rparr>) (reservations_sale_id c) (reservations_quantity c)
      = Inr (d\<lparr>inventory := r1, flash_sales := r2\<rparr>, n2)" "ledger cs cs [] (c # cs) (d\<lparr>inventory := r1, flash_sales := r2\<rparr>)"
    by (rule release_sale_ledger [OF r1(2) c'(1) pos])
  have "\<forall>z \<in> set (reservations d). reservations_id z = reservations_id c \<longrightarrow> reservations_state z = ReservationExpired"
    using Cons.prems(3) by simp
  then obtain r3 n3 where r3: "sql_set_order_state_of_reservation at (d\<lparr>inventory := r1, flash_sales := r2\<rparr>)
        (reservations_id c) OrderExpired = Inr (d\<lparr>inventory := r1, flash_sales := r2, orders := r3\<rparr>, n3)"
      "ledger cs cs [] cs (d\<lparr>inventory := r1, flash_sales := r2, orders := r3\<rparr>)"
    using order_state_ledger [OF r2(2), of OrderExpired at] by (auto simp: order_follows_def)
  let ?d3 = "d\<lparr>inventory := r1, flash_sales := r2, orders := r3\<rparr>"
  obtain d4 where d4: "event e (5 + 4 * i) i ?d3 ''reservation'' (reservations_id c) ''reservation.expired'' ''pending''
        ''expired'' (MetaInt ''restored'' (reservations_quantity c)) = Inr d4"
      "expire_loop e at (Suc i) cs d4 = Inr d'"
    using Cons.prems(4) r1(1) r2(1) r3(1) by (auto simp: split: sum.splits)
  have same: "reservations d4 = reservations d" "idempotency_keys d4 = idempotency_keys d" "products d4 = products d"
    using d4(1) by (auto simp: event_Inr)
  have "ledger [] [] [] [] d' \<and> reservations d' = reservations d4 \<and> idempotency_keys d' = idempotency_keys d4"
    by (rule Cons.IH [OF event_ledger [OF r3(2) d4(1)] _ _ d4(2)]) (use Cons.prems(2,3) same in auto)
  then show ?case by (simp add: same)
qed simp

lemma Expire_cases:
  assumes "ExpireBatch e d batchSize at = (res, d')"
  obtains (abort) err where "res = Inl err" "d' = d"
  | (expired) d1 cs where "0 < batchSize" "batchSize \<le> 1000" "sql_expire e d (nat batchSize) at = Inr (d1, cs)"
      "expire_loop e at 0 cs d1 = Inr d'"
      "res = Inr \<lparr>Expiration_Processed = int (length cs), Expiration_Expired = int (length cs),
         Expiration_Restored = int (length cs)\<rparr> \<or> res = Inl (OtherError ''commit'')"
  using assms unfolding ExpireBatch_def Let_def
  by (auto simp: commit_def split: if_splits sum.splits fault.splits prod.splits)

lemma Expire_good:
  assumes g: "good d"
  shows "good (snd (ExpireBatch e d batchSize at))"
proof (cases "ExpireBatch e d batchSize at")
  case (Pair res d')
  from Pair show ?thesis
  proof (cases rule: Expire_cases)
    case abort
    with Pair g show ?thesis by simp
  next
    case (expired d1 cs)
    have l: "ledger [] [] [] [] d" and a: "answered {} d" using g by (simp_all add: good_def)
    note ex = sql_expire_ledger [OF l expired(3)]
    note sc = ledgerD(1) [OF l]
    have cs: "0 \<le> reservations_quantity c \<and> reservations_product_id c \<in> products_id ` set (products d1)"
      if "c \<in> set cs" for c
    proof -
      have "c \<in> set (reservations d)" using that ex(1) candidates_props(1) [OF keysD(4) [OF sc]] by blast
      moreover have "products d1 = products d" using expired(3) by (auto simp: sql_expire_eq [OF sc])
      ultimately show ?thesis using schema_qty [OF sc] refsD(4) [OF sc] by (simp add: less_imp_le)
    qed
    have d': "ledger [] [] [] [] d'" "reservations d' = reservations d1" "idempotency_keys d' = idempotency_keys d1"
      using expire_loop_ledger [OF ex(2) cs ex(3) expired(4)] by simp_all
    have "answered {} d'" by (rule answered_mono [OF ex(4) [OF a] d'(3)]) (auto simp: d'(2))
    with d'(1) show ?thesis using Pair by (simp add: good_def)
  qed
qed

end
