(* ===== verification/Catalog.thy ===== *)
theory Catalog
  imports Stock
begin

text \<open>
  Products and sales (\<open>src/internal/store/catalog.go\<close>) and the order queries
  (\<open>src/internal/store/orders.go\<close>). A nil pointer field of an update input is \<open>None\<close>.
\<close>

record CreateProductInput =
  CreateProduct_SKU :: string
  CreateProduct_Name :: string
  CreateProduct_Description :: string
  CreateProduct_PriceMinor :: int
  CreateProduct_Currency :: string
  CreateProduct_Inventory :: int
  CreateProduct_Active :: bool

record UpdateProductInput =
  UpdateProduct_Name :: "string option"
  UpdateProduct_Description :: "string option"
  UpdateProduct_PriceMinor :: "int option"
  UpdateProduct_Active :: "bool option"
  UpdateProduct_Inventory :: "int option"

record CreateSaleInput =
  CreateSale_ProductID :: string
  CreateSale_StartsAt :: int
  CreateSale_EndsAt :: int
  CreateSale_AllocatedStock :: int
  CreateSale_MaxQuantityPerUser :: int

section \<open>Products\<close>

definition product_of :: "products_row \<Rightarrow> inventory_row \<Rightarrow> Product" where
  "product_of p i = \<lparr>Product_ID = products_id p, Product_SKU = products_sku p,
     Product_Name = products_name p, Product_Description = products_description p,
     Product_PriceMinor = products_price_minor p, Product_Currency = products_currency p,
     Product_Active = products_active p, Product_Available = inventory_available i,
     Product_Reserved = inventory_reserved i, Product_Sold = inventory_sold i,
     Product_CreatedAt = products_created_at p, Product_UpdatedAt = products_updated_at p\<rparr>"

definition zero_Product :: Product where
  "zero_Product = \<lparr>Product_ID = '''', Product_SKU = '''', Product_Name = '''',
     Product_Description = '''', Product_PriceMinor = 0, Product_Currency = '''',
     Product_Active = False, Product_Available = 0, Product_Reserved = 0, Product_Sold = 0,
     Product_CreatedAt = - 62135596800000000, Product_UpdatedAt = - 62135596800000000\<rparr>"

definition create_invalid :: "string \<Rightarrow> string \<Rightarrow> string \<Rightarrow> int \<Rightarrow> int \<Rightarrow> bool" where
  "create_invalid sku name currency price stock \<longleftrightarrow> sku = '''' \<or> name = '''' \<or> length currency \<noteq> 3
     \<or> price < 0 \<or> stock < 0"

definition CreateProduct :: "env \<Rightarrow> db \<Rightarrow> CreateProductInput \<Rightarrow> Product outcome" where
  "CreateProduct e d inp =
    (let sku = TrimSpace (CreateProduct_SKU inp); name = TrimSpace (CreateProduct_Name inp);
         currency = ToUpper (TrimSpace (CreateProduct_Currency inp)) in
     if create_invalid sku name currency (CreateProduct_PriceMinor inp) (CreateProduct_Inventory inp)
     then (Inl (domain_error ''VALIDATION_ERROR''
             ''SKU, name, currency, price, and inventory are invalid'' 400), d)
     else case NewID (rand e 0) of Inl err \<Rightarrow> (Inl err, d) | Inr pid \<Rightarrow>
      (case stmt e 0 (Inr ()) of Inl err \<Rightarrow> (Inl err, d) | Inr _ \<Rightarrow>
       let p = \<lparr>products_id = pid, products_sku = sku, products_name = name,
             products_description = CreateProduct_Description inp,
             products_price_minor = CreateProduct_PriceMinor inp, products_currency = currency,
             products_active = CreateProduct_Active inp, products_created_at = db_now e,
             products_updated_at = db_now e\<rparr>;
           i = \<lparr>inventory_product_id = pid, inventory_available = CreateProduct_Inventory inp,
             inventory_reserved = 0, inventory_sold = 0,
             inventory_expected_total = CreateProduct_Inventory inp, inventory_updated_at = db_now e\<rparr>
       in (case stmt e 1 (insert_products d p) of
             Inl err \<Rightarrow> (Inl (WrapError ''insert product'' err), d)
           | Inr d1 \<Rightarrow>
          (case stmt e 2 (insert_inventory d1 i) of
             Inl err \<Rightarrow> (Inl (WrapError ''insert inventory'' err), d)
           | Inr d2 \<Rightarrow> commit e 3 d d2 (Inr (product_of p i))))))"

definition sql_products :: "db \<Rightarrow> Product list" where
  "sql_products d = concat (map (\<lambda>p. map (product_of p)
     (filter (\<lambda>i. inventory_product_id i = products_id p) (inventory d))) (products d))"

definition ListProducts :: "env \<Rightarrow> db \<Rightarrow> go_error + Product list" where
  "ListProducts e d = stmt e 0 (Inr (take 100 (sort_key Product_CreatedAt (sql_products d))))"

definition GetProduct :: "env \<Rightarrow> nat \<Rightarrow> db \<Rightarrow> string \<Rightarrow> go_error + Product" where
  "GetProduct e n d pid =
     map_sum notFound id (stmt e n (query_row (find (\<lambda>p. Product_ID p = pid) (sql_products d))))"

definition coalesce :: "'a option \<Rightarrow> 'a \<Rightarrow> 'a" where
  "coalesce x y = (case x of Some v \<Rightarrow> v | None \<Rightarrow> y)"

definition sql_update_product :: "env \<Rightarrow> db \<Rightarrow> string \<Rightarrow> UpdateProductInput \<Rightarrow> go_error + (db \<times> nat)" where
  "sql_update_product e d pid inp = update_products d (\<lambda>p. products_id p = pid)
     (\<lambda>p. p\<lparr>products_name := coalesce (UpdateProduct_Name inp) (products_name p),
        products_description := coalesce (UpdateProduct_Description inp) (products_description p),
        products_price_minor := coalesce (UpdateProduct_PriceMinor inp) (products_price_minor p),
        products_active := coalesce (UpdateProduct_Active inp) (products_active p),
        products_updated_at := db_now e\<rparr>)"

definition sql_set_inventory :: "env \<Rightarrow> db \<Rightarrow> string \<Rightarrow> int \<Rightarrow> go_error + (db \<times> nat)" where
  "sql_set_inventory e d pid stock = update_inventory d (\<lambda>i. inventory_product_id i = pid)
     (\<lambda>i. i\<lparr>inventory_available := stock,
        inventory_expected_total := stock + inventory_reserved i + inventory_sold i,
        inventory_updated_at := db_now e\<rparr>)"

definition update_finish :: "env \<Rightarrow> db \<Rightarrow> db \<Rightarrow> string \<Rightarrow> Product outcome" where
  "update_finish e d d1 pid = (case commit e 3 d d1 (Inr ()) of
       (Inl err, d2) \<Rightarrow> (Inl err, d2)
     | (Inr _, d2) \<Rightarrow> (GetProduct e 4 d2 pid, d2))"

definition UpdateProduct :: "env \<Rightarrow> db \<Rightarrow> string \<Rightarrow> UpdateProductInput \<Rightarrow> Product outcome" where
  "UpdateProduct e d pid inp =
    (if (case UpdateProduct_PriceMinor inp of None \<Rightarrow> False | Some v \<Rightarrow> v < 0)
        \<or> (case UpdateProduct_Inventory inp of None \<Rightarrow> False | Some v \<Rightarrow> v < 0)
     then (Inl (domain_error ''VALIDATION_ERROR'' ''price and inventory cannot be negative'' 400), d)
     else case stmt e 0 (Inr ()) of Inl err \<Rightarrow> (Inl err, d) | Inr _ \<Rightarrow>
      (case stmt e 1 (sql_update_product e d pid inp) of
         Inl err \<Rightarrow> (Inl err, d)
       | Inr (d1, n1) \<Rightarrow>
         if n1 = 0 then (Inl ErrNotFound, d)
         else (case UpdateProduct_Inventory inp of
             None \<Rightarrow> update_finish e d d1 pid
           | Some stock \<Rightarrow>
            (case stmt e 2 (sql_set_inventory e d1 pid stock) of
               Inl err \<Rightarrow> (Inl err, d)
             | Inr (d2, n2) \<Rightarrow>
               if n2 = 0 then (Inr zero_Product, d) else update_finish e d d2 pid))))"

section \<open>Sales\<close>

definition sale_of_row :: "flash_sales_row \<Rightarrow> Sale" where
  "sale_of_row r = \<lparr>Sale_ID = flash_sales_id r, Sale_ProductID = flash_sales_product_id r,
     Sale_StartsAt = flash_sales_starts_at r, Sale_EndsAt = flash_sales_ends_at r,
     Sale_AllocatedStock = flash_sales_allocated_stock r,
     Sale_RemainingStock = flash_sales_remaining_stock r,
     Sale_MaxQuantityPerUser = flash_sales_max_quantity_per_user r, Sale_State = flash_sales_state r,
     Sale_CreatedAt = flash_sales_created_at r, Sale_UpdatedAt = flash_sales_updated_at r\<rparr>"

definition CreateSale :: "env \<Rightarrow> db \<Rightarrow> CreateSaleInput \<Rightarrow> Sale outcome" where
  "CreateSale e d inp =
    (if CreateSale_ProductID inp = '''' \<or> \<not> CreateSale_StartsAt inp < CreateSale_EndsAt inp
        \<or> CreateSale_AllocatedStock inp \<le> 0 \<or> CreateSale_MaxQuantityPerUser inp \<le> 0
     then (Inl (domain_error ''VALIDATION_ERROR'' ''sale schedule and quantities are invalid'' 400), d)
     else case NewID (rand e 0) of Inl err \<Rightarrow> (Inl err, d) | Inr sid \<Rightarrow>
       let st = (if go_now e < CreateSale_StartsAt inp then SaleScheduled else SaleDraft);
           r = \<lparr>flash_sales_id = sid, flash_sales_product_id = CreateSale_ProductID inp,
             flash_sales_starts_at = CreateSale_StartsAt inp, flash_sales_ends_at = CreateSale_EndsAt inp,
             flash_sales_allocated_stock = CreateSale_AllocatedStock inp,
             flash_sales_remaining_stock = CreateSale_AllocatedStock inp,
             flash_sales_max_quantity_per_user = CreateSale_MaxQuantityPerUser inp,
             flash_sales_state = st, flash_sales_created_at = db_now e,
             flash_sales_updated_at = db_now e\<rparr>
       in autocommit e 0 d (map_sum id (\<lambda>d1. (d1, sale_of_row r)) (insert_flash_sales d r)))"

definition ListSales :: "env \<Rightarrow> db \<Rightarrow> go_error + Sale list" where
  "ListSales e d = stmt e 0 (Inr (take 100 (sort_key Sale_CreatedAt (map sale_of_row (flash_sales d)))))"

definition GetSale :: "env \<Rightarrow> nat \<Rightarrow> db \<Rightarrow> string \<Rightarrow> go_error + Sale" where
  "GetSale e n d sid = map_sum notFound id (stmt e n (query_row (map_option sale_of_row
     (find (\<lambda>r. flash_sales_id r = sid) (flash_sales d)))))"

definition sql_set_sale_state :: "env \<Rightarrow> db \<Rightarrow> string \<Rightarrow> SaleState \<Rightarrow> go_error + (db \<times> nat)" where
  "sql_set_sale_state e d sid st = update_flash_sales d (\<lambda>r. flash_sales_id r = sid)
     (\<lambda>r. r\<lparr>flash_sales_state := st, flash_sales_updated_at := db_now e\<rparr>)"

definition SetSaleState :: "env \<Rightarrow> db \<Rightarrow> string \<Rightarrow> SaleState \<Rightarrow> Sale outcome" where
  "SetSaleState e d sid st =
    (if st \<noteq> SaleActive \<and> st \<noteq> SaleEnded \<and> st \<noteq> SaleCancelled
     then (Inl (domain_error ''VALIDATION_ERROR'' ''unsupported sale state'' 400), d)
     else case autocommit e 0 d (sql_set_sale_state e d sid st) of
         (Inl err, d1) \<Rightarrow> (Inl err, d1)
       | (Inr n, d1) \<Rightarrow> if n = 0 then (Inl ErrNotFound, d1) else (GetSale e 1 d1 sid, d1))"

section \<open>Orders\<close>

definition order_of_row :: "orders_row \<Rightarrow> Order" where
  "order_of_row r = \<lparr>Order_ID = orders_id r, Order_ReservationID = orders_reservation_id r,
     Order_SaleID = orders_sale_id r, Order_ProductID = orders_product_id r,
     Order_UserID = orders_user_id r, Order_Quantity = orders_quantity r,
     Order_AmountMinor = orders_amount_minor r, Order_Currency = orders_currency r,
     Order_State = orders_state r, Order_CreatedAt = orders_created_at r,
     Order_UpdatedAt = orders_updated_at r\<rparr>"

definition ListOrders :: "env \<Rightarrow> db \<Rightarrow> go_error + Order list" where
  "ListOrders e d =
     stmt e 0 (Inr (take 100 (sort_key (\<lambda>r. - Order_CreatedAt r) (map order_of_row (orders d)))))"

definition GetOrder :: "env \<Rightarrow> db \<Rightarrow> string \<Rightarrow> go_error + Order" where
  "GetOrder e d oid = map_sum notFound id (stmt e 0 (query_row (map_option order_of_row
     (find (\<lambda>r. orders_id r = oid) (orders d)))))"

section \<open>The catalogue and the ledger\<close>

lemma new_product_ledger:
  assumes l: "ledger es fs hs gs d" and es: "es = []"
    and p: "insert_products d p = Inr d1" and i: "insert_inventory d1 i = Inr d2"
    and pi: "inventory_product_id i = products_id p"
    and zero: "inventory_reserved i = 0" "inventory_sold i = 0" "inventory_expected_total i = inventory_available i"
  shows "ledger es fs hs gs d2"
proof -
  note sc = ledgerD(1) [OF l]
  have new: "products_id p \<notin> products_id ` set (products d)" and d2: "d2 = d\<lparr>products := products d @ [p], inventory := inventory d @ [i]\<rparr>"
    using p i by (auto simp: insert_products_def insert_inventory_def split: if_splits)
  have "schema_ok d2" by (rule schema_insert_inventory [OF schema_insert_products [OF sc p] i])
  moreover have "stocked d2" using ledgerD(2) [OF l] by (auto simp: d2 stocked_def pi)
  moreover have "reservations_product_id r \<noteq> products_id p" if "r \<in> set (reservations d)" for r
    using refsD(4) [OF sc that] new by auto
  then have "held_units (reservations d) (products_id p) = 0" "paid_units (reservations d) (products_id p) = 0"
    unfolding unit_defs by (auto intro!: sum_where_zero)
  then have "balanced es d2" using ledgerD(4) [OF l] zero es by (auto simp: d2 balanced_def pi)
  ultimately show ?thesis using l by (simp add: ledger_def d2)
qed

lemma new_sale_ledger:
  assumes l: "ledger es fs hs gs d" and fs: "fs = []" and u: "insert_flash_sales d s = Inr d1"
    and full: "flash_sales_remaining_stock s = flash_sales_allocated_stock s"
  shows "ledger es fs hs gs d1"
proof -
  note sc = ledgerD(1) [OF l]
  have new: "flash_sales_id s \<notin> flash_sales_id ` set (flash_sales d)" "flash_sales_check s"
      and d1: "d1 = d\<lparr>flash_sales := flash_sales d @ [s]\<rparr>"
    using u by (auto simp: insert_flash_sales_def split: if_splits)
  have "reservations_sale_id r \<noteq> flash_sales_id s" if "r \<in> set (reservations d)" for r
    using refsD(3) [OF sc that] new by auto
  then have "active_units (reservations d) (flash_sales_id s) = 0" "user_units (reservations d) (flash_sales_id s) v = 0" for v
    unfolding unit_defs by (auto intro!: sum_where_zero)
  then have "allocated fs d1" "limited d1"
    using ledgerD(5,6) [OF l] new(2) full fs by (simp_all add: d1 allocated_def limited_def flash_sales_check_def)
  moreover have "schema_ok d1" by (rule schema_insert_flash_sales [OF sc u])
  moreover have "tied d1" using ledgerD(3) [OF l] by (auto simp: d1 tied_def)
  ultimately show ?thesis using l by (simp add: ledger_def d1)
qed

lemma insert_products_frame: "insert_products d p = Inr d1 \<Longrightarrow> d1 = d\<lparr>products := products d @ [p]\<rparr>"
  by (simp add: insert_products_def split: if_splits)

lemma insert_inventory_frame: "insert_inventory d i = Inr d1 \<Longrightarrow> d1 = d\<lparr>inventory := inventory d @ [i]\<rparr>"
  by (simp add: insert_inventory_def split: if_splits)

lemma insert_flash_sales_frame: "insert_flash_sales d s = Inr d1 \<Longrightarrow> d1 = d\<lparr>flash_sales := flash_sales d @ [s]\<rparr>"
  by (simp add: insert_flash_sales_def split: if_splits)

lemma CreateProduct_good:
  assumes g: "good d"
  shows "good (snd (CreateProduct e d inp))"
proof -
  have "good d2" if "insert_products d p = Inr d1" "insert_inventory d1 i = Inr d2"
      "inventory_product_id i = products_id p" "inventory_reserved i = 0" "inventory_sold i = 0"
      "inventory_expected_total i = inventory_available i" for p i d1 d2
    using new_product_ledger [OF _ refl that] g insert_products_frame [OF that(1)] insert_inventory_frame [OF that(2)]
    by (auto simp: good_def)
  then show ?thesis
    using g unfolding CreateProduct_def Let_def by (auto simp: snd_commit split: sum.split)
qed

lemma update_product_ledger:
  assumes l: "ledger es fs hs gs d" and u: "sql_update_product e d pid inp = Inr (d1, n)"
  shows "ledger es fs hs gs d1"
proof -
  have "schema_ok d1"
    by (rule schema_update_products [OF ledgerD(1) [OF l] u [unfolded sql_update_product_def]]) simp_all
  moreover have "stocked d1"
    using u ledgerD(2) [OF l] by (clarsimp simp: sql_update_product_def update_products_Inr stocked_def image_update_kept)
  ultimately show ?thesis using l u by (clarsimp simp: ledger_def sql_update_product_def update_products_Inr)
qed

lemma set_inventory_ledger:
  assumes l: "ledger es fs hs gs d" and u: "sql_set_inventory e d pid stock = Inr (d1, n)"
  shows "ledger es fs hs gs d1"
proof -
  have d1: "d1 = d\<lparr>inventory := update_where (\<lambda>i. inventory_product_id i = pid)
     (\<lambda>i. i\<lparr>inventory_available := stock,
        inventory_expected_total := stock + inventory_reserved i + inventory_sold i,
        inventory_updated_at := db_now e\<rparr>) (inventory d)\<rparr>"
    using u by (simp add: sql_set_inventory_def update_inventory_Inr)
  have "schema_ok d1"
    by (rule schema_update_inventory [OF ledgerD(1) [OF l] u [unfolded sql_set_inventory_def]]) simp
  moreover have "balanced es d1" using ledgerD(4) [OF l] by (simp add: d1 balanced_def ball_update_where)
  moreover have "stocked d1" using ledgerD(2) [OF l] by (simp add: d1 stocked_def image_update_kept)
  ultimately show ?thesis using l by (simp add: ledger_def d1)
qed

lemma update_finish_snd: "snd (update_finish e d d1 pid) = (if fault e 3 = Fails then d else d1)"
  by (auto simp: update_finish_def commit_def split: fault.split)

lemma Update_cases:
  assumes "UpdateProduct e d pid inp = (res, d')"
  obtains (same) "d' = d"
  | (product) n where "sql_update_product e d pid inp = Inr (d', n)" "n \<noteq> 0" "UpdateProduct_Inventory inp = None"
      "res = GetProduct e 4 d' pid \<or> res = Inl (OtherError ''commit'')"
  | (stock) d1 n stock m where "sql_update_product e d pid inp = Inr (d1, n)" "n \<noteq> 0"
      "UpdateProduct_Inventory inp = Some stock" "0 \<le> stock" "sql_set_inventory e d1 pid stock = Inr (d', m)"
      "res = GetProduct e 4 d' pid \<or> res = Inl (OtherError ''commit'')"
  using assms unfolding UpdateProduct_def update_finish_def
  by (simp only: split: if_split_asm sum.split_asm prod.split_asm option.split_asm)
    (auto simp: commit_def split: fault.split_asm)

lemma UpdateProduct_good:
  assumes g: "good d"
  shows "good (snd (UpdateProduct e d pid inp))"
proof (cases "UpdateProduct e d pid inp")
  case (Pair res d')
  have p: "good d1" if "sql_update_product e d pid inp = Inr (d1, n)" for d1 n
    using update_product_ledger [OF _ that] that g
    by (auto simp: good_def sql_update_product_def update_products_Inr)
  have i: "good d2" if "good d1" "sql_set_inventory e d1 pid stock = Inr (d2, m)" for d1 d2 m stock
    using set_inventory_ledger [OF _ that(2)] that
    by (auto simp: good_def sql_set_inventory_def update_inventory_Inr)
  from Pair show ?thesis by (cases rule: Update_cases) (use Pair g p i in auto)
qed

lemma snd_autocommit:
  "snd (autocommit e n d r) = (case r of Inl err \<Rightarrow> d | Inr (d1, x) \<Rightarrow> if fault e n = Fails then d else d1)"
  by (auto simp: autocommit_def snd_commit split: sum.split)

lemma CreateSale_good:
  assumes g: "good d"
  shows "good (snd (CreateSale e d inp))"
proof -
  have "good d1" if "insert_flash_sales d s = Inr d1" "flash_sales_remaining_stock s = flash_sales_allocated_stock s" for s d1
    using new_sale_ledger [OF _ refl that] g insert_flash_sales_frame [OF that(1)] by (auto simp: good_def)
  then show ?thesis
    using g unfolding CreateSale_def Let_def
    by (auto simp: snd_autocommit split: sum.split) (auto simp: map_sum_def split: sum.splits)
qed

lemma set_sale_state_ledger:
  assumes l: "ledger es fs hs gs d" and u: "sql_set_sale_state e d sid st = Inr (d1, n)"
  shows "ledger es fs hs gs d1"
proof -
  have d1: "d1 = d\<lparr>flash_sales := update_where (\<lambda>r. flash_sales_id r = sid)
     (\<lambda>r. r\<lparr>flash_sales_state := st, flash_sales_updated_at := db_now e\<rparr>) (flash_sales d)\<rparr>"
    using u by (simp add: sql_set_sale_state_def update_flash_sales_Inr)
  have "schema_ok d1"
    by (rule schema_update_flash_sales [OF ledgerD(1) [OF l] u [unfolded sql_set_sale_state_def]]) simp_all
  moreover have "allocated fs d1" "limited d1" using ledgerD(5,6) [OF l]
    by (simp_all add: d1 allocated_def limited_def ball_update_kept)
  moreover have "tied d1" using ledgerD(3) [OF l] by (simp add: d1 tied_def bex_update_kept)
  ultimately show ?thesis using l by (simp add: ledger_def d1)
qed

lemma snd_SetSaleState:
  "snd (SetSaleState e d sid st) = (if st \<noteq> SaleActive \<and> st \<noteq> SaleEnded \<and> st \<noteq> SaleCancelled then d
     else snd (autocommit e 0 d (sql_set_sale_state e d sid st)))"
  unfolding SetSaleState_def by (simp only: split: if_split prod.split sum.split) simp

lemma SetSaleState_good:
  assumes g: "good d"
  shows "good (snd (SetSaleState e d sid st))"
proof -
  have "good d1" if "sql_set_sale_state e d sid st = Inr (d1, n)" for d1 n
    using set_sale_state_ledger [OF _ that] that g
    by (auto simp: good_def sql_set_sale_state_def update_flash_sales_Inr)
  then show ?thesis using g by (auto simp: snd_SetSaleState snd_autocommit split: sum.split)
qed

end
