(* ===== verification/Demo.thy ===== *)
theory Demo
  imports Booking Catalog
begin

text \<open>
  The public demo (\<open>src/internal/store/demo.go\<close>): the globally budgeted anonymous reservation,
  resetting and seeding the demo data, and its status report.

  Round trips of \<open>ReservePublicDemo\<close>: 0 BEGIN, 1 advisory lock, 2 the two DELETEs, 3 EXISTS,
  4 count, 5 INSERT, 6 COMMIT, 7 find the sale; the nested \<open>Reserve\<close> has an environment of its own.
  \<open>ResetDemo\<close> numbers from a base: BEGIN, TRUNCATE, three inserts, COMMIT, then the queries
  of \<open>DemoStatus\<close>.
\<close>

record DemoStatusReport =
  Status_Product :: Product
  Status_Sale :: Sale
  Status_Reservations :: int
  Status_Orders :: int
  Status_DuplicateOrders :: int
  Status_InvariantPass :: bool

section \<open>The anonymous public reservation\<close>

definition sql_delete_expired :: "env \<Rightarrow> db \<Rightarrow> db" where
  "sql_delete_expired e d = d\<lparr>
     public_demo_actions := filter (\<lambda>a. \<not> public_demo_actions_created_at a < db_now e - 24 * 3600 * 1000000)
       (public_demo_actions d),
     idempotency_keys := filter (\<lambda>k. \<not> idempotency_keys_expires_at k < db_now e) (idempotency_keys d)\<rparr>"

definition sql_recent_actions :: "env \<Rightarrow> db \<Rightarrow> int" where
  "sql_recent_actions e d = int (length (filter (\<lambda>a. db_now e - 60 * 1000000
     < public_demo_actions_created_at a) (public_demo_actions d)))"

definition demo_admit :: "env \<Rightarrow> db \<Rightarrow> string \<Rightarrow> int \<Rightarrow> unit outcome" where
  "demo_admit e d key maxPerMinute =
    (case stmt e 0 (Inr ()) of Inl err \<Rightarrow> (Inl err, d) | Inr _ \<Rightarrow>
    (case stmt e 1 (Inr ()) of Inl err \<Rightarrow> (Inl err, d) | Inr _ \<Rightarrow>
    (case stmt e 2 (Inr (sql_delete_expired e d)) of Inl err \<Rightarrow> (Inl err, d) | Inr d1 \<Rightarrow>
    (case stmt e 3 (Inr (key \<in> public_demo_actions_idempotency_key ` set (public_demo_actions d1))) of
       Inl err \<Rightarrow> (Inl err, d)
     | Inr present \<Rightarrow>
       if present then commit e 6 d d1 (Inr ())
       else (case stmt e 4 (Inr (sql_recent_actions e d1)) of
           Inl err \<Rightarrow> (Inl err, d)
         | Inr recent \<Rightarrow>
           if maxPerMinute \<le> recent
           then (Inl (domain_error ''PUBLIC_DEMO_LIMIT_REACHED''
                  ''The public demo action budget is exhausted; retry later'' 429), d)
           else (case stmt e 5 (insert_public_demo_actions d1
                   \<lparr>public_demo_actions_idempotency_key = key,
                    public_demo_actions_created_at = db_now e\<rparr>) of
               Inl err \<Rightarrow> (Inl err, d)
             | Inr d2 \<Rightarrow> commit e 6 d d2 (Inr ())))))))"

definition sql_demo_sale :: "env \<Rightarrow> db \<Rightarrow> string option" where
  "sql_demo_sale e d =
    (case sort_key (\<lambda>s. - flash_sales_created_at s) (filter (\<lambda>s.
        (\<exists>p \<in> set (products d). products_id p = flash_sales_product_id s \<and> products_sku p = ''FLASH-100'')
        \<and> flash_sales_state s = SaleActive \<and> flash_sales_starts_at s \<le> db_now e
        \<and> db_now e < flash_sales_ends_at s) (flash_sales d)) of
       [] \<Rightarrow> None
     | s # _ \<Rightarrow> Some (flash_sales_id s))"

definition ReservePublicDemo ::
  "Store \<Rightarrow> env \<Rightarrow> env \<Rightarrow> db \<Rightarrow> string \<Rightarrow> int \<Rightarrow> ReservationResult outcome" where
  "ReservePublicDemo s e e' d key0 maxPerMinute =
    (let key = TrimSpace key0 in
     if key = '''' \<or> 200 < length key
     then (Inl (domain_error ''VALIDATION_ERROR'' ''Idempotency-Key is required'' 400), d)
     else if maxPerMinute < 1 \<or> 100 < maxPerMinute
     then (Inl (OtherError ''public demo limit must be between 1 and 100''), d)
     else case demo_admit e d key maxPerMinute of
         (Inl err, d1) \<Rightarrow> (Inl err, d1)
       | (Inr _, d1) \<Rightarrow>
        (case stmt e 7 (query_row (sql_demo_sale e d1)) of
           Inl err \<Rightarrow> (Inl (DomainError (domainError (notFound err) ''DEMO_UNAVAILABLE''
              ''The synthetic public demo sale is unavailable'' 503)), d1)
         | Inr saleID \<Rightarrow>
           let digest = EncodeToString (sha256 e key)
           in Reserve s e' d1 saleID \<lparr>Request_UserID = ''public-'' @ take 24 digest,
                Request_Quantity = 1, Request_IdempotencyKey = ''public-'' @ digest\<rparr>))"

section \<open>Demo data\<close>

definition duplicate_orders :: "db \<Rightarrow> int" where
  "duplicate_orders d = int (length (remdups (filter (\<lambda>rid. 1 < count_list (map orders_reservation_id (orders d)) rid)
     (map orders_reservation_id (orders d)))))"

definition invariant_pass :: "Product \<Rightarrow> Sale \<Rightarrow> int \<Rightarrow> int \<Rightarrow> int \<Rightarrow> bool" where
  "invariant_pass p sl res ords dups \<longleftrightarrow> 0 \<le> Product_Available p \<and> 0 \<le> Product_Reserved p
     \<and> 0 \<le> Product_Sold p \<and> 0 \<le> Sale_RemainingStock sl \<and> res = ords \<and> dups = 0
     \<and> Product_Available p + Product_Reserved p + Product_Sold p = Sale_AllocatedStock sl
     \<and> Sale_RemainingStock sl + Product_Reserved p + Product_Sold p = Sale_AllocatedStock sl"

definition DemoStatus :: "env \<Rightarrow> nat \<Rightarrow> db \<Rightarrow> go_error + DemoStatusReport" where
  "DemoStatus e b d =
    (case stmt e b (query_row (find (\<lambda>_. True) (sort_key Product_CreatedAt (sql_products d)))) of
       Inl err \<Rightarrow> Inl (notFound err)
     | Inr p \<Rightarrow>
    (case stmt e (b + 1) (query_row (find (\<lambda>_. True) (sort_key Sale_CreatedAt
            (map sale_of_row (flash_sales d))))) of
       Inl err \<Rightarrow> Inl (notFound err)
     | Inr sl \<Rightarrow>
    (case stmt e (b + 2) (Inr (int (length (reservations d)))) of Inl err \<Rightarrow> Inl err | Inr res \<Rightarrow>
    (case stmt e (b + 3) (Inr (int (length (orders d)))) of Inl err \<Rightarrow> Inl err | Inr ords \<Rightarrow>
    (case stmt e (b + 4) (Inr (duplicate_orders d)) of Inl err \<Rightarrow> Inl err | Inr dups \<Rightarrow>
       Inr \<lparr>Status_Product = p, Status_Sale = sl, Status_Reservations = res, Status_Orders = ords,
         Status_DuplicateOrders = dups, Status_InvariantPass = invariant_pass p sl res ords dups\<rparr>)))))"

definition demo_product :: "env \<Rightarrow> string \<Rightarrow> products_row" where
  "demo_product e pid = \<lparr>products_id = pid, products_sku = ''FLASH-100'',
     products_name = ''StockRush Limited Drop'',
     products_description = ''Synthetic flash-sale inventory proof'', products_price_minor = 9900,
     products_currency = ''THB'', products_active = True, products_created_at = db_now e,
     products_updated_at = db_now e\<rparr>"

definition demo_inventory :: "env \<Rightarrow> string \<Rightarrow> int \<Rightarrow> inventory_row" where
  "demo_inventory e pid n = \<lparr>inventory_product_id = pid, inventory_available = n,
     inventory_reserved = 0, inventory_sold = 0, inventory_expected_total = n,
     inventory_updated_at = db_now e\<rparr>"

definition demo_sale :: "env \<Rightarrow> string \<Rightarrow> string \<Rightarrow> int \<Rightarrow> flash_sales_row" where
  "demo_sale e sid pid n = \<lparr>flash_sales_id = sid, flash_sales_product_id = pid,
     flash_sales_starts_at = go_now e - 60 * 1000000,
     flash_sales_ends_at = go_now e + 365 * 24 * 3600 * 1000000, flash_sales_allocated_stock = n,
     flash_sales_remaining_stock = n, flash_sales_max_quantity_per_user = 1,
     flash_sales_state = SaleActive, flash_sales_created_at = db_now e,
     flash_sales_updated_at = db_now e\<rparr>"

definition ResetDemo :: "env \<Rightarrow> nat \<Rightarrow> db \<Rightarrow> int \<Rightarrow> DemoStatusReport outcome" where
  "ResetDemo e b d n =
    (if n \<le> 0 \<or> 100000 < n
     then (Inl (domain_error ''VALIDATION_ERROR'' ''inventory must be between 1 and 100000'' 400), d)
     else case stmt e b (Inr ()) of Inl err \<Rightarrow> (Inl err, d) | Inr _ \<Rightarrow>
      (case stmt e (b + 1) (Inr empty_db) of
         Inl err \<Rightarrow> (Inl (WrapError ''reset demo'' err), d)
       | Inr d1 \<Rightarrow>
      (case NewID (rand e 0) of Inl err \<Rightarrow> (Inl err, d) | Inr productID \<Rightarrow>
      (case NewID (rand e 1) of Inl err \<Rightarrow> (Inl err, d) | Inr saleID \<Rightarrow>
      (case stmt e (b + 2) (insert_products d1 (demo_product e productID)) of
         Inl err \<Rightarrow> (Inl err, d)
       | Inr d2 \<Rightarrow>
      (case stmt e (b + 3) (insert_inventory d2 (demo_inventory e productID n)) of
         Inl err \<Rightarrow> (Inl err, d)
       | Inr d3 \<Rightarrow>
      (case stmt e (b + 4) (insert_flash_sales d3 (demo_sale e saleID productID n)) of
         Inl err \<Rightarrow> (Inl err, d)
       | Inr d4 \<Rightarrow>
      (case commit e (b + 5) d d4 (Inr ()) of
         (Inl err, d5) \<Rightarrow> (Inl err, d5)
       | (Inr _, d5) \<Rightarrow> (DemoStatus e (b + 6) d5, d5)))))))))"

definition EnsurePublicDemo :: "env \<Rightarrow> db \<Rightarrow> int \<Rightarrow> DemoStatusReport outcome" where
  "EnsurePublicDemo e d n =
    (case stmt e 0 (Inr (''FLASH-100'' \<in> products_sku ` set (products d))) of
       Inl err \<Rightarrow> (Inl err, d)
     | Inr present \<Rightarrow> if present then (DemoStatus e 1 d, d) else ResetDemo e 1 d n)"

section \<open>The demo and the ledger\<close>

lemma delete_expired_good:
  assumes g: "good d"
  shows "good (sql_delete_expired e d)"
proof -
  have "schema_ok (sql_delete_expired e d)"
    using g by (auto simp: sql_delete_expired_def good_def ledger_def schema_defs distinct_map_filter)
  then show ?thesis
    using g by (auto simp: good_def ledger_def sql_delete_expired_def) (auto simp: answered_def response_backed_def)
qed

lemma insert_action_good:
  assumes g: "good d" and u: "insert_public_demo_actions d a = Inr d1"
  shows "good d1"
proof -
  have "schema_ok d1" using g by (intro schema_insert_public_demo_actions [OF _ u]) (simp add: good_def ledger_def)
  moreover have "d1 = d\<lparr>public_demo_actions := public_demo_actions d @ [a]\<rparr>"
    using u by (simp add: insert_public_demo_actions_def split: if_splits)
  ultimately show ?thesis using g by (simp add: good_def ledger_def)
qed

lemma demo_admit_good:
  assumes g: "good d"
  shows "good (snd (demo_admit e d key m))"
  using g delete_expired_good [OF g, of e] insert_action_good [OF delete_expired_good [OF g, of e]]
  unfolding demo_admit_def by (auto simp: snd_commit split: sum.split)

lemma ReservePublicDemo_good:
  assumes g: "good d"
  shows "good (snd (ReservePublicDemo s e e' d key m))"
proof -
  have "good d1" if "demo_admit e d (TrimSpace key) m = (res, d1)" for res d1
    using demo_admit_good [OF g, of e "TrimSpace key" m] that by simp
  then show ?thesis
    using g Reserve_good unfolding ReservePublicDemo_def Let_def
    by (auto split: prod.split sum.split)
qed

lemma demo_data_good:
  assumes "insert_products empty_db (demo_product e pid) = Inr d2" "insert_inventory d2 (demo_inventory e pid n) = Inr d3"
    "insert_flash_sales d3 (demo_sale e sid pid n) = Inr d4"
  shows "good d4"
proof -
  have "ledger [] [] [] [] empty_db" "answered {} empty_db" using good_empty by (simp_all add: good_def)
  moreover from this have "ledger [] [] [] [] d3"
    by (intro new_product_ledger [OF _ refl assms(1,2)]) (simp_all add: demo_inventory_def demo_product_def)
  then have "ledger [] [] [] [] d4"
    by (rule new_sale_ledger [OF _ refl assms(3)]) (simp add: demo_sale_def)
  ultimately show ?thesis
    using insert_products_frame [OF assms(1)] insert_inventory_frame [OF assms(2)] insert_flash_sales_frame [OF assms(3)]
    by (simp add: good_def)
qed

lemma Reset_cases:
  assumes "ResetDemo e b d n = (res, d')"
  obtains (abort) err where "res = Inl err" "d' = d"
  | (reset) pid sid d2 d3 where "1 \<le> n" "n \<le> 100000" "NewID (rand e 0) = Inr pid" "NewID (rand e 1) = Inr sid"
      "insert_products empty_db (demo_product e pid) = Inr d2" "insert_inventory d2 (demo_inventory e pid n) = Inr d3"
      "insert_flash_sales d3 (demo_sale e sid pid n) = Inr d'"
      "res = DemoStatus e (b + 6) d' \<or> res = Inl (OtherError ''commit'')"
  using assms unfolding ResetDemo_def
  by (auto simp: commit_def split: if_splits sum.splits fault.splits prod.splits)

lemma ResetDemo_good:
  assumes g: "good d"
  shows "good (snd (ResetDemo e b d n))"
proof (cases "ResetDemo e b d n")
  case (Pair res d')
  then show ?thesis by (cases rule: Reset_cases) (use Pair g demo_data_good in auto)
qed

lemma EnsurePublicDemo_good: "good d \<Longrightarrow> good (snd (EnsurePublicDemo e d n))"
  by (auto simp: EnsurePublicDemo_def ResetDemo_good split: sum.split)

end
