(* ===== verification/Invariants.thy ===== *)
theory Invariants
  imports Booking
begin

text \<open>
  The database self-check (\<open>src/internal/store/invariants.go\<close>): seven counting queries, the ones
  with a positive count reported in the order of their codes.
\<close>

record InvariantViolation =
  Violation_Code :: string
  Violation_Count :: int

definition count_reconciliation :: "db \<Rightarrow> nat" where
  "count_reconciliation d = length (filter (\<lambda>i. inventory_available i + inventory_reserved i
     + inventory_sold i \<noteq> inventory_expected_total i) (inventory d))"

definition count_negative_inventory :: "db \<Rightarrow> nat" where
  "count_negative_inventory d = length (filter (\<lambda>i. inventory_available i < 0
     \<or> inventory_reserved i < 0 \<or> inventory_sold i < 0) (inventory d))"

definition count_negative_sale_stock :: "db \<Rightarrow> nat" where
  "count_negative_sale_stock d = length (filter (\<lambda>s. flash_sales_remaining_stock s < 0) (flash_sales d))"

definition reservation_limit_exceeded :: "db \<Rightarrow> flash_sales_row \<Rightarrow> string \<Rightarrow> bool" where
  "reservation_limit_exceeded d s userID \<longleftrightarrow>
     flash_sales_max_quantity_per_user s < sql_existing_quantity d (flash_sales_id s) userID"

text \<open>
  The groups are the pairs of a sale and a user with at least one active reservation.
\<close>

definition count_reservation_limit :: "db \<Rightarrow> nat" where
  "count_reservation_limit d = sum_list (map (\<lambda>s. length (filter (reservation_limit_exceeded d s)
     (remdups (map reservations_user_id (filter (\<lambda>r. reservations_sale_id r = flash_sales_id s
        \<and> active_state (reservations_state r)) (reservations d)))))) (flash_sales d))"

definition count_order_without_reservation :: "db \<Rightarrow> nat" where
  "count_order_without_reservation d = length (filter (\<lambda>x. orders_reservation_id x
     \<notin> reservations_id ` set (reservations d)) (orders d))"

definition state_mismatch :: "reservations_row \<Rightarrow> orders_row \<Rightarrow> bool" where
  "state_mismatch r x \<longleftrightarrow> reservations_state r \<in> {ReservationPaid, ReservationCancelled, ReservationExpired}
     \<and> orders_state x \<noteq> order_state_of (reservations_state r)"

definition count_state_mismatch :: "db \<Rightarrow> nat" where
  "count_state_mismatch d = sum_list (map (\<lambda>x. length (filter (\<lambda>r. reservations_id r = orders_reservation_id x
     \<and> state_mismatch r x) (reservations d))) (orders d))"

definition count_paid_expired :: "db \<Rightarrow> nat" where
  "count_paid_expired d = sum_list (map (\<lambda>p. sum_list (map (\<lambda>x. length (filter (\<lambda>r.
     payments_status p = StatusSucceeded \<and> orders_id x = payments_order_id p
     \<and> reservations_id r = orders_reservation_id x \<and> reservations_state r = ReservationExpired)
       (reservations d))) (orders d))) (payments d))"

definition invariant_checks :: "db \<Rightarrow> InvariantViolation list" where
  "invariant_checks d = map (\<lambda>(code, n). \<lparr>Violation_Code = code, Violation_Count = int n\<rparr>)
    [(''INVENTORY_RECONCILIATION'', count_reconciliation d),
     (''NEGATIVE_INVENTORY'', count_negative_inventory d),
     (''NEGATIVE_SALE_STOCK'', count_negative_sale_stock d),
     (''ACTIVE_RESERVATION_LIMIT'', count_reservation_limit d),
     (''ORDER_WITHOUT_RESERVATION'', count_order_without_reservation d),
     (''ORDER_RESERVATION_STATE_MISMATCH'', count_state_mismatch d),
     (''PAID_EXPIRED_RESERVATION'', count_paid_expired d)]"

definition CheckInvariants :: "env \<Rightarrow> db \<Rightarrow> go_error + InvariantViolation list" where
  "CheckInvariants e d = stmt e 0 (Inr (sort_key Violation_Code
     (filter (\<lambda>v. 0 < Violation_Count v) (invariant_checks d))))"

section \<open>A good database passes the check\<close>

lemma limit_count_zero: "limited d \<Longrightarrow> count_reservation_limit d = 0"
  by (auto simp: count_reservation_limit_def limited_def reservation_limit_exceeded_def filter_empty_conv
      existing_quantity_user_units not_less)

lemma mismatch_count_zero:
  assumes "followed [] d"
  shows "count_state_mismatch d = 0"
  using assms by (auto simp: count_state_mismatch_def state_mismatch_def followed_def filter_empty_conv
      order_follows_def held_state_def; metis)

lemma paid_expired_count_zero:
  assumes "receipts d"
  shows "count_paid_expired d = 0"
  using assms by (fastforce simp: count_paid_expired_def receipts_def filter_empty_conv)

lemma good_counts:
  assumes g: "good d"
  shows "v \<in> set (invariant_checks d) \<Longrightarrow> Violation_Count v = 0"
proof -
  have l: "ledger [] [] [] [] d" using g by (simp add: good_def)
  note sc = ledgerD(1) [OF l]
  have "count_reconciliation d = 0"
    using ledgerD(4) [OF l] by (auto simp: count_reconciliation_def balanced_def filter_empty_conv)
  moreover have "count_negative_inventory d = 0"
    using sc by (auto simp: count_negative_inventory_def filter_empty_conv schema_defs list_all_iff inventory_check_def)
  moreover have "count_negative_sale_stock d = 0"
    using sc by (auto simp: count_negative_sale_stock_def filter_empty_conv schema_defs list_all_iff flash_sales_check_def)
  moreover have "count_order_without_reservation d = 0"
    using refsD(5) [OF sc] by (auto simp: count_order_without_reservation_def filter_empty_conv)
  ultimately show "v \<in> set (invariant_checks d) \<Longrightarrow> Violation_Count v = 0"
    using limit_count_zero [OF ledgerD(6) [OF l]] mismatch_count_zero [OF ledgerD(8) [OF l]]
      paid_expired_count_zero [OF ledgerD(9) [OF l]]
    by (auto simp: invariant_checks_def)
qed

lemma good_passes: "good d \<Longrightarrow> CheckInvariants e d = stmt e 0 (Inr [])"
  using good_counts [of d] by (simp add: CheckInvariants_def filter_False)

end
