(* ===== verification/System.thy ===== *)
theory System
  imports ReserveEffect Payment Expiration Demo Invariants
begin

text \<open>
  The store as a state machine. A \<open>call\<close> is what the HTTP handlers, the worker and the seeding command
  ask of the store (\<open>src/internal/httpserver\<close>, \<open>src/cmd/worker\<close>, \<open>src/cmd/seed\<close>); \<open>perform\<close> runs one
  call in an environment of its own, and \<open>step\<close> lets the environment choose everything:
  the clocks, the random bytes, the locked rows and which round trip fails. Transactions are
  taken one after the other, each on the database the previous one left.
\<close>

section \<open>Calls and steps\<close>

datatype call =
    Call_CreateProduct CreateProductInput
  | Call_UpdateProduct string UpdateProductInput
  | Call_CreateSale CreateSaleInput
  | Call_SetSaleState string SaleState
  | Call_Reserve string ReservationRequest
  | Call_Confirm string
  | Call_Cancel string
  | Call_Pay PaymentRequest
  | Call_Expire int int
  | Call_PublicReserve string int
  | Call_Reset int
  | Call_EnsureDemo int

fun perform :: "Store \<Rightarrow> env \<Rightarrow> env \<Rightarrow> db \<Rightarrow> call \<Rightarrow> db" where
  "perform s e e' d (Call_CreateProduct inp) = snd (CreateProduct e d inp)"
| "perform s e e' d (Call_UpdateProduct pid inp) = snd (UpdateProduct e d pid inp)"
| "perform s e e' d (Call_CreateSale inp) = snd (CreateSale e d inp)"
| "perform s e e' d (Call_SetSaleState sid st) = snd (SetSaleState e d sid st)"
| "perform s e e' d (Call_Reserve sid req) = snd (Reserve s e d sid req)"
| "perform s e e' d (Call_Confirm rid) = snd (TransitionReservation e d rid ReservationConfirmed)"
| "perform s e e' d (Call_Cancel rid) = snd (TransitionReservation e d rid ReservationCancelled)"
| "perform s e e' d (Call_Pay req) = snd (SimulatePayment e d req)"
| "perform s e e' d (Call_Expire n at) = snd (ExpireBatch e d n at)"
| "perform s e e' d (Call_PublicReserve key m) = snd (ReservePublicDemo s e e' d key m)"
| "perform s e e' d (Call_Reset n) = snd (ResetDemo e 0 d n)"
| "perform s e e' d (Call_EnsureDemo n) = snd (EnsurePublicDemo e d n)"

inductive step :: "Store \<Rightarrow> db \<Rightarrow> call \<Rightarrow> db \<Rightarrow> bool" for s where
  step: "step s d c (perform s e e' d c)"

inductive reachable :: "Store \<Rightarrow> db \<Rightarrow> bool" for s where
  start: "reachable s empty_db"
| next_call: "reachable s d \<Longrightarrow> step s d c d' \<Longrightarrow> reachable s d'"

inductive_cases step_elim [elim!]: "step s d c d'"

text \<open>Calls that keep the data: everything but wiping the demo tables.\<close>

fun wipes :: "call \<Rightarrow> bool" where
  "wipes (Call_Reset n) = True"
| "wipes (Call_EnsureDemo n) = True"
| "wipes _ = False"

section \<open>Every call is a transaction that keeps the database good\<close>

interpretation create_product_tx: transaction CreateProduct good
  by unfold_locales (rule CreateProduct_good)

interpretation update_product_tx: transaction "\<lambda>e d (pid, inp). UpdateProduct e d pid inp" good
  by unfold_locales (auto simp: UpdateProduct_good)

interpretation create_sale_tx: transaction CreateSale good
  by unfold_locales (rule CreateSale_good)

interpretation set_sale_state_tx: transaction "\<lambda>e d (sid, st). SetSaleState e d sid st" good
  by unfold_locales (auto simp: SetSaleState_good)

interpretation reserve_tx: transaction "\<lambda>e d (sid, req). Reserve s e d sid req" good for s
  by unfold_locales (auto simp: Reserve_good)

interpretation confirm_tx: transaction "\<lambda>e d rid. TransitionReservation e d rid ReservationConfirmed" good
  by unfold_locales (simp add: Transition_good)

interpretation cancel_tx: transaction "\<lambda>e d rid. TransitionReservation e d rid ReservationCancelled" good
  by unfold_locales (simp add: Transition_good)

interpretation pay_tx: transaction SimulatePayment good
  by unfold_locales (rule Simulate_good)

interpretation expire_tx: transaction "\<lambda>e d (n, at). ExpireBatch e d n at" good
  by unfold_locales (auto simp: Expire_good)

interpretation public_reserve_tx: transaction "\<lambda>e d (e', key, m). ReservePublicDemo s e e' d key m" good for s
  by unfold_locales (auto simp: ReservePublicDemo_good)

interpretation reset_tx: transaction "\<lambda>e d n. ResetDemo e b d n" good for b
  by unfold_locales (rule ResetDemo_good)

interpretation ensure_tx: transaction EnsurePublicDemo good
  by unfold_locales (rule EnsurePublicDemo_good)

lemmas tx_keeps = create_product_tx.keeps create_sale_tx.keeps confirm_tx.keeps cancel_tx.keeps
  pay_tx.keeps ensure_tx.keeps reset_tx.keeps [where b = 0]

lemma perform_good: "good d \<Longrightarrow> good (perform s e e' d c)"
  using update_product_tx.keeps [of d e] set_sale_state_tx.keeps [of d e] reserve_tx.keeps [of d s e]
    expire_tx.keeps [of d e] public_reserve_tx.keeps [of d s e]
  by (cases c) (auto simp: tx_keeps)

lemma reachable_good: "reachable s d \<Longrightarrow> good d"
  by (induction rule: reachable.induct) (auto simp: good_empty perform_good)

lemma reachable_perform: "reachable s d \<Longrightarrow> reachable s (perform s e e' d c)"
  by (rule next_call [OF _ step])

end
