(* ===== verification/History.thy ===== *)
theory History
  imports System
begin

text \<open>
  What a run of the store never takes back: a reservation keeps its identity and its state only
  moves along the life cycle, a stored response and a recorded payment stay as they are. \<open>evolves\<close> is that relation between two
  databases; every call that does not wipe the tables is in it, and so is every history of such calls
  (the locale \<open>history\<close>).
\<close>

section \<open>Evolution of a database\<close>

definition same_booking :: "reservations_row \<Rightarrow> reservations_row \<Rightarrow> bool" where
  "same_booking r r' \<longleftrightarrow> reservations_id r' = reservations_id r \<and> reservations_sale_id r' = reservations_sale_id r
     \<and> reservations_product_id r' = reservations_product_id r \<and> reservations_user_id r' = reservations_user_id r
     \<and> reservations_quantity r' = reservations_quantity r \<and> reservations_expires_at r' = reservations_expires_at r
     \<and> reservations_created_at r' = reservations_created_at r"

definition moves :: "reservations_row list \<Rightarrow> reservations_row list \<Rightarrow> bool" where
  "moves rs rs' \<longleftrightarrow> (\<forall>r \<in> set rs. \<exists>r' \<in> set rs'. same_booking r r'
     \<and> lifecycle\<^sup>*\<^sup>* (reservations_state r) (reservations_state r'))"

definition evolves :: "db \<Rightarrow> db \<Rightarrow> bool" where
  "evolves d d' \<longleftrightarrow> moves (reservations d) (reservations d')
     \<and> set (idempotency_keys d) \<subseteq> set (idempotency_keys d') \<and> set (payments d) \<subseteq> set (payments d')"

lemma same_booking_refl [simp]: "same_booking r r"
  by (simp add: same_booking_def)

lemma moves_append [simp]: "moves rs (rs @ xs)"
  unfolding moves_def by (metis UnCI rtranclp.rtrancl_refl same_booking_refl set_append)

lemma moves_refl [simp]: "moves rs rs"
  using moves_append [of rs "[]"] by simp

lemma moves_trans: "moves rs rs' \<Longrightarrow> moves rs' rs'' \<Longrightarrow> moves rs rs''"
  unfolding moves_def same_booking_def by (metis (no_types, lifting) rtranclp_trans)

lemma moves_update:
  assumes "\<And>r. r \<in> set rs \<Longrightarrow> P r \<Longrightarrow> lifecycle (reservations_state r) st"
  shows "moves rs (update_where P (\<lambda>r. r\<lparr>reservations_state := st, reservations_updated_at := t\<rparr>) rs)"
  unfolding moves_def
proof
  fix r assume r: "r \<in> set rs"
  let ?f = "\<lambda>r. r\<lparr>reservations_state := st, reservations_updated_at := t\<rparr>"
  have "(if P r then ?f r else r) \<in> set (update_where P ?f rs)" using r by (simp add: set_update_where)
  moreover have "same_booking r (if P r then ?f r else r)" by (simp add: same_booking_def)
  moreover have "lifecycle\<^sup>*\<^sup>* (reservations_state r) (reservations_state (if P r then ?f r else r))"
    using assms [OF r] by (auto intro: r_into_rtranclp)
  ultimately show "\<exists>r' \<in> set (update_where P ?f rs). same_booking r r'
     \<and> lifecycle\<^sup>*\<^sup>* (reservations_state r) (reservations_state r')" by blast
qed

lemma evolves_refl [simp]: "evolves d d"
  by (simp add: evolves_def)

lemma evolves_trans: "evolves d d' \<Longrightarrow> evolves d' d'' \<Longrightarrow> evolves d d''"
  unfolding evolves_def using moves_trans by blast

lemma evolves_same:
  "reservations d' = reservations d \<Longrightarrow> idempotency_keys d' = idempotency_keys d \<Longrightarrow> payments d' = payments d
     \<Longrightarrow> evolves d d'"
  by (simp add: evolves_def)

section \<open>Each call\<close>

lemma Reserve_evolves:
  assumes g: "good d"
  shows "evolves d (snd (Reserve s e d sid req))"
proof (cases "Reserve s e d sid req")
  case (Pair res d')
  have sc: "schema_ok d" using g by (simp add: good_def ledger_def)
  show ?thesis
    by (rule Reserve_cases [OF Pair sc]) (use Pair in \<open>auto simp: evolves_def\<close>)
qed

lemma order_of_reservation_frame:
  "sql_set_order_state_of_reservation t d rid st = Inr (d1, n) \<Longrightarrow> \<exists>rows. d1 = d\<lparr>orders := rows\<rparr>"
  by (auto simp: sql_set_order_state_of_reservation_def update_orders_Inr)

lemma release_frame:
  "transition_release e d r target = Inr d1 \<Longrightarrow> reservations d1 = reservations d \<and>
     idempotency_keys d1 = idempotency_keys d \<and> payments d1 = payments d"
  by (auto simp: transition_release_def sql_release_inventory_def sql_release_sale_stock_def
      update_inventory_Inr update_flash_sales_Inr split: if_splits sum.splits)

lemma Transition_evolves:
  assumes g: "good d"
  shows "evolves d (snd (TransitionReservation e d rid target))"
proof (cases "TransitionReservation e d rid target")
  case (Pair res d')
  have sc: "schema_ok d" using g by (simp add: good_def ledger_def)
  from Pair show ?thesis
  proof (cases rule: Transition_cases)
    case (moved r d1 n1 d2 n2 d3)
    have d1: "d1 = d\<lparr>reservations := restated target (db_now e) rid (reservations d)\<rparr>"
      using moved(3) by (simp add: set_state_eq [OF sc])
    obtain rows where d2: "d2 = d1\<lparr>orders := rows\<rparr>" using order_of_reservation_frame [OF moved(4)] by blast
    have r: "r \<in> set (reservations d)" "reservations_id r = rid"
      using moved(1) find_Some_iff_key [OF keysD(4) [OF sc]] by auto
    have "moves (reservations d) (restated target (db_now e) rid (reservations d))"
      using moved(2) r distinct_key_eq [OF keysD(4) [OF sc]] by (intro moves_update) metis
    moreover have "reservations d' = reservations d3" "idempotency_keys d' = idempotency_keys d3" "payments d' = payments d3"
      using moved(6) by (auto simp: event_Inr)
    ultimately show ?thesis using Pair release_frame [OF moved(5)] by (simp add: evolves_def d2 d1)
  qed (use Pair in simp)
qed

lemma payment_effect_moves:
  assumes sc: "schema_ok d" and r: "r \<in> set (reservations d)" and u: "payment_effect e d oid oc r = Inr (d', st)"
  shows "moves (reservations d) (reservations d')" "idempotency_keys d' = idempotency_keys d" "payments d' = payments d"
proof -
  have "moves (reservations d) (reservations d') \<and> idempotency_keys d' = idempotency_keys d \<and> payments d' = payments d"
    using u
  proof (cases rule: payment_effect_cases)
    case (failed n)
    then show ?thesis using order_frame [OF failed(3)] by auto
  next
    case (paid d1 d2 n2 d3 n3)
    obtain rows where d1: "d1 = d\<lparr>inventory := rows\<rparr>" using sell_frame [OF paid(3)] by blast
    have d2: "d2 = d1\<lparr>reservations := restated ReservationPaid (db_now e) (reservations_id r) (reservations d)\<rparr>"
      using paid(4) by (simp add: sql_set_reservation_state_def update_reservations_Inr d1)
    obtain rows' where d3: "d3 = d2\<lparr>orders := rows'\<rparr>" using order_frame [OF paid(5)] by blast
    have "moves (reservations d) (restated ReservationPaid (db_now e) (reservations_id r) (reservations d))"
    proof (rule moves_update)
      fix x assume "x \<in> set (reservations d)" "reservations_id x = reservations_id r"
      then have "x = r" using distinct_key_eq [OF keysD(4) [OF sc] _ r] by blast
      then show "lifecycle (reservations_state x) ReservationPaid" using paid(2) by (simp add: lifecycle.pay)
    qed
    then show ?thesis using paid(6) by (auto simp: event_Inr d3 d2 d1)
  qed simp
  then show "moves (reservations d) (reservations d')" "idempotency_keys d' = idempotency_keys d" "payments d' = payments d"
    by simp_all
qed

abbreviation settled_payment :: "env \<Rightarrow> PaymentRequest \<Rightarrow> string \<Rightarrow> PaymentOutcome \<Rightarrow> PaymentStatus \<Rightarrow> payments_row" where
  "settled_payment e req pid oc st \<equiv> (new_payment e pid (order_arg req) (key_arg req) oc
     (payment_fingerprint e (order_arg req) (outcome_arg req)))\<lparr>payments_status := st, payments_updated_at := db_now e\<rparr>"

lemma Simulate_payments:
  assumes sc: "schema_ok d" and "SimulatePayment e d req = (res, d')" and "d' \<noteq> d"
  obtains pid oc st where "order_arg req \<noteq> ''''" "key_arg req \<noteq> ''''"
    "parse_outcome (outcome_arg req) = Some oc" "NewID (rand e 0) = Inr pid"
    "key_arg req \<notin> payments_idempotency_key ` set (payments d)"
    "moves (reservations d) (reservations d')" "idempotency_keys d' = idempotency_keys d"
    "payments d' = payments d @ [settled_payment e req pid oc st]"
    "res = Inr \<lparr>PaymentResult_Payment = payment_of_row (settled_payment e req pid oc st), PaymentResult_Duplicate = False\<rparr>
       \<or> res = Inl (OtherError ''commit'')"
  using assms(2)
proof (cases rule: Simulate_cases)
  case (applied pid oc d1 r d2 st d3 p)
  let ?p = "new_payment e pid (order_arg req) (key_arg req) oc (payment_fingerprint e (order_arg req) (outcome_arg req))"
  have ins: "d1 = d\<lparr>payments := payments d @ [?p]\<rparr>" "pid \<notin> payments_id ` set (payments d)"
      "key_arg req \<notin> payments_idempotency_key ` set (payments d)"
    using applied(5) by (simp_all add: insert_payment_Some)
  have sc1: "schema_ok d1"
    by (rule schema_insert_payments [OF sc applied(5) [unfolded sql_insert_payment_def]])
  have r: "r \<in> set (reservations d1)" by (rule order_reservation_Some [OF sc1 applied(6)])
  note eff = payment_effect_moves [OF sc1 r applied(7)]
  have upd: "update_where (\<lambda>p. payments_id p = pid) (\<lambda>p. p\<lparr>payments_status := st, payments_updated_at := db_now e\<rparr>) (payments d2)
      = payments d @ [settled_payment e req pid oc st]"
    using ins(2) by (simp add: eff(3) ins(1)) (auto simp: update_where_def intro!: map_idI)
  then have d': "payments d' = payments d @ [settled_payment e req pid oc st]"
      "reservations d' = reservations d2" "idempotency_keys d' = idempotency_keys d2"
    using applied(8,9) by (auto simp: set_payment_status_eq event_Inr)
  have "find (\<lambda>p. payments_id p = pid) (payments d @ [?p]) = Some ?p"
    using find_Some_iff_key [OF keysD(7) [OF sc1], of pid ?p] by (simp add: ins(1))
  then have "p = settled_payment e req pid oc st"
    using applied(8) by (simp add: set_payment_status_eq eff(3) ins(1))
  then show thesis using that [OF applied(1,2,4,3) ins(3)] eff d' applied(10) by (simp add: ins(1))
qed (use assms(3) in simp)

lemma Simulate_evolves:
  assumes g: "good d"
  shows "evolves d (snd (SimulatePayment e d req))"
proof (cases "SimulatePayment e d req")
  case (Pair res d')
  have sc: "schema_ok d" using g by (simp add: good_def ledger_def)
  show ?thesis
  proof (cases "d' = d")
    case False
    show ?thesis by (rule Simulate_payments [OF sc Pair False]) (use Pair in \<open>auto simp: evolves_def\<close>)
  qed (use Pair in simp)
qed

lemma expire_loop_frame:
  "expire_loop e at i cs d = Inr d' \<Longrightarrow> reservations d' = reservations d \<and> idempotency_keys d' = idempotency_keys d
     \<and> payments d' = payments d"
proof (induction cs arbitrary: i d)
  case (Cons c cs)
  show ?case
    using Cons.prems
    by (auto split: sum.splits if_splits prod.splits dest!: Cons.IH simp: event_Inr sql_release_inventory_def
        sql_release_sale_stock_def sql_set_order_state_of_reservation_def update_inventory_Inr update_flash_sales_Inr
        update_orders_Inr)
qed simp

lemma Expire_evolves:
  assumes g: "good d"
  shows "evolves d (snd (ExpireBatch e d n at))"
proof (cases "ExpireBatch e d n at")
  case (Pair res d')
  have sc: "schema_ok d" using g by (simp add: good_def ledger_def)
  from Pair show ?thesis
  proof (cases rule: Expire_cases)
    case (expired d1 cs)
    have d1: "d1 = d\<lparr>reservations := expired_rows at cs (reservations d)\<rparr>"
      using expired(3) by (auto simp: sql_expire_eq [OF sc])
    have "moves (reservations d) (expired_rows at cs (reservations d))"
      by (rule moves_update) (simp add: lifecycle.expire)
    then show ?thesis using expire_loop_frame [OF expired(4)] Pair by (simp add: evolves_def d1)
  qed (use Pair in simp)
qed
lemma create_product_frame:
  "reservations (snd (CreateProduct e d inp)) = reservations d
     \<and> idempotency_keys (snd (CreateProduct e d inp)) = idempotency_keys d
     \<and> payments (snd (CreateProduct e d inp)) = payments d"
  unfolding CreateProduct_def Let_def
  by (auto simp: snd_commit dest!: insert_products_frame insert_inventory_frame split: sum.split)

lemma create_sale_frame:
  "reservations (snd (CreateSale e d inp)) = reservations d
     \<and> idempotency_keys (snd (CreateSale e d inp)) = idempotency_keys d
     \<and> payments (snd (CreateSale e d inp)) = payments d"
  unfolding CreateSale_def Let_def
  by (auto simp: snd_autocommit map_sum_def dest!: insert_flash_sales_frame split: sum.split sum.splits)

lemma update_frame:
  "reservations (snd (UpdateProduct e d pid inp)) = reservations d
     \<and> idempotency_keys (snd (UpdateProduct e d pid inp)) = idempotency_keys d
     \<and> payments (snd (UpdateProduct e d pid inp)) = payments d"
proof (cases "UpdateProduct e d pid inp")
  case (Pair res d')
  have p: "reservations d1 = reservations d \<and> idempotency_keys d1 = idempotency_keys d \<and> payments d1 = payments d"
    if "sql_update_product e d pid inp = Inr (d1, n)" for d1 n
    using that by (clarsimp simp: sql_update_product_def update_products_Inr)
  have i: "reservations d2 = reservations d1 \<and> idempotency_keys d2 = idempotency_keys d1 \<and> payments d2 = payments d1"
    if "sql_set_inventory e d1 pid stock = Inr (d2, n)" for d1 d2 n stock
    using that by (clarsimp simp: sql_set_inventory_def update_inventory_Inr)
  from Pair show ?thesis by (cases rule: Update_cases) (use Pair in \<open>auto dest!: p i\<close>)
qed

lemma set_sale_frame:
  "reservations (snd (SetSaleState e d sid st)) = reservations d
     \<and> idempotency_keys (snd (SetSaleState e d sid st)) = idempotency_keys d
     \<and> payments (snd (SetSaleState e d sid st)) = payments d"
  by (auto simp: snd_SetSaleState snd_autocommit sql_set_sale_state_def update_flash_sales_Inr split: sum.split)

lemma demo_admit_frame:
  "reservations (snd (demo_admit e d key m)) = reservations d \<and> payments (snd (demo_admit e d key m)) = payments d"
  unfolding demo_admit_def
  by (auto simp: snd_commit insert_public_demo_actions_def sql_delete_expired_def split: sum.split if_splits)

lemma PublicReserve_moves:
  assumes g: "good d"
  shows "moves (reservations d) (reservations (snd (ReservePublicDemo s e e' d key m)))
     \<and> set (payments d) \<subseteq> set (payments (snd (ReservePublicDemo s e e' d key m)))"
proof -
  have "evolves d1 (snd (Reserve s e' d1 sid req)) \<and> reservations d1 = reservations d \<and> payments d1 = payments d"
    if "demo_admit e d (TrimSpace key) m = (res, d1)" for res d1 sid req
    using demo_admit_frame [of e d "TrimSpace key" m] demo_admit_good [OF g, of e "TrimSpace key" m] that
    by (simp add: Reserve_evolves)
  then show ?thesis
    unfolding ReservePublicDemo_def Let_def evolves_def by (fastforce split: prod.split sum.split)
qed

section \<open>Histories\<close>

fun purges :: "call \<Rightarrow> bool" where
  "purges (Call_PublicReserve key m) = True"
| "purges _ = False"

lemma perform_evolves:
  assumes "good d" "\<not> wipes c" "\<not> purges c"
  shows "evolves d (perform s e e' d c)"
  using assms
  by (cases c) (auto simp: Reserve_evolves Transition_evolves Simulate_evolves Expire_evolves create_product_frame create_sale_frame update_frame
      set_sale_frame intro!: evolves_same)

lemma perform_moves:
  assumes "good d" "\<not> wipes c"
  shows "moves (reservations d) (reservations (perform s e e' d c))" "set (payments d) \<subseteq> set (payments (perform s e e' d c))"
  using assms perform_evolves [of d c s e e'] PublicReserve_moves [of d s e e']
  by (cases c; simp add: evolves_def)+

inductive runs :: "('d \<Rightarrow> 'c \<Rightarrow> 'd \<Rightarrow> bool) \<Rightarrow> 'd \<Rightarrow> 'c list \<Rightarrow> 'd \<Rightarrow> bool" for st where
  runs_nil: "runs st d [] d"
| runs_cons: "st d c d1 \<Longrightarrow> runs st d1 cs d' \<Longrightarrow> runs st d (c # cs) d'"

inductive_cases runs_nil_elim [elim!]: "runs st d [] d'"
inductive_cases runs_cons_elim [elim!]: "runs st d (c # cs) d'"

text \<open>
  The contract of a step relation that keeps an invariant and stays inside a preorder on the calls that are
  \<open>allowed\<close>: then so does every history of allowed calls.
\<close>

locale history =
  fixes st :: "'d \<Rightarrow> 'c \<Rightarrow> 'd \<Rightarrow> bool" and inv :: "'d \<Rightarrow> bool" and rel :: "'d \<Rightarrow> 'd \<Rightarrow> bool" and allowed :: "'c \<Rightarrow> bool"
  assumes inv_step: "inv d \<Longrightarrow> st d c d' \<Longrightarrow> inv d'"
    and rel_refl: "rel d d"
    and rel_trans: "rel d d' \<Longrightarrow> rel d' d'' \<Longrightarrow> rel d d''"
    and rel_step: "inv d \<Longrightarrow> allowed c \<Longrightarrow> st d c d' \<Longrightarrow> rel d d'"
begin

lemma inv_runs: "runs st d cs d' \<Longrightarrow> inv d \<Longrightarrow> inv d'"
  by (induction rule: runs.induct) (auto intro: inv_step)

lemma rel_runs: "runs st d cs d' \<Longrightarrow> inv d \<Longrightarrow> list_all allowed cs \<Longrightarrow> rel d d'"
  by (induction rule: runs.induct) (auto intro: rel_refl rel_trans rel_step inv_step)

end

interpretation evolution: history "step s" good evolves "\<lambda>c. \<not> wipes c \<and> \<not> purges c" for s
  by unfold_locales (auto simp: perform_good perform_evolves intro: evolves_trans)

interpretation movement: history "step s" good
  "\<lambda>d d'. moves (reservations d) (reservations d') \<and> set (payments d) \<subseteq> set (payments d')" "\<lambda>c. \<not> wipes c" for s
  by unfold_locales (auto simp: perform_good perform_moves intro: moves_trans dest: perform_moves(2) [THEN subsetD])

lemma reachable_runs: "reachable s d \<longleftrightarrow> (\<exists>cs. runs (step s) empty_db cs d)"
proof
  have snoc: "runs st d (cs @ [c]) d''" if "runs st d cs d'" "st d' c d''" for st :: "'a \<Rightarrow> 'b \<Rightarrow> 'a \<Rightarrow> bool" and d d' d'' cs c
    using that by (induction rule: runs.induct) (auto intro: runs.intros)
  show "\<exists>cs. runs (step s) empty_db cs d" if "reachable s d"
    using that by (induction rule: reachable.induct) (auto intro: runs_nil snoc step.intros)
  show "reachable s d" if "\<exists>cs. runs (step s) empty_db cs d"
  proof -
    have "reachable s d'" if "runs (step s) d0 cs d'" "reachable s d0" for d0 cs d'
      using that by (induction rule: runs.induct) (auto intro: reachable.intros step.intros)
    then show ?thesis using \<open>\<exists>cs. runs (step s) empty_db cs d\<close> reachable.start by blast
  qed
qed

end
