(* ===== verification/Idempotency.thy ===== *)
theory Idempotency
  imports History
begin

text \<open>
  Retrying a request. The locale \<open>idempotent_endpoint\<close> states what the two idempotent operations
  (\<open>Reserve\<close>, \<open>SimulatePayment\<close>) promise: a call that changed the database has settled the request, and a settled
  request is answered from the store without touching it. From that contract: a request
  takes effect at most once however often it is retried and whichever round trips fail, and the answer
  to a retry is the first one.
\<close>

section \<open>The contract\<close>

definition env_ok :: "env \<Rightarrow> bool" where
  "env_ok e \<longleftrightarrow> all_ok e \<and> (\<forall>n. rand e n \<noteq> None)"

locale idempotent_endpoint =
  fixes run :: "env \<Rightarrow> db \<Rightarrow> 'q \<Rightarrow> 'a outcome" and inv :: "db \<Rightarrow> bool"
    and settled :: "(string \<Rightarrow> 8 word list) \<Rightarrow> db \<Rightarrow> 'q \<Rightarrow> (go_error + 'a) \<Rightarrow> bool" and replayed :: "'a \<Rightarrow> 'a"
  assumes inv_kept: "inv d \<Longrightarrow> inv (snd (run e d q))"
    and settles: "inv d \<Longrightarrow> run e d q = (res, d') \<Longrightarrow> d' \<noteq> d \<Longrightarrow>
      \<exists>ans. settled (sha256 e) d' q ans \<and> (\<forall>x. res = Inr x \<longrightarrow> ans = Inr (replayed x))"
    and frozen: "inv d \<Longrightarrow> settled (sha256 e) d q ans \<Longrightarrow> snd (run e d q) = d"
    and replays: "inv d \<Longrightarrow> settled (sha256 e) d q ans \<Longrightarrow> env_ok e \<Longrightarrow> run e d q = (ans, d)"
begin

text \<open>However often the request is sent again, only the first effective attempt changes anything.\<close>

lemma frozen_retries:
  "inv d \<Longrightarrow> settled h d q ans \<Longrightarrow> (\<And>e. e \<in> set es \<Longrightarrow> sha256 e = h) \<Longrightarrow> foldl (\<lambda>d e. snd (run e d q)) d es = d"
proof (induction es)
  case (Cons e es)
  then have "snd (run e d q) = d" using frozen [of d e q ans] by simp
  with Cons show ?case by simp
qed simp

lemma one_effect:
  assumes "inv d" and "\<And>e. e \<in> set es \<Longrightarrow> sha256 e = h"
  obtains (none) "foldl (\<lambda>d e. snd (run e d q)) d es = d"
  | (one) es1 e es2 where "es = es1 @ e # es2" "snd (run e d q) \<noteq> d"
      "foldl (\<lambda>d e. snd (run e d q)) d es = snd (run e d q)"
  using assms
proof (induction es arbitrary: thesis)
  case (Cons e es)
  show ?case
  proof (cases "snd (run e d q) = d")
    case True
    show ?thesis
    proof (rule Cons.IH)
      show thesis if "foldl (\<lambda>d e. snd (run e d q)) d es = d" using that True by (intro Cons.prems(1)) simp
      show thesis if "es = es1 @ e' # es2" "snd (run e' d q) \<noteq> d"
        "foldl (\<lambda>d e. snd (run e d q)) d es = snd (run e' d q)" for es1 e' es2
        by (rule Cons.prems(2) [of "e # es1" e' es2]) (use that True in simp_all)
    qed (use Cons.prems in simp_all)
  next
    case False
    obtain res d' where r: "run e d q = (res, d')" by (cases "run e d q")
    then obtain ans where "settled (sha256 e) d' q ans" using settles [OF Cons.prems(3) r] False by auto
    moreover have "inv d'" using inv_kept [OF Cons.prems(3), of e q] r by simp
    ultimately have "foldl (\<lambda>d e. snd (run e d q)) d' es = d'"
      using frozen_retries [of d' h q ans es] Cons.prems(4) by simp
    then show ?thesis using r False by (intro Cons.prems(2) [of "[]" e es]) simp_all
  qed
qed simp

lemma retry_answer:
  assumes "inv d" "run e d q = (res, d')" "d' \<noteq> d" "sha256 e' = sha256 e" "env_ok e'"
  shows "\<exists>ans. run e' d' q = (ans, d') \<and> (\<forall>x. res = Inr x \<longrightarrow> ans = Inr (replayed x))"
  using settles [OF assms(1-3)] replays [of d' e' q] inv_kept [OF assms(1), of e q] assms by auto

end

section \<open>Reserve\<close>

definition reserve_settled :: "(string \<Rightarrow> 8 word list) \<Rightarrow> db \<Rightarrow> string \<times> ReservationRequest
    \<Rightarrow> (go_error + ReservationResult) \<Rightarrow> bool" where
  "reserve_settled h d q ans \<longleftrightarrow> (let u = TrimSpace (Request_UserID (snd q)); key = TrimSpace (Request_IdempotencyKey (snd q));
       n = Request_Quantity (snd q) in
     \<not> request_invalid (fst q) u n key \<and> (\<exists>k \<in> set (idempotency_keys d). idempotency_keys_key k = key
        \<and> idempotency_keys_scope k = ''reservation'' \<and> idempotency_keys_user_id k = u
        \<and> idempotency_keys_request_fingerprint k = EncodeToString (h (fingerprint_input (fst q) u n))
        \<and> (\<exists>st resp. idempotency_keys_response_status k = Some st \<and> idempotency_keys_response_body k = Some resp
             \<and> ans = decode_response st resp)))"

lemma Reserve_settles:
  assumes g: "good d" and r: "Reserve s e d sid req = (res, d')" and "d' \<noteq> d"
  shows "\<exists>ans. reserve_settled (sha256 e) d' (sid, req) ans
    \<and> (\<forall>x. res = Inr x \<longrightarrow> ans = Inr (x\<lparr>Result_Duplicate := True\<rparr>))"
proof -
  have sc: "schema_ok d" using g by (simp add: good_def ledger_def)
  show ?thesis
    by (rule Reserve_cases [OF r sc])
      (use assms(3) in \<open>auto simp: reserve_settled_def Let_def decode_response_def fingerprint_def\<close>)
qed

lemma settled_key:
  assumes g: "good d" and s: "reserve_settled (sha256 e) d (sid, req) ans"
  defines "u \<equiv> TrimSpace (Request_UserID req)" and "key \<equiv> TrimSpace (Request_IdempotencyKey req)"
    and "n \<equiv> Request_Quantity req"
  obtains k st resp where "\<not> request_invalid sid u n key"
    "sql_claim_key e d key u (fingerprint e sid u n) = Inr None"
    "find (\<lambda>k. idempotency_keys_key k = key \<and> idempotency_keys_scope k = ''reservation'') (idempotency_keys d) = Some k"
    "idempotency_keys_user_id k = u" "idempotency_keys_request_fingerprint k = fingerprint e sid u n"
    "idempotency_keys_response_status k = Some st" "idempotency_keys_response_body k = Some resp"
    "ans = decode_response st resp"
proof -
  from s obtain k st resp where v: "\<not> request_invalid sid u n key" and k: "k \<in> set (idempotency_keys d)"
      "idempotency_keys_key k = key" "idempotency_keys_scope k = ''reservation''" "idempotency_keys_user_id k = u"
      "idempotency_keys_request_fingerprint k = fingerprint e sid u n"
      "idempotency_keys_response_status k = Some st" "idempotency_keys_response_body k = Some resp"
      "ans = decode_response st resp"
    by (auto simp: reserve_settled_def Let_def u_def key_def n_def fingerprint_def)
  have dk: "distinct (map idempotency_keys_key (idempotency_keys d))"
    using g keysD(9) by (simp add: good_def ledger_def)
  have "sql_claim_key e d key u (fingerprint e sid u n) = Inr None"
    using k(1,2) by (auto simp: sql_claim_key_def insert_idempotency_keys_def)
  moreover have "find (\<lambda>k. idempotency_keys_key k = key \<and> idempotency_keys_scope k = ''reservation'') (idempotency_keys d) = Some k"
    using find_key_guard [OF dk k(1,2), of "\<lambda>k. idempotency_keys_scope k = ''reservation''"] k(3) by simp
  ultimately show thesis using that v k by blast
qed

lemma Reserve_replays:
  assumes g: "good d" and s: "reserve_settled (sha256 e) d (sid, req) ans"
  shows "snd (Reserve s e d sid req) = d" and "env_ok e \<Longrightarrow> Reserve s e d sid req = (ans, d)"
proof -
  obtain k st resp where k: "\<not> request_invalid sid (TrimSpace (Request_UserID req)) (Request_Quantity req) (TrimSpace (Request_IdempotencyKey req))"
    "sql_claim_key e d (TrimSpace (Request_IdempotencyKey req)) (TrimSpace (Request_UserID req))
       (fingerprint e sid (TrimSpace (Request_UserID req)) (Request_Quantity req)) = Inr None"
    "find (\<lambda>k. idempotency_keys_key k = TrimSpace (Request_IdempotencyKey req) \<and> idempotency_keys_scope k = ''reservation'') (idempotency_keys d) = Some k"
    "idempotency_keys_user_id k = TrimSpace (Request_UserID req)"
    "idempotency_keys_request_fingerprint k = fingerprint e sid (TrimSpace (Request_UserID req)) (Request_Quantity req)"
    "idempotency_keys_response_status k = Some st" "idempotency_keys_response_body k = Some resp"
    "ans = decode_response st resp" by (rule settled_key [OF g s])
  show "snd (Reserve s e d sid req) = d"
    using k(1,2) by (simp add: Reserve_def Let_def split: sum.split)
  show "Reserve s e d sid req = (ans, d)" if "env_ok e"
    using k that by (simp add: Reserve_def Let_def replayReservation_def env_ok_def)
qed

interpretation reserve_endpoint: idempotent_endpoint "\<lambda>e d (sid, req). Reserve s e d sid req" good reserve_settled
  "\<lambda>x. x\<lparr>Result_Duplicate := True\<rparr>" for s
proof
  show "good (snd (case q of (sid, req) \<Rightarrow> Reserve s e d sid req))" if "good d" for d e q
    using that by (cases q) (simp add: Reserve_good)
  show "\<exists>ans. reserve_settled (sha256 e) d' q ans \<and> (\<forall>x. res = Inr x \<longrightarrow> ans = Inr (x\<lparr>Result_Duplicate := True\<rparr>))"
    if "good d" "(case q of (sid, req) \<Rightarrow> Reserve s e d sid req) = (res, d')" "d' \<noteq> d" for d e q res d'
    using that by (cases q) (simp add: Reserve_settles)
  show "snd (case q of (sid, req) \<Rightarrow> Reserve s e d sid req) = d" if "good d" "reserve_settled (sha256 e) d q ans" for d e q ans
    using that by (cases q) (auto simp: Reserve_replays(1))
  show "(case q of (sid, req) \<Rightarrow> Reserve s e d sid req) = (ans, d)"
    if "good d" "reserve_settled (sha256 e) d q ans" "env_ok e" for d e q ans
    using that by (cases q) (auto simp: Reserve_replays(2))
qed

lemma reserve_settled_evolves: "reserve_settled h d q ans \<Longrightarrow> evolves d d' \<Longrightarrow> reserve_settled h d' q ans"
  unfolding reserve_settled_def evolves_def Let_def by blast

section \<open>SimulatePayment\<close>

definition payment_settled :: "(string \<Rightarrow> 8 word list) \<Rightarrow> db \<Rightarrow> PaymentRequest \<Rightarrow> (go_error + PaymentResult) \<Rightarrow> bool" where
  "payment_settled h d req ans \<longleftrightarrow> order_arg req \<noteq> '''' \<and> key_arg req \<noteq> '''' \<and> parse_outcome (outcome_arg req) \<noteq> None
     \<and> (\<exists>p \<in> set (payments d). payments_idempotency_key p = key_arg req
         \<and> payments_request_fingerprint p = EncodeToString (h (order_arg req @ [CHR 0x00] @ outcome_arg req))
         \<and> ans = Inr \<lparr>PaymentResult_Payment = payment_of_row p, PaymentResult_Duplicate = True\<rparr>)"

lemma Simulate_settles:
  assumes g: "good d" and r: "SimulatePayment e d req = (res, d')" and "d' \<noteq> d"
  shows "\<exists>ans. payment_settled (sha256 e) d' req ans \<and> (\<forall>x. res = Inr x \<longrightarrow> ans = Inr (x\<lparr>PaymentResult_Duplicate := True\<rparr>))"
proof -
  have sc: "schema_ok d" using g by (simp add: good_def ledger_def)
  show ?thesis
    by (rule Simulate_payments [OF sc r assms(3)]) (auto simp: payment_settled_def payment_fingerprint_def)
qed

lemma Simulate_replays:
  assumes g: "good d" and s: "payment_settled (sha256 e) d req ans"
  shows "snd (SimulatePayment e d req) = d" and "env_ok e \<Longrightarrow> SimulatePayment e d req = (ans, d)"
proof -
  from s obtain p oc where v: "order_arg req \<noteq> ''''" "key_arg req \<noteq> ''''" "parse_outcome (outcome_arg req) = Some oc"
    and p: "p \<in> set (payments d)" "payments_idempotency_key p = key_arg req"
      "payments_request_fingerprint p = payment_fingerprint e (order_arg req) (outcome_arg req)"
      "ans = Inr \<lparr>PaymentResult_Payment = payment_of_row p, PaymentResult_Duplicate = True\<rparr>"
    by (auto simp: payment_settled_def payment_fingerprint_def)
  have "sql_insert_payment e d pid oid (key_arg req) c fp = Inr None" for pid oid c fp
    using imageI [OF p(1), of payments_idempotency_key] p(2) by (simp add: sql_insert_payment_def insert_payments_def)
  moreover have "find (\<lambda>p. payments_idempotency_key p = key_arg req) (payments d) = Some p"
    using g p(1,2) keysD(8) [of d] by (simp add: find_Some_iff_key good_def ledger_def)
  moreover have "\<exists>i. NewID (rand e 0) = Inr i" if "env_ok e"
    using that by (auto simp: NewID_def env_ok_def split: option.split)
  ultimately show "snd (SimulatePayment e d req) = d" and "env_ok e \<Longrightarrow> SimulatePayment e d req = (ans, d)"
    using v p(3,4) by (auto simp: SimulatePayment_def Let_def replay_payment_def snd_commit env_ok_def split: sum.split)
qed

interpretation payment_endpoint: idempotent_endpoint SimulatePayment good payment_settled
  "\<lambda>x. x\<lparr>PaymentResult_Duplicate := True\<rparr>"
  by unfold_locales (simp_all add: Simulate_good Simulate_settles Simulate_replays)

lemma payment_settled_evolves: "payment_settled h d q ans \<Longrightarrow> evolves d d' \<Longrightarrow> payment_settled h d' q ans"
  unfolding payment_settled_def evolves_def by blast

section \<open>Retries after any history\<close>

lemma finish_error_Inl [simp]: "finishReservationError e d0 tx key de \<noteq> (Inr x, d')"
  by (auto simp: finishReservationError_def commit_def split: option.split sum.split fault.split)

lemma Reserve_Inr_claimed:
  assumes "Reserve s e d sid req = (Inr x, d')" and "TrimSpace (Request_IdempotencyKey req) \<notin> idempotency_keys_key ` set (idempotency_keys d)"
  shows "d' \<noteq> d"
proof -
  let ?key = "TrimSpace (Request_IdempotencyKey req)" and ?u = "TrimSpace (Request_UserID req)" and ?n = "Request_Quantity req"
  let ?d1 = "d\<lparr>idempotency_keys := idempotency_keys d @ [new_key e ?key ?u (fingerprint e sid ?u ?n)]\<rparr>"
  obtain sale p where "reserve_take s e d ?d1 sid ?u ?n ?key sale p = (Inr x, d')"
    using assms unfolding Reserve_def Let_def
    by (auto simp: sql_claim_key_def insert_idempotency_keys_def split: if_splits sum.splits)
  then have "length (idempotency_keys d') = Suc (length (idempotency_keys d))"
  proof (cases rule: reserve_take_cases)
    case (take e1 n e2 m)
    have e2: "idempotency_keys e2 = idempotency_keys ?d1"
      using take(1,3) by (auto simp: sql_take_sale_stock_def update_flash_sales_Inr sql_take_inventory_def update_inventory_Inr)
    from take(5) show ?thesis
    proof (cases rule: reserve_record_cases)
      case (recorded rid oid f1 f2 f3 k)
      have "idempotency_keys f3 = idempotency_keys e2"
        using recorded(5) insert_reservations_Inr [OF recorded(3)] insert_orders_Inr [OF recorded(4)] by (auto simp: event_Inr)
      then show ?thesis
        using recorded(6) e2 by (simp add: sql_store_success_def update_idempotency_keys_Inr)
    qed simp
  qed simp_all
  then show ?thesis by auto
qed

lemma replay_result:
  assumes g: "good d" and r: "Reserve s e d sid req = (Inr x, d)"
  shows "reserve_settled (sha256 e) d (sid, req) (Inr (x\<lparr>Result_Duplicate := True\<rparr>))"
proof -
  let ?key = "TrimSpace (Request_IdempotencyKey req)" and ?u = "TrimSpace (Request_UserID req)" and ?n = "Request_Quantity req"
  have "?key \<in> idempotency_keys_key ` set (idempotency_keys d)" using Reserve_Inr_claimed [OF r] by blast
  then have "sql_claim_key e d ?key ?u (fingerprint e sid ?u ?n) = Inr None"
    by (simp add: sql_claim_key_def insert_idempotency_keys_def)
  with r have v: "\<not> request_invalid sid ?u ?n ?key"
      and rp: "replayReservation e d ?key ?u (fingerprint e sid ?u ?n) = (Inr x, d)"
    by (auto simp: Reserve_def Let_def split: if_splits sum.splits)
  from rp obtain k st resp where "find (\<lambda>k. idempotency_keys_key k = ?key \<and> idempotency_keys_scope k = ''reservation'') (idempotency_keys d) = Some k"
      "idempotency_keys_user_id k = ?u" "idempotency_keys_request_fingerprint k = fingerprint e sid ?u ?n"
      "idempotency_keys_response_status k = Some st" "idempotency_keys_response_body k = Some resp"
      "decode_response st resp = Inr x"
    unfolding replayReservation_def by (auto simp: commit_Inr split: sum.splits if_splits option.splits)
  moreover from this have "x\<lparr>Result_Duplicate := True\<rparr> = x"
    by (auto simp: decode_response_def split: if_splits option.splits)
  ultimately show ?thesis
    using v by (auto simp: reserve_settled_def Let_def fingerprint_def find_Some_iff)
qed

lemma reserve_retry:
  assumes g: "good d" and r: "Reserve s e d sid req = (Inr x, d1)" and h: "runs (step s) d1 cs d2"
    "list_all (\<lambda>c. \<not> wipes c \<and> \<not> purges c) cs" and e': "env_ok e'" "sha256 e' = sha256 e"
  shows "Reserve s e' d2 sid req = (Inr (x\<lparr>Result_Duplicate := True\<rparr>), d2)"
proof -
  have g1: "good d1" using Reserve_good [OF g, of s e sid req] r by simp
  have g2: "good d2" by (rule evolution.inv_runs [OF h(1) g1])
  have ev: "evolves d1 d2" by (rule evolution.rel_runs [OF h(1) g1 h(2)])
  have "reserve_settled (sha256 e) d1 (sid, req) (Inr (x\<lparr>Result_Duplicate := True\<rparr>))"
  proof (cases "d1 = d")
    case False
    then show ?thesis using Reserve_settles [OF g r] by blast
  next
    case True
    then show ?thesis using replay_result [OF g] r by simp
  qed
  then have "reserve_settled (sha256 e') d2 (sid, req) (Inr (x\<lparr>Result_Duplicate := True\<rparr>))"
    using reserve_settled_evolves [OF _ ev] e'(2) by simp
  then show ?thesis using Reserve_replays(2) [OF g2] e'(1) by blast
qed

end
