(* ===== verification/FlashSale.thy ===== *)
theory FlashSale
  imports Idempotency
begin

text \<open>
  A flash sale as a whole. \<open>verdict\<close> is the specification of \<open>Reserve\<close>: which refusal, if any, a fresh request
  gets, as a function of the database. \<open>Reserve_verdict\<close> shows that the code implements it, on every branch.
  \<open>rush\<close> sends the requests of many buyers one after the other; with one unit per buyer exactly as many succeed as the sale has units,
  first come first served, and everyone else is told it is sold out.
\<close>

section \<open>The specification of Reserve\<close>

definition sale_open :: "env \<Rightarrow> flash_sales_row \<Rightarrow> bool" where
  "sale_open e sale \<longleftrightarrow> flash_sales_state sale = SaleActive \<and> flash_sales_starts_at sale \<le> go_now e
     \<and> go_now e < flash_sales_ends_at sale"

definition available_units :: "db \<Rightarrow> string \<Rightarrow> int" where
  "available_units d pid = sum_where inventory_available (\<lambda>i. inventory_product_id i = pid) (inventory d)"

definition verdict :: "env \<Rightarrow> db \<Rightarrow> string \<Rightarrow> string \<Rightarrow> int \<Rightarrow> Error option" where
  "verdict e d saleID u q = (case sql_sale_product d saleID of
      None \<Rightarrow> Some \<lparr>Error_Code = ''SALE_NOT_FOUND'', Error_Message = ''Flash sale was not found'', Error_HTTPStatus = 404\<rparr>
    | Some (sale, p) \<Rightarrow>
      if \<not> sale_open e sale
      then Some \<lparr>Error_Code = ''SALE_NOT_ACTIVE'', Error_Message = ''The flash sale is not active'', Error_HTTPStatus = 409\<rparr>
      else if \<not> products_active p
      then Some \<lparr>Error_Code = ''PRODUCT_INACTIVE'', Error_Message = ''The product is inactive'', Error_HTTPStatus = 409\<rparr>
      else if flash_sales_max_quantity_per_user sale < user_units (reservations d) saleID u + q
      then Some \<lparr>Error_Code = ''PURCHASE_LIMIT_EXCEEDED'',
             Error_Message = ''The per-user purchase limit would be exceeded'', Error_HTTPStatus = 409\<rparr>
      else if flash_sales_remaining_stock sale < q
      then Some \<lparr>Error_Code = ''INVENTORY_SOLD_OUT'', Error_Message = ''The flash sale allocation is sold out'',
             Error_HTTPStatus = 409\<rparr>
      else if available_units d (products_id p) < q then Some sold_out
      else None)"

text \<open>
  The database a refusal leaves: the refusal is stored under the key, and the last one has also
  decremented the sale's remaining stock.
\<close>

definition after_refusal :: "env \<Rightarrow> db \<Rightarrow> string \<Rightarrow> string \<Rightarrow> int \<Rightarrow> string \<Rightarrow> Error \<Rightarrow> db" where
  "after_refusal e d saleID u q key de =
     refused e (if de = sold_out then d\<lparr>flash_sales := taken_sales e saleID q (flash_sales d)\<rparr> else d) saleID u q key de"

lemma finish_error_ok:
  assumes "all_ok e" "idempotency_keys d = ks @ [k]" "key \<notin> idempotency_keys_key ` set ks" "idempotency_keys_key k = key"
  shows "finishReservationError e d0 (Some d) key de = (Inl (DomainError de), d\<lparr>idempotency_keys := ks @ [error_key k de]\<rparr>)"
  using assms by (simp add: finishReservationError_def sql_store_error_def update_idempotency_keys_eq update_key_last)

lemma available_unique:
  assumes l: "ledger es fs hs gs d" and p: "pid \<in> products_id ` set (products d)"
  obtains i where "i \<in> set (inventory d)" "inventory_product_id i = pid" "available_units d pid = inventory_available i"
    "\<forall>j \<in> set (inventory d). inventory_product_id j = pid \<longrightarrow> j = i"
proof -
  obtain i where i: "i \<in> set (inventory d)" "inventory_product_id i = pid"
    by (rule inventory_row_of [OF ledgerD(2) [OF l] p])
  have "filter (\<lambda>i. inventory_product_id i = pid) (inventory d) = [i]"
    by (rule filter_key_unique [OF keysD(2) [OF ledgerD(1) [OF l]] i(1)]) (simp_all add: i(2))
  then have "available_units d pid = inventory_available i" by (simp add: available_units_def sum_where_def)
  moreover have "j = i" if "j \<in> set (inventory d)" "inventory_product_id j = pid" for j
    using distinct_key_eq [OF keysD(2) [OF ledgerD(1) [OF l]] that(1) i(1)] that(2) i(2) by simp
  ultimately show thesis using that i by blast
qed

lemma take_sale_too_much:
  assumes "schema_ok d" "sale \<in> set (flash_sales d)" "flash_sales_id sale = sid" "flash_sales_remaining_stock sale < q"
  shows "sql_take_sale_stock e d sid q = Inr (d, 0)"
proof -
  have "rows_where (\<lambda>s. flash_sales_id s = sid \<and> flash_sales_state s = SaleActive \<and> q \<le> flash_sales_remaining_stock s) (flash_sales d) = 0"
    using distinct_key_eq [OF keysD(3) [OF assms(1)]] assms(2-4) by (fastforce simp: rows_where_0)
  then show ?thesis
    by (simp add: sql_take_sale_stock_def update_flash_sales_Inr guarded_miss) (auto simp: rows_where_0)
qed

lemma take_inventory_too_much:
  assumes "\<And>i. i \<in> set (inventory d) \<Longrightarrow> inventory_product_id i = pid \<Longrightarrow> inventory_available i < q"
  shows "sql_take_inventory e d pid q = Inr (d, 0)"
proof -
  have "rows_where (\<lambda>i. inventory_product_id i = pid \<and> q \<le> inventory_available i) (inventory d) = 0"
    using assms by (force simp: rows_where_0)
  then show ?thesis
    by (simp add: sql_take_inventory_def update_inventory_Inr guarded_miss) (auto simp: rows_where_0)
qed

lemma Reserve_refused:
  assumes g: "good d" and ok: "all_ok e"
    and req: "u = TrimSpace (Request_UserID request)" "key = TrimSpace (Request_IdempotencyKey request)"
      "q = Request_Quantity request"
    and v: "\<not> request_invalid saleID u q key"
    and new: "key \<notin> idempotency_keys_key ` set (idempotency_keys d)"
    and vd: "verdict e d saleID u q = Some de"
  shows "Reserve s e d saleID request = (Inl (DomainError de), after_refusal e d saleID u q key de)"
proof -
  let ?k = "new_key e key u (fingerprint e saleID u q)"
  let ?d1 = "d\<lparr>idempotency_keys := idempotency_keys d @ [?k]\<rparr>"
  have c: "sql_claim_key e d key u (fingerprint e saleID u q) = Inr (Some ?d1)" using new by (simp add: claim_Some)
  note l = claim_good [OF g c]
  have q: "0 < q" "q \<le> 100" using v by (simp_all add: request_invalid_def)
  have fin: "finishReservationError e d (Some (?d1\<lparr>flash_sales := rows\<rparr>)) key de
      = (Inl (DomainError de), refused e (d\<lparr>flash_sales := rows\<rparr>) saleID u q key de)" for rows de
    using finish_error_ok [OF ok _ new, of "?d1\<lparr>flash_sales := rows\<rparr>" ?k d de] by simp
  have fin0: "finishReservationError e d (Some ?d1) key de = (Inl (DomainError de), refused e d saleID u q key de)" for de
    using finish_error_ok [OF ok _ new, of ?d1 ?k d de] by simp
  show ?thesis
  proof (cases "sql_sale_product d saleID")
    case None
    have "domainError ErrNotFound a b h = \<lparr>Error_Code = a, Error_Message = b, Error_HTTPStatus = h\<rparr>" for a b h
      by (simp add: domainError_def ErrNotFound_def)
    then show ?thesis
      using vd ok v c fin0 None unfolding Reserve_def Let_def req
      by (auto simp: verdict_def after_refusal_def)
  next
    case (Some x)
    obtain sale p where x: "x = (sale, p)" by (cases x)
    have l0: "ledger [] [] [] [] d" using g by (simp add: good_def)
    note sale = sale_product_Some [OF ledgerD(1) [OF l0] Some [unfolded x]]
    have pin: "products_id p \<in> products_id ` set (products d)" using sale(3) by simp
    obtain i where i: "i \<in> set (inventory d)" "inventory_product_id i = products_id p"
        "available_units d (products_id p) = inventory_available i"
        "\<forall>j \<in> set (inventory d). inventory_product_id j = products_id p \<longrightarrow> j = i"
      by (rule available_unique [OF l0 pin])
    have ex: "wrap64 (sql_existing_quantity ?d1 saleID u + q) = user_units (reservations d) saleID u + q"
      using existing_no_wrap [OF l(1), of sale saleID q u] sale q by simp
    have closed_iff: "(flash_sales_state sale \<noteq> SaleActive \<or> go_now e < flash_sales_starts_at sale
        \<or> \<not> go_now e < flash_sales_ends_at sale) = (\<not> sale_open e sale)" by (auto simp: sale_open_def)
    note take = reserve_take_def Let_def closed_iff verdict_def after_refusal_def
    consider (closed) "\<not> sale_open e sale" | (inactive) "sale_open e sale" "\<not> products_active p"
      | (limit) "sale_open e sale" "products_active p" "flash_sales_max_quantity_per_user sale < user_units (reservations d) saleID u + q"
      | (stock) "sale_open e sale" "products_active p" "\<not> flash_sales_max_quantity_per_user sale < user_units (reservations d) saleID u + q"
      by blast
    then have "reserve_take s e d ?d1 saleID u q key sale p = (Inl (DomainError de), after_refusal e d saleID u q key de)"
    proof cases
      case stock
      then have act: "flash_sales_state sale = SaleActive" by (simp add: sale_open_def)
      show ?thesis
      proof (cases "flash_sales_remaining_stock sale < q")
        case True
        have "sql_take_sale_stock e ?d1 saleID q = Inr (?d1, 0)"
          using take_sale_too_much [OF ledgerD(1) [OF l(1)], of sale saleID q e] sale True by simp
        moreover have de: "de = \<lparr>Error_Code = ''INVENTORY_SOLD_OUT'', Error_Message = ''The flash sale allocation is sold out'',
             Error_HTTPStatus = 409\<rparr>"
          using vd Some x stock True by (simp add: verdict_def)
        ultimately show ?thesis using ok ex stock unfolding take de by (simp add: fin0)
      next
        case False
        then have ts: "sql_take_sale_stock e ?d1 saleID q = Inr (?d1\<lparr>flash_sales := taken_sales e saleID q (flash_sales d)\<rparr>, 1)"
          using take_sale_ok [OF ledgerD(1) [OF l(1)], of sale saleID q e] sale act q(1) by simp
        have av: "inventory_available i < q" "de = sold_out" using vd Some x stock False i(3) by (auto simp: verdict_def split: if_splits)
        have ti: "sql_take_inventory e (?d1\<lparr>flash_sales := rows\<rparr>) (products_id p) q = Inr (?d1\<lparr>flash_sales := rows\<rparr>, 0)" for rows
          by (rule take_inventory_too_much) (use i(4) av in auto)
        show ?thesis using ok ex fin ts ti stock av unfolding take by simp
      qed
    next
      case closed
      have de: "de = \<lparr>Error_Code = ''SALE_NOT_ACTIVE'', Error_Message = ''The flash sale is not active'', Error_HTTPStatus = 409\<rparr>"
        using vd Some x closed by (simp add: verdict_def)
      show ?thesis using closed unfolding take de by (simp add: fin0)
    next
      case inactive
      have de: "de = \<lparr>Error_Code = ''PRODUCT_INACTIVE'', Error_Message = ''The product is inactive'', Error_HTTPStatus = 409\<rparr>"
        using vd Some x inactive by (simp add: verdict_def)
      show ?thesis using inactive unfolding take de by (simp add: fin0)
    next
      case limit
      have de: "de = \<lparr>Error_Code = ''PURCHASE_LIMIT_EXCEEDED'',
             Error_Message = ''The per-user purchase limit would be exceeded'', Error_HTTPStatus = 409\<rparr>"
        using vd Some x limit by (simp add: verdict_def)
      show ?thesis using ok ex limit unfolding take de by (simp add: fin0)
    qed
    then show ?thesis
      using v ok c Some unfolding Reserve_def Let_def req x by simp
  qed
qed

lemma Reserve_accepted:
  assumes g: "good d" and ok: "all_ok e" and ids: "fresh_ids e d rid oid eid"
    and req: "u = TrimSpace (Request_UserID request)" "key = TrimSpace (Request_IdempotencyKey request)"
      "q = Request_Quantity request"
    and v: "\<not> request_invalid saleID u q key" "1 \<le> char_length u"
    and new: "key \<notin> idempotency_keys_key ` set (idempotency_keys d)"
    and sp: "sql_sale_product d saleID = Some (sale, p)" and vd: "verdict e d saleID u q = None"
    and amount: "0 \<le> wrap64 (products_price_minor p * q)"
  shows "Reserve s e d saleID request = (Inr (reserved_result s e saleID u q p rid oid), booked s e d saleID u q key p rid oid eid)"
proof -
  have l0: "ledger [] [] [] [] d" using g by (simp add: good_def)
  note sale = sale_product_Some [OF ledgerD(1) [OF l0] sp]
  have pin: "products_id p \<in> products_id ` set (products d)" using sale(3) by simp
  obtain i where i: "i \<in> set (inventory d)" "inventory_product_id i = products_id p"
      "available_units d (products_id p) = inventory_available i"
    by (rule available_unique [OF l0 pin]) blast
  show ?thesis
    by (rule Reserve_booked [OF g ok ids req v new sp _ _ _ _ _ _ _ amount])
      (use vd sp i in \<open>auto simp: verdict_def sale_open_def split: if_splits\<close>)
qed

section \<open>A rush of buyers\<close>

fun rush :: "Store \<Rightarrow> db \<Rightarrow> string \<Rightarrow> (env \<times> ReservationRequest) list \<Rightarrow> (go_error + ReservationResult) list \<times> db" where
  "rush s d sid [] = ([], d)"
| "rush s d sid ((e, req) # bs) =
    (let (r, d') = Reserve s e d sid req; (rs, d'') = rush s d' sid bs in (r # rs, d''))"

definition the_id :: "env \<Rightarrow> nat \<Rightarrow> string" where
  "the_id e n = (case NewID (rand e n) of Inr i \<Rightarrow> i | Inl err \<Rightarrow> '''')"

abbreviation user_arg :: "ReservationRequest \<Rightarrow> string" where
  "user_arg req \<equiv> TrimSpace (Request_UserID req)"

abbreviation reserve_key :: "ReservationRequest \<Rightarrow> string" where
  "reserve_key req \<equiv> TrimSpace (Request_IdempotencyKey req)"

text \<open>Buyers of one unit each: different people with different keys, no fault, and identifiers nobody has used.\<close>

definition buyer_ok :: "db \<Rightarrow> string \<Rightarrow> int \<Rightarrow> int \<Rightarrow> env \<times> ReservationRequest \<Rightarrow> bool" where
  "buyer_ok d sid lo hi b \<longleftrightarrow> (case b of (e, req) \<Rightarrow> env_ok e \<and> lo \<le> go_now e \<and> go_now e < hi
     \<and> Request_Quantity req = 1 \<and> \<not> request_invalid sid (user_arg req) 1 (reserve_key req) \<and> 1 \<le> char_length (user_arg req)
     \<and> user_units (reservations d) sid (user_arg req) = 0
     \<and> reserve_key req \<notin> idempotency_keys_key ` set (idempotency_keys d)
     \<and> the_id e 0 \<notin> reservations_id ` set (reservations d) \<and> the_id e 1 \<notin> orders_id ` set (orders d)
     \<and> the_id e 2 \<notin> domain_events_id ` set (domain_events d))"

definition buyers_ok :: "db \<Rightarrow> string \<Rightarrow> int \<Rightarrow> int \<Rightarrow> (env \<times> ReservationRequest) list \<Rightarrow> bool" where
  "buyers_ok d sid lo hi bs \<longleftrightarrow> list_all (buyer_ok d sid lo hi) bs
     \<and> distinct (map (\<lambda>(e, req). user_arg req) bs) \<and> distinct (map (\<lambda>(e, req). reserve_key req) bs)
     \<and> distinct (map (\<lambda>(e, req). the_id e 0) bs) \<and> distinct (map (\<lambda>(e, req). the_id e 1) bs)
     \<and> distinct (map (\<lambda>(e, req). the_id e 2) bs)"

definition on_sale :: "db \<Rightarrow> string \<Rightarrow> int \<Rightarrow> int \<Rightarrow> nat \<Rightarrow> bool" where
  "on_sale d sid lo hi n \<longleftrightarrow> (case sql_sale_product d sid of None \<Rightarrow> False
    | Some (sale, p) \<Rightarrow> flash_sales_state sale = SaleActive \<and> flash_sales_starts_at sale \<le> lo \<and> hi \<le> flash_sales_ends_at sale
        \<and> products_active p \<and> 1 \<le> flash_sales_max_quantity_per_user sale
        \<and> flash_sales_remaining_stock sale = int n \<and> int n \<le> available_units d (products_id p))"

abbreviation allocation_sold_out :: Error where
  "allocation_sold_out \<equiv> \<lparr>Error_Code = ''INVENTORY_SOLD_OUT'', Error_Message = ''The flash sale allocation is sold out'',
     Error_HTTPStatus = 409\<rparr>"

interpretation sale_taken: keyed_update flash_sales_id
  "\<lambda>s. s\<lparr>flash_sales_remaining_stock := flash_sales_remaining_stock s - q, flash_sales_updated_at := t\<rparr>" for q t
  by unfold_locales simp

interpretation inventory_taken: keyed_update inventory_product_id
  "\<lambda>i. i\<lparr>inventory_available := inventory_available i - q, inventory_reserved := inventory_reserved i + q,
     inventory_updated_at := t\<rparr>" for q t
  by unfold_locales simp

lemma env_ok_fresh: "env_ok e \<Longrightarrow> NewID (rand e n) = Inr (the_id e n)"
  by (auto simp: env_ok_def the_id_def NewID_def split: option.split)

lemma on_sale_booked:
  assumes l: "ledger [] [] [] [] d" and o: "on_sale d sid lo hi (Suc n)"
    and sp: "sql_sale_product d sid = Some (sale, p)"
  shows "on_sale (booked s e d sid u 1 key p rid oid eid) sid lo hi n"
proof -
  note sale = sale_product_Some [OF ledgerD(1) [OF l] sp]
  have pin: "products_id p \<in> products_id ` set (products d)" using sale(3) by simp
  obtain i where i: "i \<in> set (inventory d)" "inventory_product_id i = products_id p"
      "available_units d (products_id p) = inventory_available i"
    by (rule available_unique [OF l pin])
  have "available_units (booked s e d sid u 1 key p rid oid eid) (products_id p) = available_units d (products_id p) - 1"
    using inventory_taken.sum_update_one [OF keysD(2) [OF ledgerD(1) [OF l]] i(1), where
        P = "\<lambda>i. inventory_product_id i = products_id p" and qa = 1 and t = "db_now e" and
        Q = "\<lambda>i. inventory_product_id i = products_id p" and q = inventory_available] i(2)
    by (simp add: available_units_def)
  moreover have "sql_sale_product (booked s e d sid u 1 key p rid oid eid) sid
      = Some (sale\<lparr>flash_sales_remaining_stock := flash_sales_remaining_stock sale - 1, flash_sales_updated_at := db_now e\<rparr>, p)"
    using sp sale(2) by (auto simp: sql_sale_product_def sale_taken.find_update split: option.splits)
  ultimately show ?thesis using o sp by (simp add: on_sale_def)
qed

lemma buyers_ok_booked:
  assumes b: "buyers_ok d sid lo hi ((e, req) # bs)"
  shows "buyers_ok (booked s e d sid (user_arg req) 1 (reserve_key req) p (the_id e 0) (the_id e 1) (the_id e 2)) sid lo hi bs"
  using b unfolding buyers_ok_def
  by (auto simp: list_all_iff buyer_ok_def image_iff)

lemma buyers_ok_refused:
  assumes b: "buyers_ok d sid lo hi ((e, req) # bs)"
  shows "buyers_ok (refused e d sid (user_arg req) 1 (reserve_key req) de) sid lo hi bs"
  using b unfolding buyers_ok_def
  by (auto simp: list_all_iff buyer_ok_def image_iff)

text \<open>The next buyer of a rush: served while there is stock, refused afterwards.\<close>

lemma rush_step:
  assumes g: "good d" and sale: "on_sale d sid lo hi n" and buyers: "buyers_ok d sid lo hi ((e, req) # bs)"
  obtains (refused) "n = 0" "Reserve s e d sid req = (Inl (DomainError allocation_sold_out),
        refused e d sid (user_arg req) 1 (reserve_key req) allocation_sold_out)"
      "on_sale (refused e d sid (user_arg req) 1 (reserve_key req) allocation_sold_out) sid lo hi 0"
      "buyers_ok (refused e d sid (user_arg req) 1 (reserve_key req) allocation_sold_out) sid lo hi bs"
  | (served) m sl p where "n = Suc m" "sql_sale_product d sid = Some (sl, p)"
      "Reserve s e d sid req = (Inr (reserved_result s e sid (user_arg req) 1 p (the_id e 0) (the_id e 1)),
        booked s e d sid (user_arg req) 1 (reserve_key req) p (the_id e 0) (the_id e 1) (the_id e 2))"
      "on_sale (booked s e d sid (user_arg req) 1 (reserve_key req) p (the_id e 0) (the_id e 1) (the_id e 2)) sid lo hi m"
      "buyers_ok (booked s e d sid (user_arg req) 1 (reserve_key req) p (the_id e 0) (the_id e 1) (the_id e 2)) sid lo hi bs"
proof -
  have bo: "buyer_ok d sid lo hi (e, req)" using buyers by (simp add: buyers_ok_def)
  obtain sl p where sp: "sql_sale_product d sid = Some (sl, p)"
    using sale by (auto simp: on_sale_def split: option.splits)
  have ok: "env_ok e" "all_ok e" and q: "1 = Request_Quantity req" and v: "\<not> request_invalid sid (user_arg req) 1 (reserve_key req)"
      "1 \<le> char_length (user_arg req)" and new: "reserve_key req \<notin> idempotency_keys_key ` set (idempotency_keys d)"
    using bo by (simp_all add: buyer_ok_def env_ok_def)
  have l: "ledger [] [] [] [] d" using g by (simp add: good_def)
  have op: "sale_open e sl" "products_active p" "1 \<le> flash_sales_max_quantity_per_user sl"
      "user_units (reservations d) sid (user_arg req) = 0" "flash_sales_remaining_stock sl = int n"
      "int n \<le> available_units d (products_id p)"
    using sale bo by (simp_all add: on_sale_def sp buyer_ok_def sale_open_def)
  show thesis
  proof (cases n)
    case 0
    have "verdict e d sid (user_arg req) 1 = Some allocation_sold_out" using op 0 sp by (simp add: verdict_def)
    from Reserve_refused [OF g ok(2) refl refl q v(1) new this]
    have r: "Reserve s e d sid req = (Inl (DomainError allocation_sold_out), refused e d sid (user_arg req) 1 (reserve_key req) allocation_sold_out)"
      by (simp add: after_refusal_def)
    have "on_sale (refused e d sid (user_arg req) 1 (reserve_key req) allocation_sold_out) sid lo hi 0"
      using sale 0 sp by (simp add: on_sale_def available_units_def)
    then show thesis using that(1) 0 r buyers_ok_refused [OF buyers] by blast
  next
    case (Suc m)
    have "verdict e d sid (user_arg req) 1 = None" using op Suc sp by (simp add: verdict_def)
    moreover have ids: "fresh_ids e d (the_id e 0) (the_id e 1) (the_id e 2)"
      using bo ok(1) env_ok_fresh [of e] by (simp add: fresh_ids_def buyer_ok_def)
    moreover have "products_check p"
      using sale_product_Some(3) [OF ledgerD(1) [OF l] sp] ledgerD(1) [OF l] by (simp add: schema_defs list_all_iff)
    then have "0 \<le> wrap64 (products_price_minor p * 1)" by (simp add: products_check_def wrap64_id)
    ultimately have "Reserve s e d sid req = (Inr (reserved_result s e sid (user_arg req) 1 p (the_id e 0) (the_id e 1)),
        booked s e d sid (user_arg req) 1 (reserve_key req) p (the_id e 0) (the_id e 1) (the_id e 2))"
      using Reserve_accepted [OF g ok(2) ids refl refl q v new sp] by blast
    then show thesis using that(2) Suc sp on_sale_booked [OF l _ sp] sale buyers_ok_booked [OF buyers] by blast
  qed
qed

lemma rush_result:
  assumes "good d" "on_sale d sid lo hi n" "buyers_ok d sid lo hi bs"
  shows "\<exists>xs. length xs = min n (length bs) \<and> (\<forall>x \<in> set xs. \<not> Result_Duplicate x) \<and> fst (rush s d sid bs) =
    map Inr xs @ replicate (length bs - n) (Inl (DomainError allocation_sold_out))"
  using assms
proof (induction bs arbitrary: d n)
  case (Cons b bs)
  obtain e req where b: "b = (e, req)" by (cases b)
  have g': "good (snd (Reserve s e d sid req))" by (rule Reserve_good [OF Cons.prems(1)])
  have "buyers_ok d sid lo hi ((e, req) # bs)" using Cons.prems(3) by (simp add: b)
  with Cons.prems(1,2) show ?case
  proof (cases rule: rush_step [where s = s])
    case refused
    from Cons.IH [OF _ refused(3,4)] g' refused(2) show ?thesis
      by (simp add: b refused(1) case_prod_beta Let_def)
  next
    case (served m sl p)
    from Cons.IH [OF _ served(4,5)] g' served(3)
    obtain xs where "length xs = min m (length bs)" "\<forall>x \<in> set xs. \<not> Result_Duplicate x" "fst (rush s (snd (Reserve s e d sid req)) sid bs)
        = map Inr xs @ replicate (length bs - m) (Inl (DomainError allocation_sold_out))" by auto
    then show ?thesis
      using served(3) by (intro exI [of _ "reserved_result s e sid (user_arg req) 1 p (the_id e 0) (the_id e 1) # xs"])
        (simp add: b served(1) case_prod_beta Let_def)
  qed
qed simp

text \<open>
  The shape of the demo's data: one product and one sale of all of its \<open>N\<close> units, whose counters move together. The status report
  passes on it, and a rush keeps it.
\<close>

definition demo_like :: "int \<Rightarrow> db \<Rightarrow> bool" where
  "demo_like N d \<longleftrightarrow> length (reservations d) = length (orders d) \<and>
    (case (products d, inventory d, flash_sales d) of ([p], [i], [sl]) \<Rightarrow>
       inventory_product_id i = products_id p \<and> flash_sales_product_id sl = products_id p
       \<and> flash_sales_allocated_stock sl = N \<and> inventory_available i = flash_sales_remaining_stock sl
       \<and> inventory_available i + inventory_reserved i + inventory_sold i = N
     | _ \<Rightarrow> False)"

lemma demo_likeE:
  assumes "demo_like N d"
  obtains p i sl where "products d = [p]" "inventory d = [i]" "flash_sales d = [sl]" "length (reservations d) = length (orders d)"
    "inventory_product_id i = products_id p" "flash_sales_product_id sl = products_id p" "flash_sales_allocated_stock sl = N"
    "inventory_available i = flash_sales_remaining_stock sl" "inventory_available i + inventory_reserved i + inventory_sold i = N"
  using assms by (auto simp: demo_like_def split: list.splits)

lemma demo_like_booked:
  assumes "demo_like N d" "sql_sale_product d sid = Some (sl, p)"
  shows "demo_like N (booked s e d sid u q key p rid oid eid)"
proof -
  obtain p1 i s1 where d: "products d = [p1]" "inventory d = [i]" "flash_sales d = [s1]" "length (reservations d) = length (orders d)"
    "inventory_product_id i = products_id p1" "flash_sales_product_id s1 = products_id p1" "flash_sales_allocated_stock s1 = N"
    "inventory_available i = flash_sales_remaining_stock s1" "inventory_available i + inventory_reserved i + inventory_sold i = N"
    by (rule demo_likeE [OF assms(1)])
  then have "p = p1" "flash_sales_id s1 = sid" using assms(2) by (auto simp: sql_sale_product_def split: if_splits option.splits)
  then show ?thesis using d by (simp add: demo_like_def update_where_def)
qed

lemma demo_like_refused: "demo_like N d \<Longrightarrow> demo_like N (refused e d sid u q key de)"
  by (simp add: demo_like_def)

lemma rush_demo_like:
  assumes "good d" "on_sale d sid lo hi n" "buyers_ok d sid lo hi bs" "demo_like N d"
  shows "good (snd (rush s d sid bs)) \<and> demo_like N (snd (rush s d sid bs))"
  using assms
proof (induction bs arbitrary: d n)
  case (Cons b bs)
  obtain e req where b: "b = (e, req)" by (cases b)
  have g': "good (snd (Reserve s e d sid req))" by (rule Reserve_good [OF Cons.prems(1)])
  have "buyers_ok d sid lo hi ((e, req) # bs)" using Cons.prems(3) by (simp add: b)
  with Cons.prems(1,2) show ?case
  proof (cases rule: rush_step [where s = s])
    case refused
    from Cons.IH [OF _ refused(3,4) demo_like_refused [OF Cons.prems(4)]] g' refused(2) show ?thesis
      by (simp add: b case_prod_beta Let_def)
  next
    case (served m sl p)
    from Cons.IH [OF _ served(4,5) demo_like_booked [OF Cons.prems(4) served(2)]] g' served(3) show ?thesis
      by (simp add: b case_prod_beta Let_def)
  qed
qed simp

lemma duplicate_orders_0: "distinct (map orders_reservation_id (orders d)) \<Longrightarrow> duplicate_orders d = 0"
proof -
  assume "distinct (map orders_reservation_id (orders d))"
  moreover have "count_list xs x \<le> 1" if "distinct xs" for xs :: "string list" and x
    using that by (induction xs) (auto simp: count_list_0_iff)
  ultimately have "\<not> 1 < count_list (map orders_reservation_id (orders d)) x" for x by (metis not_less)
  then show ?thesis by (simp add: duplicate_orders_def)
qed

lemma demo_like_status:
  assumes "good d" "demo_like N d" "all_ok e"
  shows "\<exists>st. DemoStatus e b d = Inr st \<and> Status_InvariantPass st \<and> 0 \<le> Product_Available (Status_Product st)
    \<and> Status_DuplicateOrders st = 0 \<and> Status_Reservations st = int (length (reservations d))"
proof -
  have sc: "schema_ok d" using assms(1) by (simp add: good_def ledger_def)
  obtain p i sl where d: "products d = [p]" "inventory d = [i]" "flash_sales d = [sl]" "length (reservations d) = length (orders d)"
    "inventory_product_id i = products_id p" "flash_sales_product_id sl = products_id p" "flash_sales_allocated_stock sl = N"
    "inventory_available i = flash_sales_remaining_stock sl" "inventory_available i + inventory_reserved i + inventory_sold i = N"
    by (rule demo_likeE [OF assms(2)])
  have "duplicate_orders d = 0" by (rule duplicate_orders_0 [OF keysD(6) [OF sc]])
  moreover have "0 \<le> inventory_available i" "0 \<le> inventory_reserved i" "0 \<le> inventory_sold i"
    using inventory_checkD [OF sc, of i] d(2) by (simp_all add: inventory_check_def)
  ultimately show ?thesis
    using d assms(3) by (simp add: DemoStatus_def sql_products_def product_of_def sale_of_row_def invariant_pass_def)
qed

section \<open>From a reset\<close>

definition demo_data :: "env \<Rightarrow> int \<Rightarrow> db" where
  "demo_data e n = empty_db\<lparr>products := [demo_product e (the_id e 0)],
     inventory := [demo_inventory e (the_id e 0) n], flash_sales := [demo_sale e (the_id e 1) (the_id e 0) n]\<rparr>"

lemma demo_product_check: "products_check (demo_product e pid)"
proof -
  have "char_length ''StockRush Limited Drop'' = 22" "ToUpper ''THB'' = ''THB''" "char_length ''THB'' = 3" by code_simp+
  then show ?thesis by (simp add: products_check_def demo_product_def int8_def)
qed

lemma DemoStatus_demo_data:
  assumes "all_ok e'" "0 \<le> n"
  shows "\<exists>st. DemoStatus e' b (demo_data e n) = Inr st \<and> Status_InvariantPass st \<and> Product_Available (Status_Product st) = n
     \<and> Sale_RemainingStock (Status_Sale st) = n \<and> Status_Reservations st = 0 \<and> Status_Orders st = 0"
  using assms
  by (simp add: DemoStatus_def demo_data_def empty_db_def sql_products_def demo_inventory_def demo_product_def
      demo_sale_def product_of_def sale_of_row_def duplicate_orders_def invariant_pass_def)

lemma ResetDemo_ok:
  assumes "env_ok e" "1 \<le> n" "n \<le> 100000"
  shows "ResetDemo e b d n = (DemoStatus e (b + 6) (demo_data e n), demo_data e n)"
proof -
  have ids: "NewID (rand e 0) = Inr (the_id e 0)" "NewID (rand e 1) = Inr (the_id e 1)" "all_ok e"
    using env_ok_fresh assms(1) by (auto simp: env_ok_def)
  have "insert_products empty_db (demo_product e (the_id e 0)) = Inr (empty_db\<lparr>products := [demo_product e (the_id e 0)]\<rparr>)"
    using demo_product_check [of e "the_id e 0"] by (simp add: insert_products_def empty_db_def)
  moreover have "insert_inventory (empty_db\<lparr>products := [demo_product e (the_id e 0)]\<rparr>) (demo_inventory e (the_id e 0) n)
      = Inr (empty_db\<lparr>products := [demo_product e (the_id e 0)], inventory := [demo_inventory e (the_id e 0) n]\<rparr>)"
    using assms(2,3) by (simp add: insert_inventory_def empty_db_def demo_inventory_def demo_product_def inventory_check_def int4_def)
  moreover have "insert_flash_sales (empty_db\<lparr>products := [demo_product e (the_id e 0)], inventory := [demo_inventory e (the_id e 0) n]\<rparr>)
      (demo_sale e (the_id e 1) (the_id e 0) n) = Inr (demo_data e n)"
    using assms(2,3)
    by (simp add: insert_flash_sales_def empty_db_def demo_sale_def demo_product_def flash_sales_check_def int4_def demo_data_def)
  ultimately show ?thesis
    using ids assms(2,3) unfolding ResetDemo_def by (simp del: One_nat_def)
qed

lemma demo_data_like: "demo_like n (demo_data e n)"
  by (simp add: demo_like_def demo_data_def empty_db_def demo_product_def demo_inventory_def demo_sale_def)

lemma demo_data_on_sale:
  assumes "0 \<le> n"
  shows "on_sale (demo_data e n) (the_id e 1) (go_now e) (go_now e + 365 * 24 * 3600 * 1000000) (nat n)"
  using assms
  by (simp add: on_sale_def sql_sale_product_def demo_data_def demo_sale_def demo_product_def demo_inventory_def
      available_units_def empty_db_def)

end
