(* ===== verification/MoveEffect.thy ===== *)
theory MoveEffect
  imports FlashSale
begin

text \<open>
  The exact effect of the operations that move an existing reservation: cancellation and confirmation
  (\<open>TransitionReservation\<close>), payment (\<open>SimulatePayment\<close>) and the expiration batch
  (\<open>ExpireBatch\<close>). With a good database and no fault they all succeed; in particular the guards
  that report a broken inventory invariant are never taken.
\<close>

section \<open>Units going back\<close>

abbreviation returned_inventory :: "int \<Rightarrow> string \<Rightarrow> int \<Rightarrow> inventory_row list \<Rightarrow> inventory_row list" where
  "returned_inventory t pid q rows \<equiv> update_where (\<lambda>i. inventory_product_id i = pid)
     (\<lambda>i. i\<lparr>inventory_available := inventory_available i + q, inventory_reserved := inventory_reserved i - q,
        inventory_updated_at := t\<rparr>) rows"

abbreviation returned_sales :: "int \<Rightarrow> string \<Rightarrow> int \<Rightarrow> flash_sales_row list \<Rightarrow> flash_sales_row list" where
  "returned_sales t sid q rows \<equiv> update_where (\<lambda>s. flash_sales_id s = sid)
     (\<lambda>s. s\<lparr>flash_sales_remaining_stock := flash_sales_remaining_stock s + q, flash_sales_updated_at := t\<rparr>) rows"

abbreviation moved_orders :: "int \<Rightarrow> string \<Rightarrow> OrderState \<Rightarrow> orders_row list \<Rightarrow> orders_row list" where
  "moved_orders t rid st rows \<equiv> update_where (\<lambda>x. orders_reservation_id x = rid)
     (\<lambda>x. x\<lparr>orders_state := st, orders_updated_at := t\<rparr>) rows"

lemma release_inventory_eq:
  assumes "schema_ok d" "sql_release_inventory t d pid q = Inr (d1, 1)"
  shows "d1 = d\<lparr>inventory := returned_inventory t pid q (inventory d)\<rparr>"
proof -
  have "rows_where (\<lambda>i. inventory_product_id i = pid \<and> q \<le> inventory_reserved i) (inventory d) \<noteq> 0"
    and "d1 = d\<lparr>inventory := update_where (\<lambda>i. inventory_product_id i = pid \<and> q \<le> inventory_reserved i)
      (\<lambda>i. i\<lparr>inventory_available := inventory_available i + q, inventory_reserved := inventory_reserved i - q,
        inventory_updated_at := t\<rparr>) (inventory d)\<rparr>"
    using assms(2) by (auto simp: sql_release_inventory_def update_inventory_Inr)
  then show ?thesis by (simp add: guarded_hit [OF keysD(2) [OF assms(1)]])
qed

lemma release_sale_eq:
  "sql_release_sale_stock t d sid q = Inr (d1, n) \<Longrightarrow> d1 = d\<lparr>flash_sales := returned_sales t sid q (flash_sales d)\<rparr>"
  by (simp add: sql_release_sale_stock_def update_flash_sales_Inr)

lemma order_state_eq:
  assumes "schema_ok d"
  shows "\<exists>n. sql_set_order_state_of_reservation t d rid st = Inr (d\<lparr>orders := moved_orders t rid st (orders d)\<rparr>, n)"
  using orders_checkD [OF assms]
  by (auto simp: sql_set_order_state_of_reservation_def update_orders_Inr orders_check_def)

text \<open>Releasing one reservation that is owed: both statements succeed, the first on exactly one row.\<close>

lemma release_both:
  fixes t :: int and d d1 :: db and c :: reservations_row
  assumes l: "ledger (c # es) (c # fs) hs gs d" and q: "0 \<le> reservations_quantity c"
    and pos: "\<And>y. y \<in> set es \<Longrightarrow> 0 \<le> reservations_quantity y" "\<And>y. y \<in> set fs \<Longrightarrow> 0 \<le> reservations_quantity y"
    and p: "reservations_product_id c \<in> products_id ` set (products d)"
  defines "d1 \<equiv> d\<lparr>inventory := returned_inventory t (reservations_product_id c) (reservations_quantity c) (inventory d)\<rparr>"
  shows "sql_release_inventory t d (reservations_product_id c) (reservations_quantity c) = Inr (d1, 1)"
    "\<exists>n. sql_release_sale_stock t d1 (reservations_sale_id c) (reservations_quantity c)
       = Inr (d1\<lparr>flash_sales := returned_sales t (reservations_sale_id c) (reservations_quantity c) (flash_sales d)\<rparr>, n)"
    "ledger es fs hs gs (d1\<lparr>flash_sales := returned_sales t (reservations_sale_id c) (reservations_quantity c) (flash_sales d)\<rparr>)"
proof -
  obtain rows where r: "sql_release_inventory t d (reservations_product_id c) (reservations_quantity c) = Inr (d\<lparr>inventory := rows\<rparr>, 1)"
      "ledger es (c # fs) hs gs (d\<lparr>inventory := rows\<rparr>)"
    by (rule release_inventory_ledger [OF l q pos(1) p])
  have d1: "d\<lparr>inventory := rows\<rparr> = d1"
    using release_inventory_eq [OF ledgerD(1) [OF l] r(1)] by (simp only: d1_def)
  show "sql_release_inventory t d (reservations_product_id c) (reservations_quantity c) = Inr (d1, 1)"
    using r(1) by (simp only: d1)
  have l1: "ledger es (c # fs) hs gs d1" using r(2) by (simp only: d1)
  obtain rows' n where s: "sql_release_sale_stock t d1 (reservations_sale_id c) (reservations_quantity c) = Inr (d1\<lparr>flash_sales := rows'\<rparr>, n)"
      "ledger es fs hs gs (d1\<lparr>flash_sales := rows'\<rparr>)"
    by (rule release_sale_ledger [OF l1 q pos(2)])
  moreover have "d1\<lparr>flash_sales := rows'\<rparr> = d1\<lparr>flash_sales := returned_sales t (reservations_sale_id c) (reservations_quantity c) (flash_sales d)\<rparr>"
    using release_sale_eq [OF s(1)] by (simp add: d1_def)
  ultimately show "\<exists>n. sql_release_sale_stock t d1 (reservations_sale_id c) (reservations_quantity c)
       = Inr (d1\<lparr>flash_sales := returned_sales t (reservations_sale_id c) (reservations_quantity c) (flash_sales d)\<rparr>, n)"
    and "ledger es fs hs gs (d1\<lparr>flash_sales := returned_sales t (reservations_sale_id c) (reservations_quantity c) (flash_sales d)\<rparr>)"
    by (auto simp only:)
qed

section \<open>Confirming and cancelling\<close>

lemma GetReservation_ok:
  assumes l: "ledger [] [] [] [] d" and r: "r \<in> set (reservations d)" and e: "fault e n = NoFault"
  obtains x where "x \<in> set (orders d)" "order_agrees r x"
    "GetReservation e n d (reservations_id r) = Inr (reservation_of_row (orders_id x) r)"
proof -
  note sc = ledgerD(1) [OF l]
  obtain x where x: "x \<in> set (orders d)" "order_agrees r x"
    using ledgerD(7) [OF l] r by (auto simp: ordered_def)
  have "find (\<lambda>x. orders_reservation_id x = reservations_id r) (orders d) = Some x"
    using find_Some_iff_key [OF keysD(6) [OF sc]] x by (simp add: order_agrees_def)
  moreover have "find (\<lambda>y. reservations_id y = reservations_id r) (reservations d) = Some r"
    using find_Some_iff_key [OF keysD(4) [OF sc]] r by simp
  ultimately show thesis using that [OF x] e by (simp add: GetReservation_def sql_get_reservation_def)
qed

abbreviation moved_event :: "env \<Rightarrow> string \<Rightarrow> reservations_row \<Rightarrow> ReservationState \<Rightarrow> domain_events_row" where
  "moved_event e eid r target \<equiv> \<lparr>domain_events_id = eid, domain_events_aggregate_type = ''reservation'',
     domain_events_aggregate_id = reservations_id r,
     domain_events_event_type = ''reservation.'' @ ReservationState_string target,
     domain_events_previous_state = NULLIF_empty (ReservationState_string (reservations_state r)),
     domain_events_new_state = NULLIF_empty (ReservationState_string target),
     domain_events_metadata = MetaNull, domain_events_created_at = db_now e\<rparr>"

abbreviation moved_db :: "env \<Rightarrow> db \<Rightarrow> string \<Rightarrow> reservations_row \<Rightarrow> ReservationState \<Rightarrow> db" where
  "moved_db e d eid r target \<equiv> d\<lparr>
     reservations := restated target (db_now e) (reservations_id r) (reservations d),
     orders := moved_orders (db_now e) (reservations_id r) (order_state_of target) (orders d),
     inventory := (if target = ReservationCancelled
       then returned_inventory (db_now e) (reservations_product_id r) (reservations_quantity r) (inventory d) else inventory d),
     flash_sales := (if target = ReservationCancelled
       then returned_sales (db_now e) (reservations_sale_id r) (reservations_quantity r) (flash_sales d) else flash_sales d),
     domain_events := domain_events d @ [moved_event e eid r target]\<rparr>"

text \<open>Once the reservation and its order are cancelled, the units are owed to both counters.\<close>

lemma cancel_ledger:
  assumes l: "ledger [] [] [] [] d" and r: "r \<in> set (reservations d)" "reservations_state r = ReservationPending"
  shows "ledger [r] [r] [] [] (d\<lparr>reservations := restated ReservationCancelled t (reservations_id r) (reservations d),
     orders := moved_orders t (reservations_id r) (order_state_of ReservationCancelled) (orders d)\<rparr>)"
proof -
  let ?d1 = "d\<lparr>reservations := restated ReservationCancelled t (reservations_id r) (reservations d)\<rparr>"
  have l1: "ledger [r] [r] [] [r] ?d1" using release_mark_ledger [OF l r, of ReservationCancelled t] by simp
  obtain n where "sql_set_order_state_of_reservation t ?d1 (reservations_id r) (order_state_of ReservationCancelled)
      = Inr (?d1\<lparr>orders := moved_orders t (reservations_id r) (order_state_of ReservationCancelled) (orders d)\<rparr>, n)"
    using order_state_eq [OF ledgerD(1) [OF l1], of t "reservations_id r" "order_state_of ReservationCancelled"] by auto
  then show ?thesis
    using order_move_ledger(1) [OF l1] restated_state [where rid = "reservations_id r" and st = ReservationCancelled and t = t and rs = "reservations d"]
    by (simp add: order_of_follows del: order_state_of.simps)
qed

lemma Transition_commits:
  assumes g: "good d" and e: "env_ok e" and r: "r \<in> set (reservations d)" "reservations_state r = ReservationPending"
    and t: "target = ReservationConfirmed \<or> target = ReservationCancelled"
    and eid: "the_id e 0 \<notin> domain_events_id ` set (domain_events d)"
  shows "TransitionReservation e d (reservations_id r) target
    = (GetReservation e 8 (moved_db e d (the_id e 0) r target) (reservations_id r), moved_db e d (the_id e 0) r target)"
proof -
  have l: "ledger [] [] [] [] d" using g by (simp add: good_def)
  note sc = ledgerD(1) [OF l]
  have ok: "fault e n = NoFault" for n using e by (simp add: env_ok_def)
  let ?d1 = "d\<lparr>reservations := restated target (db_now e) (reservations_id r) (reservations d)\<rparr>"
  let ?d2 = "?d1\<lparr>orders := moved_orders (db_now e) (reservations_id r) (order_state_of target) (orders d)\<rparr>"
  have sc1: "schema_ok ?d1" by (rule restated_schema [OF sc])
  obtain n2 where o: "sql_set_order_state_of_reservation (db_now e) ?d1 (reservations_id r) (order_state_of target) = Inr (?d2, n2)"
    using order_state_eq [OF sc1, of "db_now e" "reservations_id r" "order_state_of target"] by auto
  have rel: "transition_release e ?d2 r target = Inr (?d2\<lparr>
     inventory := (if target = ReservationCancelled
       then returned_inventory (db_now e) (reservations_product_id r) (reservations_quantity r) (inventory d) else inventory d),
     flash_sales := (if target = ReservationCancelled
       then returned_sales (db_now e) (reservations_sale_id r) (reservations_quantity r) (flash_sales d) else flash_sales d)\<rparr>)"
  proof (cases "target = ReservationCancelled")
    case True
    have l2: "ledger [r] [r] [] [] ?d2" using cancel_ledger [OF l r, of "db_now e"] True by simp
    have "0 \<le> reservations_quantity r" "reservations_product_id r \<in> products_id ` set (products ?d2)"
      using schema_qty [OF sc r(1)] refsD(4) [OF sc r(1)] by simp_all
    note both = release_both [OF l2 this(1) _ _ this(2), of "db_now e"]
    show ?thesis using both ok True by (auto simp: transition_release_def)
  qed (simp add: transition_release_def)
  have f: "find (\<lambda>y. reservations_id y = reservations_id r) (reservations d) = Some r"
    using find_Some_iff_key [OF keysD(4) [OF sc]] r by simp
  have v: "ValidateReservationTransition (reservations_state r) target = None"
    using r(2) t by (auto simp: Validate_None intro: lifecycle.intros)
  have ev: "event e 6 0 (?d2\<lparr>inventory := a, flash_sales := b\<rparr>) ''reservation'' (reservations_id r)
      (''reservation.'' @ ReservationState_string target) (ReservationState_string (reservations_state r))
      (ReservationState_string target) MetaNull
    = Inr (?d2\<lparr>inventory := a, flash_sales := b, domain_events := domain_events d @ [moved_event e (the_id e 0) r target]\<rparr>)" for a b
    using ok eid env_ok_fresh [OF e, of 0] by (simp add: event_Inr)
  show ?thesis
    unfolding TransitionReservation_def using f v o rel ev ok set_state_eq [OF sc, of "db_now e" "reservations_id r" target] by simp
qed

lemma Transition_ok:
  assumes g: "good d" and e: "env_ok e" and r: "r \<in> set (reservations d)" "reservations_state r = ReservationPending"
    and t: "target = ReservationConfirmed \<or> target = ReservationCancelled"
    and eid: "the_id e 0 \<notin> domain_events_id ` set (domain_events d)"
  shows "\<exists>oid. TransitionReservation e d (reservations_id r) target
    = (Inr (reservation_of_row oid (r\<lparr>reservations_state := target, reservations_updated_at := db_now e\<rparr>)), moved_db e d (the_id e 0) r target)"
proof -
  let ?r' = "r\<lparr>reservations_state := target, reservations_updated_at := db_now e\<rparr>"
  note tr = Transition_commits [OF assms]
  have "good (snd (TransitionReservation e d (reservations_id r) target))" by (rule Transition_good [OF g t])
  then have l': "ledger [] [] [] [] (moved_db e d (the_id e 0) r target)" using tr by (simp add: good_def)
  have r': "?r' \<in> set (reservations (moved_db e d (the_id e 0) r target))"
    using r(1) by (auto simp: set_update_where image_iff intro!: bexI [of _ r])
  have "fault e 8 = NoFault" using e by (simp add: env_ok_def)
  then obtain x :: orders_row where "GetReservation e 8 (moved_db e d (the_id e 0) r target) (reservations_id ?r') = Inr (reservation_of_row (orders_id x) ?r')"
    by (rule GetReservation_ok [OF l' r'])
  with tr show ?thesis by auto
qed

section \<open>Paying\<close>

abbreviation sold_inventory :: "int \<Rightarrow> string \<Rightarrow> int \<Rightarrow> inventory_row list \<Rightarrow> inventory_row list" where
  "sold_inventory t pid q rows \<equiv> update_where (\<lambda>i. inventory_product_id i = pid)
     (\<lambda>i. i\<lparr>inventory_reserved := inventory_reserved i - q, inventory_sold := inventory_sold i + q,
        inventory_updated_at := t\<rparr>) rows"

lemma sell_inventory_eq:
  assumes "schema_ok d" "sql_sell_inventory e d pid q = Inr (d1, 1)"
  shows "d1 = d\<lparr>inventory := sold_inventory (db_now e) pid q (inventory d)\<rparr>"
proof -
  have "rows_where (\<lambda>i. inventory_product_id i = pid \<and> q \<le> inventory_reserved i) (inventory d) \<noteq> 0"
    and "d1 = d\<lparr>inventory := update_where (\<lambda>i. inventory_product_id i = pid \<and> q \<le> inventory_reserved i)
      (\<lambda>i. i\<lparr>inventory_reserved := inventory_reserved i - q, inventory_sold := inventory_sold i + q,
        inventory_updated_at := db_now e\<rparr>) (inventory d)\<rparr>"
    using assms(2) by (auto simp: sql_sell_inventory_def update_inventory_Inr)
  then show ?thesis by (simp add: guarded_hit [OF keysD(2) [OF assms(1)]])
qed

abbreviation paid_event :: "env \<Rightarrow> string \<Rightarrow> string \<Rightarrow> domain_events_row" where
  "paid_event e eid rid \<equiv> \<lparr>domain_events_id = eid, domain_events_aggregate_type = ''reservation'',
     domain_events_aggregate_id = rid, domain_events_event_type = ''reservation.paid'',
     domain_events_previous_state = Some ''confirmed'', domain_events_new_state = Some ''paid'',
     domain_events_metadata = MetaNull, domain_events_created_at = db_now e\<rparr>"

abbreviation payment_event :: "env \<Rightarrow> string \<Rightarrow> string \<Rightarrow> PaymentStatus \<Rightarrow> string \<Rightarrow> domain_events_row" where
  "payment_event e eid pid st outcome \<equiv> \<lparr>domain_events_id = eid, domain_events_aggregate_type = ''payment'',
     domain_events_aggregate_id = pid, domain_events_event_type = ''payment.'' @ PaymentStatus_string st,
     domain_events_previous_state = None, domain_events_new_state = NULLIF_empty (PaymentStatus_string st),
     domain_events_metadata = MetaString ''outcome'' outcome, domain_events_created_at = db_now e\<rparr>"

text \<open>What a payment does to the reservation, the order and the counters, by outcome.\<close>

abbreviation effect_db :: "env \<Rightarrow> db \<Rightarrow> PaymentOutcome \<Rightarrow> reservations_row \<Rightarrow> db" where
  "effect_db e d oc r \<equiv> (case oc of
     Successful \<Rightarrow> d\<lparr>
       inventory := sold_inventory (db_now e) (reservations_product_id r) (reservations_quantity r) (inventory d),
       reservations := restated ReservationPaid (db_now e) (reservations_id r) (reservations d),
       orders := moved_orders (db_now e) (reservations_id r) OrderPaid (orders d),
       domain_events := domain_events d @ [paid_event e (the_id e 1) (reservations_id r)]\<rparr>
   | Failed \<Rightarrow> d\<lparr>orders := moved_orders (db_now e) (reservations_id r) OrderPaymentFailed (orders d)\<rparr>
   | Delayed \<Rightarrow> d)"

primrec outcome_status :: "PaymentOutcome \<Rightarrow> PaymentStatus" where
  "outcome_status Successful = StatusSucceeded"
| "outcome_status Failed = StatusFailed"
| "outcome_status Delayed = StatusPending"

primrec outcome_allowed :: "PaymentOutcome \<Rightarrow> ReservationState \<Rightarrow> bool" where
  "outcome_allowed Successful st = (st = ReservationConfirmed)"
| "outcome_allowed Failed st = held_state st"
| "outcome_allowed Delayed st = True"

lemma set_order_ok:
  assumes "schema_ok d" "x \<in> set (orders d)" "orders_reservation_id x = rid"
  shows "\<exists>n. sql_set_order_state e d (orders_id x) st = Inr (d\<lparr>orders := moved_orders (db_now e) rid st (orders d)\<rparr>, n)"
  using order_state_eq [OF assms(1)] set_order_state_eq [OF assms(1,2)] assms(3) by simp

lemma payment_effect_ok:
  assumes l: "ledger [] [] [] [] d" and e: "env_ok e" and x: "x \<in> set (orders d)" "orders_reservation_id x = reservations_id r"
    and r: "r \<in> set (reservations d)" and a: "outcome_allowed oc (reservations_state r)"
    and eid: "the_id e 1 \<notin> domain_events_id ` set (domain_events d)"
  shows "payment_effect e d (orders_id x) oc r = Inr (effect_db e d oc r, outcome_status oc)"
proof -
  note sc = ledgerD(1) [OF l]
  have ok: "fault e n = NoFault" for n using e by (simp add: env_ok_def)
  show ?thesis
  proof (cases oc)
    case Successful
    then have c: "reservations_state r = ReservationConfirmed" using a by simp
    let ?d1 = "d\<lparr>inventory := sold_inventory (db_now e) (reservations_product_id r) (reservations_quantity r) (inventory d)\<rparr>"
    let ?d2 = "?d1\<lparr>reservations := restated ReservationPaid (db_now e) (reservations_id r) (reservations d)\<rparr>"
    have s1: "sql_sell_inventory e d (reservations_product_id r) (reservations_quantity r) = Inr (?d1, 1)"
      using sell_inventory_total [OF l r c, of e] sell_inventory_eq [OF sc] by blast
    have sc1: "schema_ok ?d1"
      by (rule schema_update_inventory [OF sc s1 [unfolded sql_sell_inventory_def]]) simp
    have sc2: "schema_ok ?d2" using restated_schema [OF sc1, where rid = "reservations_id r" and st = ReservationPaid and t = "db_now e"] by simp
    obtain n3 where s3: "sql_set_order_state e ?d2 (orders_id x) OrderPaid
        = Inr (?d2\<lparr>orders := moved_orders (db_now e) (reservations_id r) OrderPaid (orders d)\<rparr>, n3)"
      using set_order_ok [OF sc2 _ x(2), of e OrderPaid] x(1) by auto
    have s4: "event e 8 1 (?d2\<lparr>orders := y\<rparr>) ''reservation'' (reservations_id r) ''reservation.paid'' ''confirmed'' ''paid'' MetaNull
        = Inr (?d2\<lparr>orders := y, domain_events := domain_events d @ [paid_event e (the_id e 1) (reservations_id r)]\<rparr>)" for y
      using ok eid env_ok_fresh [OF e, of 1] by (simp add: event_Inr NULLIF_empty_def)
    show ?thesis
      using c s1 s3 s4 ok set_state_eq [OF sc1, of "db_now e" "reservations_id r" ReservationPaid] Successful
      by (simp add: payment_effect_def del: One_nat_def)
  next
    case Failed
    then show ?thesis using a set_order_ok [OF sc x, of e OrderPaymentFailed] ok
      by (auto simp: payment_effect_def held_state_def)
  qed (simp add: payment_effect_def)
qed

definition payment_ids :: "env \<Rightarrow> db \<Rightarrow> bool" where
  "payment_ids e d \<longleftrightarrow> the_id e 0 \<notin> payments_id ` set (payments d) \<and> the_id e 1 \<notin> domain_events_id ` set (domain_events d)
     \<and> the_id e 2 \<notin> domain_events_id ` set (domain_events d) \<and> the_id e 1 \<noteq> the_id e 2"

lemma Simulate_ok:
  assumes g: "good d" and e: "env_ok e" and ids: "payment_ids e d"
    and req: "order_arg req \<noteq> ''''" "key_arg req \<noteq> ''''" "parse_outcome (outcome_arg req) = Some oc"
    and new: "key_arg req \<notin> payments_idempotency_key ` set (payments d)"
    and x: "x \<in> set (orders d)" "orders_id x = order_arg req"
    and r: "r \<in> set (reservations d)" "reservations_id r = orders_reservation_id x"
    and a: "outcome_allowed oc (reservations_state r)"
  defines "p \<equiv> settled_payment e req (the_id e 0) oc (outcome_status oc)"
  shows "SimulatePayment e d req = (Inr \<lparr>PaymentResult_Payment = payment_of_row p, PaymentResult_Duplicate = False\<rparr>,
    effect_db e d oc r\<lparr>payments := payments d @ [p],
      domain_events := domain_events (effect_db e d oc r) @ [payment_event e (the_id e 2) (the_id e 0) (outcome_status oc) (outcome_arg req)]\<rparr>)"
proof -
  let ?p0 = "new_payment e (the_id e 0) (order_arg req) (key_arg req) oc (payment_fingerprint e (order_arg req) (outcome_arg req))"
  let ?d1 = "d\<lparr>payments := payments d @ [?p0]\<rparr>"
  let ?st = "outcome_status oc"
  have l: "ledger [] [] [] [] d" using g by (simp add: good_def)
  have ok: "fault e n = NoFault" for n using e by (simp add: env_ok_def)
  have i0: "the_id e 0 \<notin> payments_id ` set (payments d)" using ids by (simp add: payment_ids_def)
  have ins: "sql_insert_payment e d (the_id e 0) (order_arg req) (key_arg req) oc
      (payment_fingerprint e (order_arg req) (outcome_arg req)) = Inr (Some ?d1)"
    using new i0 x(2) imageI [OF x(1), of orders_id] by (simp add: insert_payment_Some)
  have l1: "ledger [] [] [] [] ?d1" by (rule insert_payment_ledger [OF l ins])
  have fnd: "sql_order_reservation ?d1 (order_arg req) = Some r"
    using find_Some_iff_key [OF keysD(5) [OF ledgerD(1) [OF l]], of "order_arg req" x] x
      find_Some_iff_key [OF keysD(4) [OF ledgerD(1) [OF l]], of "orders_reservation_id x" r] r
    by (simp add: sql_order_reservation_def)
  have "payment_effect e ?d1 (orders_id x) oc r = Inr (effect_db e ?d1 oc r, ?st)"
    by (rule payment_effect_ok [OF l1 e _ r(2) [symmetric] _ a]) (use x r ids in \<open>simp_all add: payment_ids_def\<close>)
  moreover have eff: "effect_db e ?d1 oc r = effect_db e d oc r\<lparr>payments := payments d @ [?p0]\<rparr>" by (cases oc) simp_all
  ultimately have pe: "payment_effect e ?d1 (order_arg req) oc r = Inr (effect_db e d oc r\<lparr>payments := payments d @ [?p0]\<rparr>, ?st)"
    by (simp add: x(2))
  have upd: "update_where (\<lambda>p. payments_id p = the_id e 0) (\<lambda>p. p\<lparr>payments_status := ?st, payments_updated_at := db_now e\<rparr>)
      (payments d @ [?p0]) = payments d @ [p]"
    using i0 by (auto simp: p_def update_where_def image_iff intro!: map_idI)
  have "find (\<lambda>y. payments_id y = the_id e 0) (payments d @ [?p0]) = Some ?p0"
    using find_Some_iff_key [OF keysD(7) [OF ledgerD(1) [OF l1]], of "the_id e 0" ?p0] by simp
  then have ps: "sql_set_payment_status e (effect_db e d oc r\<lparr>payments := payments d @ [?p0]\<rparr>) (the_id e 0) ?st
      = Inr (effect_db e d oc r\<lparr>payments := payments d @ [p]\<rparr>, Some p)"
    using upd by (simp add: set_payment_status_eq p_def)
  have "the_id e 2 \<notin> domain_events_id ` set (domain_events (effect_db e d oc r))"
    using ids by (cases oc) (auto simp: payment_ids_def)
  then have ev: "event e 11 2 (effect_db e d oc r\<lparr>payments := payments d @ [p]\<rparr>) ''payment'' (the_id e 0)
      (''payment.'' @ PaymentStatus_string ?st) '''' (PaymentStatus_string ?st) (MetaString ''outcome'' (outcome_arg req))
      = Inr (effect_db e d oc r\<lparr>payments := payments d @ [p], domain_events := domain_events (effect_db e d oc r)
          @ [payment_event e (the_id e 2) (the_id e 0) ?st (outcome_arg req)]\<rparr>)"
    using ok env_ok_fresh [OF e, of 2] by (simp add: event_Inr NULLIF_empty_def)
  show ?thesis
    unfolding SimulatePayment_def Let_def
    using req env_ok_fresh [OF e, of 0] ok ins fnd pe ps ev by simp
qed

lemma Simulate_refused:
  assumes g: "good d" and e: "env_ok e" and ids: "payment_ids e d"
    and req: "order_arg req \<noteq> ''''" "key_arg req \<noteq> ''''" "parse_outcome (outcome_arg req) = Some oc"
    and new: "key_arg req \<notin> payments_idempotency_key ` set (payments d)"
    and x: "x \<in> set (orders d)" "orders_id x = order_arg req"
    and r: "r \<in> set (reservations d)" "reservations_id r = orders_reservation_id x"
    and a: "\<not> outcome_allowed oc (reservations_state r)"
  shows "\<exists>msg. SimulatePayment e d req = (Inl (domain_error ''INVALID_STATE_TRANSITION'' msg 409), d)"
proof -
  let ?p0 = "new_payment e (the_id e 0) (order_arg req) (key_arg req) oc (payment_fingerprint e (order_arg req) (outcome_arg req))"
  let ?d1 = "d\<lparr>payments := payments d @ [?p0]\<rparr>"
  have l: "ledger [] [] [] [] d" using g by (simp add: good_def)
  have ok: "fault e n = NoFault" for n using e by (simp add: env_ok_def)
  have ins: "sql_insert_payment e d (the_id e 0) (order_arg req) (key_arg req) oc
      (payment_fingerprint e (order_arg req) (outcome_arg req)) = Inr (Some ?d1)"
    using new ids x(2) imageI [OF x(1), of orders_id] by (simp add: insert_payment_Some payment_ids_def)
  have fnd: "sql_order_reservation ?d1 (order_arg req) = Some r"
    using find_Some_iff_key [OF keysD(5) [OF ledgerD(1) [OF l]], of "order_arg req" x] x
      find_Some_iff_key [OF keysD(4) [OF ledgerD(1) [OF l]], of "orders_reservation_id x" r] r
    by (simp add: sql_order_reservation_def)
  have "\<exists>msg. payment_effect e ?d1 (order_arg req) oc r = Inl (domain_error ''INVALID_STATE_TRANSITION'' msg 409)"
    using a by (cases oc) (auto simp: payment_effect_def held_state_def)
  then show ?thesis
    unfolding SimulatePayment_def Let_def
    using req env_ok_fresh [OF e, of 0] ok ins fnd by auto
qed

lemma Simulate_unknown_order:
  assumes e: "env_ok e" and req: "order_arg req \<noteq> ''''" "key_arg req \<noteq> ''''" "parse_outcome (outcome_arg req) = Some oc"
    and new: "key_arg req \<notin> payments_idempotency_key ` set (payments d)" and x: "order_arg req \<notin> orders_id ` set (orders d)"
  shows "SimulatePayment e d req = (Inl constraint_error, d)"
proof -
  have "sql_insert_payment e d pid (order_arg req) (key_arg req) oc fp = Inl constraint_error" for pid fp
    using new x by (simp add: sql_insert_payment_def insert_payments_def)
  then show ?thesis
    unfolding SimulatePayment_def Let_def
    using req env_ok_fresh [OF e, of 0] e by (simp add: env_ok_def)
qed

section \<open>Expiring a batch\<close>

definition batch_ids :: "env \<Rightarrow> db \<Rightarrow> nat \<Rightarrow> nat \<Rightarrow> bool" where
  "batch_ids e d i n \<longleftrightarrow> (\<forall>j \<in> {i ..< i + n}. the_id e j \<notin> domain_events_id ` set (domain_events d))
     \<and> inj_on (the_id e) {i ..< i + n}"

abbreviation totals :: "db \<Rightarrow> (string \<times> int \<times> int) list" where
  "totals d \<equiv> map (\<lambda>i. (inventory_product_id i, inventory_expected_total i, inventory_sold i)) (inventory d)"

lemma batch_ids_step:
  assumes "batch_ids e d i (Suc n)" and "domain_events d' = domain_events d @ [v]" and "domain_events_id v = the_id e i"
  shows "batch_ids e d' (Suc i) n"
proof -
  have "the_id e j \<noteq> the_id e i" if "j \<in> {Suc i ..< Suc i + n}" for j
    using assms(1) that unfolding batch_ids_def inj_on_def
    by (metis add_Suc_right add_Suc_shift atLeastLessThan_iff le_refl less_add_Suc1 n_not_Suc_n not_less_eq_eq order_less_imp_le Suc_le_eq)
  then show ?thesis using assms unfolding batch_ids_def by (auto simp: inj_on_def)
qed

lemma expire_loop_ok:
  assumes "ledger cs cs [] cs d" and "env_ok e" and "batch_ids e d i (length cs)"
    and "\<And>c. c \<in> set cs \<Longrightarrow> 0 \<le> reservations_quantity c \<and> reservations_product_id c \<in> products_id ` set (products d)"
    and "\<forall>z \<in> set (reservations d). reservations_id z \<in> reservations_id ` set cs \<longrightarrow> reservations_state z = ReservationExpired"
  shows "\<exists>d'. expire_loop e at i cs d = Inr d' \<and> totals d' = totals d"
  using assms
proof (induction cs arbitrary: i d)
  case (Cons c cs)
  let ?d1 = "d\<lparr>inventory := returned_inventory at (reservations_product_id c) (reservations_quantity c) (inventory d)\<rparr>"
  let ?d2 = "?d1\<lparr>flash_sales := returned_sales at (reservations_sale_id c) (reservations_quantity c) (flash_sales d)\<rparr>"
  let ?d3 = "?d2\<lparr>orders := moved_orders at (reservations_id c) OrderExpired (orders d)\<rparr>"
  have c: "0 \<le> reservations_quantity c" "reservations_product_id c \<in> products_id ` set (products d)"
    using Cons.prems(4) by simp_all
  have pos: "0 \<le> reservations_quantity y" if "y \<in> set cs" for y using Cons.prems(4) that by auto
  note rel = release_both [OF Cons.prems(1) c(1) pos pos c(2), where t = at]
  obtain n2 where r2: "sql_release_sale_stock at ?d1 (reservations_sale_id c) (reservations_quantity c) = Inr (?d2, n2)"
    using rel(2) by blast
  obtain n3 where r3: "sql_set_order_state_of_reservation at ?d2 (reservations_id c) OrderExpired = Inr (?d3, n3)"
    using order_state_eq [OF ledgerD(1) [OF rel(3)], of at "reservations_id c" OrderExpired] by auto
  have l3: "ledger cs cs [] cs ?d3"
    by (rule order_move_ledger(1) [OF rel(3) r3]) (use Cons.prems(5) in \<open>auto simp: order_follows_def\<close>)
  have new: "the_id e i \<notin> domain_events_id ` set (domain_events d)" using Cons.prems(3) by (simp add: batch_ids_def)
  obtain v where v: "event e (5 + 4 * i) i ?d3 ''reservation'' (reservations_id c) ''reservation.expired'' ''pending''
        ''expired'' (MetaInt ''restored'' (reservations_quantity c)) = Inr (?d3\<lparr>domain_events := domain_events d @ [v]\<rparr>)"
      "domain_events_id v = the_id e i"
    using new env_ok_fresh [OF Cons.prems(2), of i] Cons.prems(2) by (auto simp: event_Inr env_ok_def)
  let ?d4 = "?d3\<lparr>domain_events := domain_events d @ [v]\<rparr>"
  have b4: "batch_ids e ?d4 (Suc i) (length cs)"
    by (rule batch_ids_step [OF _ _ v(2)]) (use Cons.prems(3) in simp_all)
  have "\<exists>d'. expire_loop e at (Suc i) cs ?d4 = Inr d' \<and> totals d' = totals ?d4"
    by (rule Cons.IH [OF event_ledger [OF l3 v(1)] Cons.prems(2) b4]) (use Cons.prems(4,5) in auto)
  then obtain d' where d': "expire_loop e at (Suc i) cs ?d4 = Inr d'" "totals d' = totals d"
    by (auto simp: map_update_kept)
  have "expire_loop e at i (c # cs) d = expire_loop e at (Suc i) cs ?d4"
    using rel(1) r2 r3 v(1) Cons.prems(2) by (simp add: env_ok_def)
  with d' show ?case by simp
qed simp

lemma Expire_ok:
  assumes g: "good d" and e: "env_ok e" and n: "0 < n" "n \<le> 1000"
    and cs_def: "cs = expire_candidates e d (nat n) at" and ids: "batch_ids e d 0 (length cs)"
  obtains d' where "ExpireBatch e d n at = (Inr \<lparr>Expiration_Processed = int (length cs),
       Expiration_Expired = int (length cs), Expiration_Restored = int (length cs)\<rparr>, d')"
    "reservations d' = expired_rows at cs (reservations d)" "totals d' = totals d"
proof -
  have l: "ledger [] [] [] [] d" using g by (simp add: good_def)
  note sc = ledgerD(1) [OF l]
  have ok: "fault e n = NoFault" for n using e by (simp add: env_ok_def)
  let ?d1 = "d\<lparr>reservations := expired_rows at cs (reservations d)\<rparr>"
  have u: "sql_expire e d (nat n) at = Inr (?d1, cs)" by (simp add: sql_expire_eq [OF sc] cs_def)
  note ex = sql_expire_ledger [OF l u]
  have c: "0 \<le> reservations_quantity c \<and> reservations_product_id c \<in> products_id ` set (products ?d1)" if "c \<in> set cs" for c
  proof -
    have "c \<in> set (reservations d)" using that candidates_props(1) [OF keysD(4) [OF sc]] unfolding cs_def by blast
    then show ?thesis using schema_qty [OF sc] refsD(4) [OF sc] by (simp add: less_imp_le)
  qed
  have b: "batch_ids e ?d1 0 (length cs)" using ids by (simp add: batch_ids_def)
  obtain d' where d': "expire_loop e at 0 cs ?d1 = Inr d'" "totals d' = totals ?d1"
    using expire_loop_ok [OF ex(2) e b c ex(3)] by blast
  have "ExpireBatch e d n at = (Inr \<lparr>Expiration_Processed = int (length cs),
       Expiration_Expired = int (length cs), Expiration_Restored = int (length cs)\<rparr>, d')"
    using n u d'(1) ok by (simp add: ExpireBatch_def Let_def)
  then show thesis using that expire_loop_frame [OF d'(1)] d'(2) by simp
qed

text \<open>The counters follow: every product gets back exactly the units of its expired reservations.\<close>

lemma expired_units:
  assumes g: "good d" and cs: "cs = expire_candidates e d n at"
  shows "held_units (expired_rows at cs (reservations d)) pid = held_units (reservations d) pid - owed_product cs pid"
    "paid_units (expired_rows at cs (reservations d)) pid = paid_units (reservations d) pid"
proof -
  have l: "ledger [] [] [] [] d" using g by (simp add: good_def)
  note sc = ledgerD(1) [OF l]
  note cand = candidates_props [OF keysD(4) [OF sc], where e = e and n = n and at = at, folded cs]
  have P: "(reservations_id r \<in> reservations_id ` set cs \<and> reservations_state r = ReservationPending)
      \<longleftrightarrow> reservations_id r \<in> reservations_id ` set cs" if r: "r \<in> set (reservations d)" for r
  proof
    assume "reservations_id r \<in> reservations_id ` set cs"
    then obtain c where c: "c \<in> set cs" "reservations_id r = reservations_id c" by blast
    then have "r = c" using cand(1) distinct_key_eq [OF keysD(4) [OF sc] r] by blast
    then show "reservations_id r \<in> reservations_id ` set cs \<and> reservations_state r = ReservationPending"
      using c cand(3) by blast
  qed simp
  have pend: "reservations_state c = ReservationPending" "0 \<le> reservations_quantity c" if "c \<in> set cs" for c
    using cand(3) [OF that] schema_qty [OF sc, of c] cand(1) that by auto
  note u = mark_units [OF keysD(4) [OF sc] cand(2,1) P pend disjI2 [OF refl]]
  show "held_units (expired_rows at cs (reservations d)) pid = held_units (reservations d) pid - owed_product cs pid"
    by (rule u(1))
  show "paid_units (expired_rows at cs (reservations d)) pid = paid_units (reservations d) pid"
    by (rule u(2))
qed

lemma restored_units:
  assumes g: "good d" "good d'" and cs: "cs = expire_candidates e d n at"
    and d': "reservations d' = expired_rows at cs (reservations d)" "totals d' = totals d"
    and i: "i \<in> set (inventory d)"
  shows "\<exists>i' \<in> set (inventory d'). inventory_product_id i' = inventory_product_id i
    \<and> inventory_available i' = inventory_available i + owed_product cs (inventory_product_id i)
    \<and> inventory_reserved i' = inventory_reserved i - owed_product cs (inventory_product_id i)
    \<and> inventory_sold i' = inventory_sold i"
proof -
  have "(inventory_product_id i, inventory_expected_total i, inventory_sold i) \<in> set (totals d')" using i d'(2) by force
  then obtain i' where i': "i' \<in> set (inventory d')" "inventory_product_id i' = inventory_product_id i"
      "inventory_expected_total i' = inventory_expected_total i" "inventory_sold i' = inventory_sold i" by auto
  have b: "balanced [] d" "balanced [] d'" using g by (simp_all add: good_def ledger_def)
  then have "inventory_reserved i = held_units (reservations d) (inventory_product_id i)"
      "inventory_expected_total i = inventory_available i + inventory_reserved i + inventory_sold i"
      "inventory_reserved i' = held_units (reservations d') (inventory_product_id i)"
      "inventory_expected_total i' = inventory_available i' + inventory_reserved i' + inventory_sold i'"
    using i i' by (auto simp: balanced_def)
  then show ?thesis using i' expired_units(1) [OF g(1) cs, of "inventory_product_id i"] d'(1) by auto
qed

end
