(* ===== verification/Scenario.thy ===== *)
theory Scenario
  imports MoveEffect
begin

text \<open>
  A concrete run, used to show that the hypotheses of the properties can hold together: a clock, a source of random
  bytes, a stand-in for the hash function, and the databases after resetting the demo to one unit, a
  reservation by alice, its confirmation, cancellation or expiry, and a payment.
\<close>

definition demo_hash :: "string \<Rightarrow> 8 word list" where
  "demo_hash s = map (\<lambda>c. of_nat (of_char c)) s"

definition demo_env :: "int \<Rightarrow> int \<Rightarrow> env" where
  "demo_env k t = \<lparr>go_now = t, db_now = t, rand = (\<lambda>n. Some (replicate 14 0 @ [of_int k, of_int (int n)])),
     sha256 = demo_hash, locked = (\<lambda>_. False), fault = (\<lambda>_. NoFault)\<rparr>"

definition demo_id :: "int \<Rightarrow> int \<Rightarrow> string" where
  "demo_id k n = format_id (set_version (replicate 14 0 @ [of_int k, of_int n]))"

definition demo_store :: Store where
  "demo_store = \<lparr>ttl = 300000000\<rparr>"

definition demo_request :: "string \<Rightarrow> string \<Rightarrow> ReservationRequest" where
  "demo_request u key = \<lparr>Request_UserID = u, Request_Quantity = 1, Request_IdempotencyKey = key\<rparr>"

definition demo_db :: db where
  "demo_db = snd (ResetDemo (demo_env 0 1000) 0 empty_db 1)"

definition alice :: ReservationRequest where
  "alice = demo_request ''alice'' ''key-1''"

definition bob :: ReservationRequest where
  "bob = demo_request ''bob'' ''key-2''"

definition booked_db :: db where
  "booked_db = snd (Reserve demo_store (demo_env 1 2000) demo_db (demo_id 0 1) alice)"

definition confirmed_db :: db where
  "confirmed_db = snd (TransitionReservation (demo_env 2 3000) booked_db (demo_id 1 0) ReservationConfirmed)"

definition pay_request :: PaymentRequest where
  "pay_request = \<lparr>PaymentRequest_OrderID = demo_id 1 1, PaymentRequest_Outcome = '' Successful'',
     PaymentRequest_IdempotencyKey = ''pay-1''\<rparr>"

definition paid_db :: db where
  "paid_db = snd (SimulatePayment (demo_env 3 4000) confirmed_db pay_request)"

section \<open>The environment\<close>

lemma demo_env_ok [simp]: "env_ok (demo_env k t)" "all_ok (demo_env k t)"
  by (simp_all add: env_ok_def all_ok_def demo_env_def)

lemma demo_env_sel [simp]: "go_now (demo_env k t) = t" "db_now (demo_env k t) = t" "sha256 (demo_env k t) = demo_hash"
  "locked (demo_env k t) = (\<lambda>_. False)" "fault (demo_env k t) = (\<lambda>_. NoFault)"
  by (simp_all add: demo_env_def)

lemma the_id_demo [simp]: "the_id (demo_env k t) n = demo_id k (int n)"
  by (simp add: the_id_def demo_env_def demo_id_def NewID_def)

lemma NewID_demo [simp]: "NewID (rand (demo_env k t) n) = Inr (demo_id k (int n))"
  by (simp add: demo_env_def demo_id_def NewID_def)

lemma demo_id_eq [simp]:
  assumes "k \<in> {0..<256}" "k' \<in> {0..<256}" "n \<in> {0..<256}" "n' \<in> {0..<256}"
  shows "demo_id k n = demo_id k' n' \<longleftrightarrow> k = k' \<and> n = n'"
proof
  have last: "set_version (replicate 14 0 @ [of_int a, of_int b]) ! 14 = of_int a"
    "set_version (replicate 14 0 @ [of_int a, of_int b]) ! 15 = of_int b" for a b
    by (simp_all add: set_version_def nth_append)
  assume "demo_id k n = demo_id k' n'"
  then have "set_version (replicate 14 0 @ [of_int k, of_int n]) = set_version (replicate 14 0 @ [of_int k', of_int n'])"
    unfolding demo_id_def by (intro format_id_inj) simp_all
  then have "(of_int k :: 8 word) = of_int k'" "(of_int n :: 8 word) = of_int n'" using last by metis+
  then show "k = k' \<and> n = n'"
    using assms by (simp add: word_of_int_eq_iff take_bit_int_eq_self)
qed simp

lemma demo_id_nonempty [simp]: "demo_id k n \<noteq> ''''"
proof
  assume "demo_id k n = ''''"
  moreover have "length (demo_id k n) = 36" unfolding demo_id_def by (rule length_format_id) simp
  ultimately show False by simp
qed

lemma alice_sel [simp]:
  "TrimSpace (Request_UserID alice) = ''alice''" "TrimSpace (Request_IdempotencyKey alice) = ''key-1''"
  "Request_Quantity alice = 1" "char_length ''alice'' = 5" "char_length ''bob'' = 3"
  "TrimSpace (Request_UserID bob) = ''bob''" "TrimSpace (Request_IdempotencyKey bob) = ''key-2''"
  "Request_Quantity bob = 1"
  by code_simp+

section \<open>The run\<close>

lemma demo_product_id [simp]: "products_id (demo_product e pid) = pid"
  by (simp add: demo_product_def)

lemma demo_db_eq: "demo_db = demo_data (demo_env 0 1000) 1"
  by (simp add: demo_db_def ResetDemo_ok)

lemma demo_db_reachable: "reachable demo_store demo_db"
  using reachable_perform [OF reachable.start, of demo_store "demo_env 0 1000" undefined "Call_Reset 1"]
  by (simp add: demo_db_def)

lemma demo_db_good: "good demo_db" by (rule reachable_good [OF demo_db_reachable])

lemma demo_db_sel [simp]:
  "products demo_db = [demo_product (demo_env 0 1000) (demo_id 0 0)]"
  "inventory demo_db = [demo_inventory (demo_env 0 1000) (demo_id 0 0) 1]"
  "flash_sales demo_db = [demo_sale (demo_env 0 1000) (demo_id 0 1) (demo_id 0 0) 1]"
  "reservations demo_db = []" "orders demo_db = []" "payments demo_db = []" "idempotency_keys demo_db = []"
  "domain_events demo_db = []" "public_demo_actions demo_db = []"
  by (simp_all add: demo_db_eq demo_data_def empty_db_def)

abbreviation alice_row :: reservations_row where
  "alice_row \<equiv> reserved_row demo_store (demo_env 1 2000) (demo_id 0 1) ''alice'' 1
     (demo_product (demo_env 0 1000) (demo_id 0 0)) (demo_id 1 0)"

abbreviation alice_result :: ReservationResult where
  "alice_result \<equiv> reserved_result demo_store (demo_env 1 2000) (demo_id 0 1) ''alice'' 1
     (demo_product (demo_env 0 1000) (demo_id 0 0)) (demo_id 1 0) (demo_id 1 1)"

lemma demo_fresh: "fresh_ids (demo_env 1 2000) demo_db (demo_id 1 0) (demo_id 1 1) (demo_id 1 2)"
  by (simp add: fresh_ids_def)

lemma demo_sale_product:
  "sql_sale_product demo_db (demo_id 0 1) = Some (demo_sale (demo_env 0 1000) (demo_id 0 1) (demo_id 0 0) 1,
     demo_product (demo_env 0 1000) (demo_id 0 0))"
  by (simp add: sql_sale_product_def demo_sale_def demo_product_def)

lemma demo_verdict: "verdict (demo_env 1 2000) demo_db (demo_id 0 1) ''alice'' 1 = None"
  by (simp add: verdict_def demo_sale_product sale_open_def user_units_def available_units_def)
    (simp add: demo_sale_def demo_product_def demo_inventory_def)

lemma demo_valid: "\<not> request_invalid (demo_id 0 1) ''alice'' 1 ''key-1''" "\<not> request_invalid (demo_id 0 1) ''bob'' 1 ''key-2''"
  by (simp_all add: request_invalid_def)

lemma demo_reserve:
  "Reserve demo_store (demo_env 1 2000) demo_db (demo_id 0 1) alice = (Inr alice_result, booked_db)"
  "booked_db = booked demo_store (demo_env 1 2000) demo_db (demo_id 0 1) ''alice'' 1 ''key-1''
     (demo_product (demo_env 0 1000) (demo_id 0 0)) (demo_id 1 0) (demo_id 1 1) (demo_id 1 2)"
proof -
  have "0 \<le> wrap64 (products_price_minor (demo_product (demo_env 0 1000) (demo_id 0 0)) * 1)"
    by (simp add: demo_product_def wrap64_def)
  note r = Reserve_accepted [OF demo_db_good demo_env_ok(2) demo_fresh _ _ _ _ _ _ demo_sale_product _ this,
      where request = alice and u = "''alice''" and key = "''key-1''" and s = demo_store]
  have "Reserve demo_store (demo_env 1 2000) demo_db (demo_id 0 1) alice = (Inr alice_result,
      booked demo_store (demo_env 1 2000) demo_db (demo_id 0 1) ''alice'' 1 ''key-1''
       (demo_product (demo_env 0 1000) (demo_id 0 0)) (demo_id 1 0) (demo_id 1 1) (demo_id 1 2))"
    by (rule r) (simp_all add: demo_verdict demo_valid)
  then show "Reserve demo_store (demo_env 1 2000) demo_db (demo_id 0 1) alice = (Inr alice_result, booked_db)"
    "booked_db = booked demo_store (demo_env 1 2000) demo_db (demo_id 0 1) ''alice'' 1 ''key-1''
     (demo_product (demo_env 0 1000) (demo_id 0 0)) (demo_id 1 0) (demo_id 1 1) (demo_id 1 2)"
    by (simp_all add: booked_db_def)
qed

lemma booked_db_reachable: "reachable demo_store booked_db"
  using reachable_perform [OF demo_db_reachable, of "demo_env 1 2000" undefined "Call_Reserve (demo_id 0 1) alice"]
  by (simp add: booked_db_def)

lemma booked_db_good: "good booked_db" by (rule reachable_good [OF booked_db_reachable])

lemma booked_db_rows [simp]:
  "reservations booked_db = [alice_row]"
  "orders booked_db = [reserved_order (demo_env 1 2000) (demo_id 0 1) ''alice'' 1
     (demo_product (demo_env 0 1000) (demo_id 0 0)) (demo_id 1 0) (demo_id 1 1)]"
  "payments booked_db = []"
  "domain_events_id ` set (domain_events booked_db) = {demo_id 1 2}"
  by (simp_all add: demo_reserve(2))

lemma demo_confirm:
  "\<exists>x. TransitionReservation (demo_env 2 3000) booked_db (demo_id 1 0) ReservationConfirmed = (Inr x, confirmed_db)"
  "confirmed_db = moved_db (demo_env 2 3000) booked_db (demo_id 2 0) alice_row ReservationConfirmed"
proof -
  have "\<exists>oid. TransitionReservation (demo_env 2 3000) booked_db (reservations_id alice_row) ReservationConfirmed
      = (Inr (reservation_of_row oid (alice_row\<lparr>reservations_state := ReservationConfirmed, reservations_updated_at := db_now (demo_env 2 3000)\<rparr>)),
         moved_db (demo_env 2 3000) booked_db (the_id (demo_env 2 3000) 0) alice_row ReservationConfirmed)"
    by (rule Transition_ok [OF booked_db_good demo_env_ok(1)]) simp_all
  then show "\<exists>x. TransitionReservation (demo_env 2 3000) booked_db (demo_id 1 0) ReservationConfirmed = (Inr x, confirmed_db)"
    "confirmed_db = moved_db (demo_env 2 3000) booked_db (demo_id 2 0) alice_row ReservationConfirmed"
    by (auto simp: confirmed_db_def)
qed

lemma confirmed_db_reachable: "reachable demo_store confirmed_db"
  using reachable_perform [OF booked_db_reachable, of "demo_env 2 3000" undefined "Call_Confirm (demo_id 1 0)"]
  by (simp add: confirmed_db_def)

lemma confirmed_db_good: "good confirmed_db" by (rule reachable_good [OF confirmed_db_reachable])

abbreviation confirmed_row :: reservations_row where
  "confirmed_row \<equiv> alice_row\<lparr>reservations_state := ReservationConfirmed, reservations_updated_at := 3000\<rparr>"

abbreviation confirmed_order :: orders_row where
  "confirmed_order \<equiv> (reserved_order (demo_env 1 2000) (demo_id 0 1) ''alice'' 1
     (demo_product (demo_env 0 1000) (demo_id 0 0)) (demo_id 1 0) (demo_id 1 1))\<lparr>orders_state := OrderConfirmed, orders_updated_at := 3000\<rparr>"

lemma confirmed_db_rows [simp]:
  "reservations confirmed_db = [confirmed_row]" "orders confirmed_db = [confirmed_order]" "payments confirmed_db = []"
  "domain_events_id ` set (domain_events confirmed_db) = {demo_id 1 2, demo_id 2 0}"
  by (auto simp: demo_confirm(2) update_where_def)

lemma pay_request_sel [simp]:
  "key_arg pay_request = ''pay-1''" "outcome_arg pay_request = ''successful''" "order_arg pay_request = demo_id 1 1"
  by code_simp+

lemma demo_pay:
  "\<exists>x. SimulatePayment (demo_env 3 4000) confirmed_db pay_request = (Inr x, paid_db)"
  "reservations paid_db = [confirmed_row\<lparr>reservations_state := ReservationPaid, reservations_updated_at := 4000\<rparr>]"
  "payments paid_db = [settled_payment (demo_env 3 4000) pay_request (demo_id 3 0) Successful StatusSucceeded]"
  "inventory paid_db = sold_inventory 4000 (demo_id 0 0) 1 (inventory confirmed_db)"
proof -
  have ids: "payment_ids (demo_env 3 4000) confirmed_db" by (simp add: payment_ids_def)
  have "SimulatePayment (demo_env 3 4000) confirmed_db pay_request =
    (Inr \<lparr>PaymentResult_Payment = payment_of_row (settled_payment (demo_env 3 4000) pay_request (the_id (demo_env 3 4000) 0) Successful
         (outcome_status Successful)), PaymentResult_Duplicate = False\<rparr>,
     effect_db (demo_env 3 4000) confirmed_db Successful confirmed_row\<lparr>
       payments := payments confirmed_db @ [settled_payment (demo_env 3 4000) pay_request (the_id (demo_env 3 4000) 0) Successful (outcome_status Successful)],
       domain_events := domain_events (effect_db (demo_env 3 4000) confirmed_db Successful confirmed_row) @
         [payment_event (demo_env 3 4000) (the_id (demo_env 3 4000) 2) (the_id (demo_env 3 4000) 0) (outcome_status Successful) (outcome_arg pay_request)]\<rparr>)"
    by (rule Simulate_ok [OF confirmed_db_good demo_env_ok(1) ids, where x = confirmed_order]) (simp_all add: parse_outcome_def)
  then show "\<exists>x. SimulatePayment (demo_env 3 4000) confirmed_db pay_request = (Inr x, paid_db)"
    "reservations paid_db = [confirmed_row\<lparr>reservations_state := ReservationPaid, reservations_updated_at := 4000\<rparr>]"
    "payments paid_db = [settled_payment (demo_env 3 4000) pay_request (demo_id 3 0) Successful StatusSucceeded]"
    "inventory paid_db = sold_inventory 4000 (demo_id 0 0) 1 (inventory confirmed_db)"
    by (simp_all add: paid_db_def update_where_def)
qed

lemma paid_db_reachable: "reachable demo_store paid_db"
  using reachable_perform [OF confirmed_db_reachable, of "demo_env 3 4000" undefined "Call_Pay pay_request"]
  by (simp add: paid_db_def)

lemma paid_db_good: "good paid_db" by (rule reachable_good [OF paid_db_reachable])

lemma demo_counters:
  "map (\<lambda>i. (inventory_available i, inventory_reserved i, inventory_sold i)) (inventory booked_db) = [(0, 1, 0)]"
  "map (\<lambda>i. (inventory_available i, inventory_reserved i, inventory_sold i)) (inventory confirmed_db) = [(0, 1, 0)]"
  "map (\<lambda>i. (inventory_available i, inventory_reserved i, inventory_sold i)) (inventory paid_db) = [(0, 0, 1)]"
  by (simp_all add: demo_pay(4) demo_confirm(2) demo_reserve(2) update_where_def demo_inventory_def)

lemma demo_runs: "runs (step demo_store) booked_db [Call_Confirm (demo_id 1 0), Call_Pay pay_request] paid_db"
proof (rule runs_cons [OF _ runs_cons])
  show "step demo_store booked_db (Call_Confirm (demo_id 1 0)) confirmed_db"
    using step.intros [of demo_store booked_db "Call_Confirm (demo_id 1 0)" "demo_env 2 3000" "demo_env 2 3000"]
    by (simp only: perform.simps confirmed_db_def)
  show "step demo_store confirmed_db (Call_Pay pay_request) paid_db"
    using step.intros [of demo_store confirmed_db "Call_Pay pay_request" "demo_env 3 4000" "demo_env 3 4000"]
    by (simp only: perform.simps paid_db_def)
qed (rule runs_nil)

text \<open>The same reservation when only the acknowledgement of its COMMIT (round trip 11) is lost.\<close>

definition lost_env :: env where
  "lost_env = (demo_env 1 2000)\<lparr>fault := (\<lambda>n. if n = 11 then LostAck else NoFault)\<rparr>"

lemma lost_env_hash [simp]: "sha256 lost_env = demo_hash"
  by (simp add: lost_env_def)

lemma lost_reserve:
  "(case Reserve demo_store lost_env demo_db (demo_id 0 1) alice of
      (res, d) \<Rightarrow> res = Inl (OtherError ''commit'') \<and> length (reservations d) = 1)"
  by code_simp


text \<open>The same with two units: one is left after alice's reservation.\<close>

definition pair_db :: db where
  "pair_db = snd (ResetDemo (demo_env 0 1000) 0 empty_db 2)"

definition half_db :: db where
  "half_db = snd (Reserve demo_store (demo_env 1 2000) pair_db (demo_id 0 1) alice)"

lemma pair_db_reachable: "reachable demo_store pair_db"
  using reachable_perform [OF reachable.start, of demo_store "demo_env 0 1000" undefined "Call_Reset 2"]
  by (simp add: pair_db_def)

lemma pair_db_sel [simp]:
  "products pair_db = [demo_product (demo_env 0 1000) (demo_id 0 0)]"
  "inventory pair_db = [demo_inventory (demo_env 0 1000) (demo_id 0 0) 2]"
  "flash_sales pair_db = [demo_sale (demo_env 0 1000) (demo_id 0 1) (demo_id 0 0) 2]"
  "reservations pair_db = []" "orders pair_db = []" "idempotency_keys pair_db = []" "domain_events pair_db = []"
  by (simp_all add: pair_db_def ResetDemo_ok demo_data_def empty_db_def)

lemma half_db_eq:
  "half_db = booked demo_store (demo_env 1 2000) pair_db (demo_id 0 1) ''alice'' 1 ''key-1''
     (demo_product (demo_env 0 1000) (demo_id 0 0)) (demo_id 1 0) (demo_id 1 1) (demo_id 1 2)"
proof -
  let ?p = "demo_product (demo_env 0 1000) (demo_id 0 0)" and ?s = "demo_sale (demo_env 0 1000) (demo_id 0 1) (demo_id 0 0) 2"
  have sp: "sql_sale_product pair_db (demo_id 0 1) = Some (?s, ?p)" by (simp add: sql_sale_product_def demo_sale_def demo_product_def)
  have v: "verdict (demo_env 1 2000) pair_db (demo_id 0 1) ''alice'' 1 = None"
    by (simp add: verdict_def sp sale_open_def user_units_def available_units_def) (simp add: demo_sale_def demo_product_def demo_inventory_def)
  have price: "0 \<le> wrap64 (products_price_minor ?p * 1)" by (simp add: demo_product_def wrap64_def)
  have "fresh_ids (demo_env 1 2000) pair_db (demo_id 1 0) (demo_id 1 1) (demo_id 1 2)" by (simp add: fresh_ids_def)
  note r = Reserve_accepted [OF reachable_good [OF pair_db_reachable] demo_env_ok(2) this _ _ _ _ _ _ sp _ price,
      where request = alice and u = "''alice''" and key = "''key-1''" and s = demo_store]
  have "Reserve demo_store (demo_env 1 2000) pair_db (demo_id 0 1) alice = (Inr alice_result,
      booked demo_store (demo_env 1 2000) pair_db (demo_id 0 1) ''alice'' 1 ''key-1'' ?p (demo_id 1 0) (demo_id 1 1) (demo_id 1 2))"
    by (rule r) (simp_all add: v demo_valid)
  then show ?thesis by (simp add: half_db_def)
qed

lemma half_db_facts:
  "reachable demo_store half_db" "reservations half_db = [alice_row]" "idempotency_keys_key ` set (idempotency_keys half_db) = {''key-1''}"
  "verdict (demo_env 2 3000) half_db (demo_id 0 1) ''bob'' 1 = None"
proof -
  show "reachable demo_store half_db"
    using reachable_perform [OF pair_db_reachable, of "demo_env 1 2000" undefined "Call_Reserve (demo_id 0 1) alice"] by (simp add: half_db_def)
  show rows: "reservations half_db = [alice_row]" "idempotency_keys_key ` set (idempotency_keys half_db) = {''key-1''}" by (simp_all add: half_db_eq)
  have "sql_sale_product half_db (demo_id 0 1) = Some ((demo_sale (demo_env 0 1000) (demo_id 0 1) (demo_id 0 0) 2)
      \<lparr>flash_sales_remaining_stock := 1, flash_sales_updated_at := 2000\<rparr>, demo_product (demo_env 0 1000) (demo_id 0 0))"
    by (simp add: half_db_eq sql_sale_product_def update_where_def demo_sale_def demo_product_def)
  then show "verdict (demo_env 2 3000) half_db (demo_id 0 1) ''bob'' 1 = None"
    by (simp add: verdict_def sale_open_def rows user_units_def available_units_def)
      (simp add: half_db_eq update_where_def demo_sale_def demo_product_def demo_inventory_def)
qed

end
