(* ===== verification/GoLib.thy ===== *)
theory GoLib
  imports Domain
begin

text \<open>
  What the program uses of Go's \<open>strconv\<close>, \<open>strings\<close>, \<open>encoding/hex\<close> and \<open>time\<close> packages beyond trimming and printing: parsing
  of integers, booleans, hexadecimal digests and durations, and splitting at a separator byte.

  The lemmas are the round trips with the printers of the prelude, and that the result of splitting joins to the
  original text.
\<close>

definition and_then :: "'e + 'a \<Rightarrow> ('a \<Rightarrow> 'e + 'b) \<Rightarrow> 'e + 'b" where
  "and_then r k = (case r of Inl err \<Rightarrow> Inl err | Inr x \<Rightarrow> k x)"

lemma and_then_Inr: "and_then r k = Inr y \<longleftrightarrow> (\<exists>x. r = Inr x \<and> k x = Inr y)"
  by (cases r) (auto simp: and_then_def)

lemma if_Inl_eq: "(if b then Inl err else r) = Inr y \<longleftrightarrow> \<not> b \<and> r = Inr y"
  by simp

lemma and_then_simps [simp]: "and_then (Inl err) k = Inl err" "and_then (Inr x) k = k x"
  by (simp_all add: and_then_def)

section \<open>strconv\<close>

definition is_digit :: "char \<Rightarrow> bool" where
  "is_digit c \<longleftrightarrow> 48 \<le> (of_char c :: nat) \<and> (of_char c :: nat) \<le> 57"

definition parse_digits :: "string \<Rightarrow> int option" where
  "parse_digits s = (if s \<noteq> [] \<and> list_all is_digit s then Some (int (digits_val 0 s)) else None)"

text \<open>\<open>Atoi\<close>, and \<open>ParseInt\<close> with base 10 and 64 bits: an optional sign, then decimal digits; out of range is an error.\<close>

definition Atoi :: "string \<Rightarrow> int option" where
  "Atoi s = (case (case s of
       [] \<Rightarrow> None
     | c # cs \<Rightarrow> if c = CHR ''-'' then map_option uminus (parse_digits cs)
                else if c = CHR ''+'' then parse_digits cs else parse_digits s) of
     None \<Rightarrow> None | Some v \<Rightarrow> if int8 v then Some v else None)"

definition ParseBool :: "string \<Rightarrow> bool option" where
  "ParseBool s = (if s \<in> {''1'', ''t'', ''T'', ''true'', ''TRUE'', ''True''} then Some True
     else if s \<in> {''0'', ''f'', ''F'', ''false'', ''FALSE'', ''False''} then Some False else None)"

lemma is_digit_fmt_nat: "list_all is_digit (fmt_nat n)"
proof (induction n rule: fmt_nat.induct)
  case (1 n)
  then show ?case by (cases "n < 10") (simp_all add: fmt_nat.simps [of n] is_digit_def of_char_digit)
qed

lemma fmt_nat_nonempty: "fmt_nat n \<noteq> []"
  by (subst fmt_nat.simps) simp

lemma parse_digits_fmt: "parse_digits (fmt_nat n) = Some (int n)"
  by (simp add: parse_digits_def is_digit_fmt_nat fmt_nat_nonempty digits_val_fmt_nat)

lemma Atoi_fmt_d:
  assumes "int8 v"
  shows "Atoi (fmt_d v) = Some v"
proof (cases "v < 0")
  case True
  then show ?thesis using assms by (simp add: fmt_d_def Atoi_def parse_digits_fmt)
next
  case False
  obtain c cs where c: "fmt_nat (nat v) = c # cs" using fmt_nat_nonempty by (cases "fmt_nat (nat v)") auto
  then have "is_digit c" using is_digit_fmt_nat [of "nat v"] by simp
  then have "c \<noteq> CHR ''-''" "c \<noteq> CHR ''+''" by (auto simp: is_digit_def)
  then show ?thesis using False assms parse_digits_fmt [of "nat v"] by (simp add: fmt_d_def Atoi_def c)
qed

section \<open>strings\<close>

fun Split :: "char \<Rightarrow> string \<Rightarrow> string list" where
  "Split sep [] = [[]]"
| "Split sep (c # cs) = (if c = sep then [] # Split sep cs
     else (case Split sep cs of [] \<Rightarrow> [[c]] | p # ps \<Rightarrow> (c # p) # ps))"

fun Join :: "char \<Rightarrow> string list \<Rightarrow> string" where
  "Join sep [] = []"
| "Join sep [p] = p"
| "Join sep (p # q # ps) = p @ sep # Join sep (q # ps)"

definition Cut :: "string \<Rightarrow> char \<Rightarrow> string \<times> string \<times> bool" where
  "Cut s sep = (takeWhile (\<lambda>c. c \<noteq> sep) s, tl (dropWhile (\<lambda>c. c \<noteq> sep) s), sep \<in> set s)"

definition HasSuffix :: "string \<Rightarrow> string \<Rightarrow> bool" where
  "HasSuffix s suf \<longleftrightarrow> strip_prefix (rev suf) (rev s) \<noteq> None"

lemma Split_nonempty: "Split sep s \<noteq> []"
  by (induction s) (auto split: list.split)

lemma Join_Split: "Join sep (Split sep s) = s"
proof (induction s)
  case (Cons c cs)
  obtain p ps where "Split sep cs = p # ps" using Split_nonempty [of sep cs] by (cases "Split sep cs") auto
  with Cons show ?case by (cases ps) auto
qed simp

lemma Split_free: "sep \<notin> set p \<Longrightarrow> Split sep p = [p]"
  by (induction p) auto

lemma Split_append: "sep \<notin> set p \<Longrightarrow> Split sep (p @ sep # s) = p # Split sep s"
  by (induction p) auto

lemma Split_Join: "ps \<noteq> [] \<Longrightarrow> \<forall>p \<in> set ps. sep \<notin> set p \<Longrightarrow> Split sep (Join sep ps) = ps"
  by (induction sep ps rule: Join.induct) (simp_all add: Split_free Split_append)

lemma HasSuffix_iff: "HasSuffix s suf \<longleftrightarrow> (\<exists>p. s = p @ suf)"
proof -
  have "HasSuffix s suf \<longleftrightarrow> (\<exists>t. rev s = rev suf @ t)"
    by (auto simp: HasSuffix_def strip_prefix_Some)
  also have "\<dots> \<longleftrightarrow> (\<exists>p. s = p @ suf)" by (metis rev_append rev_rev_ident)
  finally show ?thesis .
qed

section \<open>encoding/hex\<close>

definition fromHexChar :: "char \<Rightarrow> nat option" where
  "fromHexChar c = (let n = of_char c :: nat in
     if 48 \<le> n \<and> n \<le> 57 then Some (n - 48) else if 97 \<le> n \<and> n \<le> 102 then Some (n - 87)
     else if 65 \<le> n \<and> n \<le> 70 then Some (n - 55) else None)"

fun DecodeString :: "string \<Rightarrow> 8 word list option" where
  "DecodeString [] = Some []"
| "DecodeString [c] = None"
| "DecodeString (c # c' # cs) = (case (fromHexChar c, fromHexChar c', DecodeString cs) of
     (Some h, Some l, Some bs) \<Rightarrow> Some (of_nat (16 * h + l) # bs) | _ \<Rightarrow> None)"

lemma fromHexChar_digit: "n < 16 \<Longrightarrow> fromHexChar (hex_digit n) = Some n"
  by (auto simp: fromHexChar_def hex_digit_def Let_def)

lemma DecodeString_Encode: "DecodeString (EncodeToString bs) = Some bs"
proof (induction bs)
  case (Cons b bs)
  have "unat b div 16 < 16" "unat b mod 16 < 16" using unsigned_less [of b, where ?'a = nat] by auto
  moreover have "16 * (unat b div 16) + unat b mod 16 = unat b" by simp
  ultimately show ?case
    using Cons by (simp add: EncodeToString_def hex_byte_def fromHexChar_digit del: of_nat_add of_nat_mult)
qed (simp add: EncodeToString_def)

section \<open>time.ParseDuration\<close>

text \<open>
  Durations are nanoseconds. Integers are \<open>uint64\<close> as in the library, with its overflow checks; only the fractional part, which the
  library scales in \<open>float64\<close>, is scaled exactly here and rounded down.
\<close>

definition unit_nanos :: "string \<Rightarrow> nat option" where
  "unit_nanos u = (if u = ''ns'' then Some 1
     else if u = ''us'' \<or> u = [CHR 0xC2, CHR 0xB5, CHR ''s''] \<or> u = [CHR 0xCE, CHR 0xBC, CHR ''s''] then Some 1000
     else if u = ''ms'' then Some 1000000 else if u = ''s'' then Some 1000000000
     else if u = ''m'' then Some 60000000000 else if u = ''h'' then Some 3600000000000 else None)"

fun leadingInt :: "nat \<Rightarrow> string \<Rightarrow> (nat \<times> string) option" where
  "leadingInt x [] = Some (x, [])"
| "leadingInt x (c # cs) = (if \<not> is_digit c then Some (x, c # cs)
     else if 2 ^ 63 div 10 < x then None
     else let y = 10 * x + (of_char c - 48) in if 2 ^ 63 < y then None else leadingInt y cs)"

fun leadingFraction :: "bool \<Rightarrow> nat \<Rightarrow> nat \<Rightarrow> string \<Rightarrow> nat \<times> nat \<times> string" where
  "leadingFraction ov x scale [] = (x, scale, [])"
| "leadingFraction ov x scale (c # cs) = (if \<not> is_digit c then (x, scale, c # cs)
     else if ov \<or> (2 ^ 63 - 1) div 10 < x then leadingFraction True x scale cs
     else let y = 10 * x + (of_char c - 48) in
       if 2 ^ 63 < y then leadingFraction True x scale cs else leadingFraction False y (10 * scale) cs)"

definition is_number_byte :: "char \<Rightarrow> bool" where
  "is_number_byte c \<longleftrightarrow> c = CHR ''.'' \<or> is_digit c"

definition fraction_of :: "string \<Rightarrow> nat \<times> nat \<times> string \<times> bool" where
  "fraction_of s = (case s of
     c # cs \<Rightarrow> if c = CHR ''.'' then (let (f, scale, rest) = leadingFraction False 0 1 cs in (f, scale, rest, length rest \<noteq> length cs))
              else (0, 1, s, False)
   | [] \<Rightarrow> (0, 1, s, False))"

definition duration_part :: "string \<Rightarrow> (nat \<times> string) option" where
  "duration_part s = (if s = [] \<or> \<not> is_number_byte (hd s) then None else
     case leadingInt 0 s of None \<Rightarrow> None | Some (v, s1) \<Rightarrow>
     (case fraction_of s1 of (f, scale, s2, post) \<Rightarrow>
      if length s1 = length s \<and> \<not> post then None else
      let u = takeWhile (\<lambda>c. \<not> is_number_byte c) s2; s3 = dropWhile (\<lambda>c. \<not> is_number_byte c) s2 in
      if u = [] then None else
      case unit_nanos u of None \<Rightarrow> None | Some unit \<Rightarrow>
        if 2 ^ 63 div unit < v then None
        else let w = v * unit + (if 0 < f then f * unit div scale else 0) in
          if 2 ^ 63 < w then None else Some (w, s3)))"

lemma leadingInt_length: "leadingInt x s = Some (v, t) \<Longrightarrow> length t \<le> length s"
  by (induction x s rule: leadingInt.induct) (auto split: if_splits simp: Let_def)

lemma leadingFraction_length: "length (snd (snd (leadingFraction ov x sc s))) \<le> length s"
  by (induction ov x sc s rule: leadingFraction.induct) (auto simp: Let_def intro: le_SucI)

lemma fraction_length: "fraction_of s = (f, sc, t, post) \<Longrightarrow> length t \<le> length s"
proof (cases s)
  case (Cons c cs)
  assume "fraction_of s = (f, sc, t, post)"
  then show ?thesis
    using leadingFraction_length [of False 0 1 cs] Cons by (auto simp: fraction_of_def case_prod_unfold Let_def split: if_splits)
qed (simp add: fraction_of_def)

lemma duration_part_shorter: "duration_part s = Some (w, t) \<Longrightarrow> length t < length s"
proof -
  assume p: "duration_part s = Some (w, t)"
  then obtain v s1 f sc s2 post where 1: "leadingInt 0 s = Some (v, s1)" "fraction_of s1 = (f, sc, s2, post)"
      "takeWhile (\<lambda>c. \<not> is_number_byte c) s2 \<noteq> []" "t = dropWhile (\<lambda>c. \<not> is_number_byte c) s2"
    by (auto simp: duration_part_def Let_def split: if_splits option.splits prod.splits)
  have "length s2 = length (takeWhile (\<lambda>c. \<not> is_number_byte c) s2) + length t"
    unfolding 1(4) by (metis length_append takeWhile_dropWhile_id)
  then show ?thesis using 1(3) leadingInt_length [OF 1(1)] fraction_length [OF 1(2)] by (cases "takeWhile (\<lambda>c. \<not> is_number_byte c) s2") auto
qed

function duration_parts :: "nat \<Rightarrow> string \<Rightarrow> nat option" where
  "duration_parts d s = (if s = [] then Some d else
     case duration_part s of None \<Rightarrow> None
     | Some (w, rest) \<Rightarrow> let d' = (d + w) mod 2 ^ 64 in if 2 ^ 63 < d' then None else duration_parts d' rest)"
  by pat_completeness auto
termination
  by (relation "measure (\<lambda>(d, s). length s)") (auto dest: duration_part_shorter)

declare duration_parts.simps [simp del]

definition ParseDuration :: "string \<Rightarrow> int option" where
  "ParseDuration s =
    (let neg = (s \<noteq> [] \<and> hd s = CHR ''-''); s1 = (if s \<noteq> [] \<and> (hd s = CHR ''-'' \<or> hd s = CHR ''+'') then tl s else s) in
     if s1 = ''0'' then Some 0
     else if s1 = [] then None
     else case duration_parts 0 s1 of None \<Rightarrow> None
       | Some d \<Rightarrow> if neg then Some (- int d) else if 2 ^ 63 - 1 < d then None else Some (int d))"

lemma ParseDuration_int8: "ParseDuration s = Some v \<Longrightarrow> int8 v"
proof -
  have "d' \<le> 2 ^ 63" if "duration_parts d t = Some d'" "d \<le> 2 ^ 63" for d t d'
    using that
  proof (induction d t rule: duration_parts.induct)
    case (1 d t)
    show ?case
    proof (cases "t = []")
      case False
      with "1.prems"(1) obtain w rest where p: "duration_part t = Some (w, rest)" by (subst (asm) duration_parts.simps) (auto split: option.splits)
      then have "\<not> 2 ^ 63 < (d + w) mod 2 ^ 64" "duration_parts ((d + w) mod 2 ^ 64) rest = Some d'"
        using "1.prems"(1) False by (subst (asm) duration_parts.simps, simp add: Let_def split: if_splits)+
      then show ?thesis using "1.IH" [OF False p refl refl] by simp
    qed (use "1.prems" in \<open>simp add: duration_parts.simps\<close>)
  qed
  from this [of 0] show "ParseDuration s = Some v \<Longrightarrow> int8 v"
    by (fastforce simp: ParseDuration_def int8_def Let_def split: if_splits option.splits)
qed

end
