(* ===== verification/Config.thy ===== *)
theory Config
  imports GoLib
begin

text \<open>
  Reading the configuration from the environment (\<open>src/internal/config/config.go\<close>).

  \<open>os.Getenv\<close> is a function from names to values, empty for an unset variable. URL parsing, CIDR parsing and SHA-256
  are the fields of the record \<open>parsers\<close>: everything below holds whatever they are. Durations are nanoseconds.

  The lemmas state what a configuration that loads is good for: every number within its documented range, so that the limits the store
  and the worker check again can never be hit by a configured value, and the extra guarantees of a production configuration.
\<close>

section \<open>The configuration\<close>

record url =
  URL_Scheme :: string
  URL_Host :: string
  URL_Query :: "string \<Rightarrow> string"

record netip_Prefix =
  Prefix_Bits :: int
  Prefix_Contains :: "string \<Rightarrow> bool"

record parsers =
  url_Parse :: "string \<Rightarrow> url option"
  ParsePrefix :: "string \<Rightarrow> netip_Prefix option"
  Sum256 :: "string \<Rightarrow> 8 word list"

record Config =
  AppEnv :: string
  PublicBaseURL :: string
  HTTPPort :: int
  DatabaseURL :: string
  DatabaseMaxConns :: int
  DatabaseMinConns :: int
  DatabaseMaxConnLifetime :: int
  DatabaseStatementTimeout :: int
  DatabaseTransactionTimeout :: int
  ReservationTTL :: int
  WorkerBatchSize :: int
  WorkerPollInterval :: int
  RateLimitRequests :: int
  RateLimitBurst :: int
  LogLevel :: string
  CORSAllowedOrigins :: "string list"
  TrustedProxyCIDRs :: "netip_Prefix list"
  AdminAPIKeyHash :: "8 word list"
  DemoMode :: bool
  DemoMaxConcurrency :: int
  DemoResetEnabled :: bool
  PublicMutationsEnabled :: bool
  RunWorker :: bool
  RunMigrations :: bool
  PublicDemoSeedEnabled :: bool
  ShutdownTimeout :: int
  DemoToken :: string

abbreviation seconds :: "int \<Rightarrow> int" where
  "seconds n \<equiv> n * 1000000000"

section \<open>Values\<close>

definition env_value :: "(string \<Rightarrow> string) \<Rightarrow> string \<Rightarrow> string \<Rightarrow> string" where
  "env_value getenv name fallback = (let v = TrimSpace (getenv name) in if v \<noteq> [] then v else fallback)"

definition intValue :: "(string \<Rightarrow> string) \<Rightarrow> string \<Rightarrow> int \<Rightarrow> int \<Rightarrow> int \<Rightarrow> go_error + int" where
  "intValue getenv name fallback lo hi =
    (let raw = TrimSpace (getenv name);
         failed = Inl (OtherError (name @ '' must be an integer between '' @ fmt_d lo @ '' and '' @ fmt_d hi)) in
     if raw = [] then Inr fallback
     else case Atoi raw of None \<Rightarrow> failed | Some v \<Rightarrow> if v < lo \<or> hi < v then failed else Inr v)"

definition durationValue :: "(string \<Rightarrow> string) \<Rightarrow> string \<Rightarrow> int \<Rightarrow> go_error + int" where
  "durationValue getenv name fallback =
    (let raw = TrimSpace (getenv name); failed = Inl (OtherError (name @ '' must be a positive duration'')) in
     if raw = [] then Inr fallback
     else case ParseDuration raw of None \<Rightarrow> failed | Some v \<Rightarrow> if v \<le> 0 then failed else Inr v)"

definition boolValue :: "(string \<Rightarrow> string) \<Rightarrow> string \<Rightarrow> bool \<Rightarrow> go_error + bool" where
  "boolValue getenv name fallback =
    (let raw = TrimSpace (getenv name) in
     if raw = [] then Inr fallback
     else case ParseBool raw of None \<Rightarrow> Inl (OtherError (name @ '' must be true or false'')) | Some v \<Rightarrow> Inr v)"

definition split :: "string \<Rightarrow> string list" where
  "split raw = filter (\<lambda>part. part \<noteq> []) (map TrimSpace (Split (CHR '','') raw))"

fun prefix_loop :: "parsers \<Rightarrow> string list \<Rightarrow> go_error + netip_Prefix list" where
  "prefix_loop P [] = Inr []"
| "prefix_loop P (v # vs) = (case ParsePrefix P v of
     None \<Rightarrow> Inl (OtherError (''TRUSTED_PROXY_CIDRS contains invalid CIDR '' @ CHR 0x22 # v @ [CHR 0x22]))
   | Some prefix \<Rightarrow> if Prefix_Bits prefix = 0 then Inl (OtherError ''TRUSTED_PROXY_CIDRS cannot trust the entire internet'')
       else map_sum id (Cons prefix) (prefix_loop P vs))"

definition prefixes :: "parsers \<Rightarrow> string \<Rightarrow> go_error + netip_Prefix list" where
  "prefixes P raw = prefix_loop P (split raw)"

section \<open>Validation\<close>

definition Production :: "Config \<Rightarrow> bool" where
  "Production c \<longleftrightarrow> AppEnv c = ''production''"

definition https :: "parsers \<Rightarrow> string \<Rightarrow> bool" where
  "https P s = (case url_Parse P s of None \<Rightarrow> False | Some u \<Rightarrow> URL_Scheme u = ''https'' \<and> URL_Host u \<noteq> [])"

definition requires_tls :: "parsers \<Rightarrow> string \<Rightarrow> bool" where
  "requires_tls P s = (case url_Parse P s of None \<Rightarrow> False
     | Some u \<Rightarrow> URL_Query u ''sslmode'' = ''require'' \<or> URL_Query u ''sslmode'' = ''verify-full'')"

definition weak_keys :: "string list" where
  "weak_keys = [''admin'', ''password'', ''stockrush-local-demo'', ''change-me'']"

definition validateProduction :: "parsers \<Rightarrow> (string \<Rightarrow> string) \<Rightarrow> Config \<Rightarrow> go_error + Config" where
  "validateProduction P getenv c =
    (if \<not> https P (PublicBaseURL c) then Inl (OtherError ''PUBLIC_BASE_URL must be an absolute HTTPS URL in production'')
     else if \<not> requires_tls P (DatabaseURL c) then Inl (OtherError ''DATABASE_URL must require TLS in production'')
     else if \<exists>origin \<in> set (CORSAllowedOrigins c). origin = ''*'' \<or> \<not> https P origin
       then Inl (OtherError ''CORS_ALLOWED_ORIGINS must contain only absolute HTTPS origins in production'')
     else if LogLevel c = ''debug'' then Inl (OtherError ''LOG_LEVEL=debug is not allowed in production'')
     else if DemoMode c \<or> DemoResetEnabled c
       then Inl (OtherError ''DEMO_MODE and DEMO_RESET_ENABLED must be false in production'')
     else (case DecodeString (TrimSpace (getenv ''ADMIN_API_KEY_HASH'')) of
         None \<Rightarrow> Inl (OtherError ''ADMIN_API_KEY_HASH must be a SHA-256 hex digest in production'')
       | Some decoded \<Rightarrow>
         if length decoded \<noteq> 32 then Inl (OtherError ''ADMIN_API_KEY_HASH must be a SHA-256 hex digest in production'')
         else if \<exists>weak \<in> set weak_keys. decoded = Sum256 P weak
           then Inl (OtherError ''ADMIN_API_KEY_HASH must not use a weak or default key'')
         else Inr (c\<lparr>AdminAPIKeyHash := decoded\<rparr>)))"

definition Load_checked :: "parsers \<Rightarrow> (string \<Rightarrow> string) \<Rightarrow> Config \<Rightarrow> go_error + Config" where
  "Load_checked P getenv c =
    (if DatabaseURL c = [] then Inl (OtherError ''DATABASE_URL is required'')
     else if CORSAllowedOrigins c = [] then Inl (OtherError ''CORS_ALLOWED_ORIGINS must contain at least one origin'')
     else if Production c then validateProduction P getenv c
     else Inr c)"

definition Load :: "parsers \<Rightarrow> (string \<Rightarrow> string) \<Rightarrow> go_error + Config" where
  "Load P getenv =
    (let appEnv = env_value getenv ''APP_ENV'' ''development''; dev = (appEnv = ''development'') in
     and_then (intValue getenv ''HTTP_PORT'' 8080 1 65535) (\<lambda>port.
     and_then (durationValue getenv ''RESERVATION_TTL'' (seconds 120)) (\<lambda>rttl.
     and_then (intValue getenv ''DATABASE_MAX_CONNS'' 8 1 100) (\<lambda>maxConns.
     and_then (intValue getenv ''DATABASE_MIN_CONNS'' 1 0 100) (\<lambda>minConns.
     if maxConns < minConns then Inl (OtherError ''DATABASE_MIN_CONNS cannot exceed DATABASE_MAX_CONNS'') else
     and_then (durationValue getenv ''DATABASE_MAX_CONN_LIFETIME'' (seconds 1800)) (\<lambda>lifetime.
     and_then (durationValue getenv ''DATABASE_STATEMENT_TIMEOUT'' (seconds 5)) (\<lambda>statement.
     and_then (durationValue getenv ''DATABASE_TRANSACTION_TIMEOUT'' (seconds 10)) (\<lambda>transaction.
     and_then (intValue getenv ''WORKER_BATCH_SIZE'' 50 1 1000) (\<lambda>batch.
     and_then (durationValue getenv ''WORKER_POLL_INTERVAL'' (seconds 1)) (\<lambda>poll.
     and_then (intValue getenv ''RATE_LIMIT_REQUESTS'' 20 1 100000) (\<lambda>requests.
     and_then (intValue getenv ''RATE_LIMIT_BURST'' 40 1 100000) (\<lambda>burst.
     and_then (intValue getenv ''DEMO_MAX_CONCURRENCY'' 20 1 100) (\<lambda>concurrency.
     and_then (durationValue getenv ''SHUTDOWN_TIMEOUT'' (seconds 10)) (\<lambda>shutdown.
     and_then (boolValue getenv ''DEMO_MODE'' dev) (\<lambda>demo.
     and_then (boolValue getenv ''DEMO_RESET_ENABLED'' dev) (\<lambda>reset.
     and_then (boolValue getenv ''PUBLIC_MUTATIONS_ENABLED'' dev) (\<lambda>mutations.
     and_then (boolValue getenv ''RUN_WORKER'' False) (\<lambda>worker.
     and_then (boolValue getenv ''RUN_MIGRATIONS'' False) (\<lambda>migrations.
     and_then (boolValue getenv ''PUBLIC_DEMO_SEED_ENABLED'' False) (\<lambda>seed.
     and_then (prefixes P (getenv ''TRUSTED_PROXY_CIDRS'')) (\<lambda>trusted.
     Load_checked P getenv
      \<lparr>AppEnv = appEnv, PublicBaseURL = TrimSpace (getenv ''PUBLIC_BASE_URL''), HTTPPort = port,
       DatabaseURL = getenv ''DATABASE_URL'', DatabaseMaxConns = maxConns, DatabaseMinConns = minConns,
       DatabaseMaxConnLifetime = lifetime, DatabaseStatementTimeout = statement, DatabaseTransactionTimeout = transaction,
       ReservationTTL = rttl, WorkerBatchSize = batch, WorkerPollInterval = poll, RateLimitRequests = requests,
       RateLimitBurst = burst, LogLevel = env_value getenv ''LOG_LEVEL'' ''info'',
       CORSAllowedOrigins = split (env_value getenv ''CORS_ALLOWED_ORIGINS'' ''http://localhost:5173''),
       TrustedProxyCIDRs = trusted, AdminAPIKeyHash = [], DemoMode = demo, DemoMaxConcurrency = concurrency,
       DemoResetEnabled = reset, PublicMutationsEnabled = mutations, RunWorker = worker, RunMigrations = migrations,
       PublicDemoSeedEnabled = seed, ShutdownTimeout = shutdown, DemoToken = TrimSpace (getenv ''DEMO_TOKEN'')\<rparr>)))))))))))))))))))))"

section \<open>What a loaded configuration guarantees\<close>

text \<open>
  The ranges of the documented settings, and that the lists are what the list parsers produce.
\<close>

definition config_ok :: "Config \<Rightarrow> bool" where
  "config_ok c \<longleftrightarrow> HTTPPort c \<in> {1..65535} \<and> DatabaseMaxConns c \<in> {1..100} \<and> DatabaseMinConns c \<in> {0..DatabaseMaxConns c}
     \<and> WorkerBatchSize c \<in> {1..1000} \<and> RateLimitRequests c \<in> {1..100000} \<and> RateLimitBurst c \<in> {1..100000}
     \<and> DemoMaxConcurrency c \<in> {1..100}
     \<and> (\<forall>t \<in> {DatabaseMaxConnLifetime c, DatabaseStatementTimeout c, DatabaseTransactionTimeout c, ReservationTTL c,
           WorkerPollInterval c, ShutdownTimeout c}. 0 < t \<and> int8 t)
     \<and> DatabaseURL c \<noteq> [] \<and> CORSAllowedOrigins c \<noteq> []
     \<and> (\<forall>origin \<in> set (CORSAllowedOrigins c). origin \<noteq> [] \<and> TrimSpace origin = origin)
     \<and> (\<forall>prefix \<in> set (TrustedProxyCIDRs c). Prefix_Bits prefix \<noteq> 0)"

definition production_ok :: "parsers \<Rightarrow> Config \<Rightarrow> bool" where
  "production_ok P c \<longleftrightarrow> https P (PublicBaseURL c) \<and> requires_tls P (DatabaseURL c)
     \<and> (\<forall>origin \<in> set (CORSAllowedOrigins c). origin \<noteq> ''*'' \<and> https P origin)
     \<and> LogLevel c \<noteq> ''debug'' \<and> \<not> DemoMode c \<and> \<not> DemoResetEnabled c
     \<and> length (AdminAPIKeyHash c) = 32 \<and> AdminAPIKeyHash c \<notin> Sum256 P ` set weak_keys"

lemma intValue_range:
  assumes "intValue g name fallback lo hi = Inr v" "fallback \<in> {lo..hi}"
  shows "v \<in> {lo..hi}"
  using assms by (auto simp: intValue_def Let_def split: if_splits option.splits)

lemma durationValue_range:
  assumes "durationValue g name fallback = Inr v" "0 < fallback \<and> int8 fallback"
  shows "0 < v \<and> int8 v"
  using assms by (auto simp: durationValue_def Let_def split: if_splits option.splits dest: ParseDuration_int8)

lemma split_clean: "part \<in> set (split raw) \<Longrightarrow> part \<noteq> [] \<and> TrimSpace part = part"
  by (auto simp: split_def TrimSpace_idem)

lemma split_Join:
  assumes "\<And>p. p \<in> set ps \<Longrightarrow> p \<noteq> [] \<and> TrimSpace p = p \<and> CHR '','' \<notin> set p"
  shows "split (Join (CHR '','') ps) = ps"
proof (cases "ps = []")
  case True
  have "TrimSpace [] = []" by code_simp
  then show ?thesis using True by (simp add: split_def)
next
  case False
  then have "Split (CHR '','') (Join (CHR '','') ps) = ps" using assms by (intro Split_Join) auto
  moreover have "map TrimSpace ps = ps" "filter (\<lambda>p. p \<noteq> []) ps = ps" using assms by (auto intro: map_idI)
  ultimately show ?thesis by (simp add: split_def)
qed

lemma prefix_loop_bits: "prefix_loop P vs = Inr ps \<Longrightarrow> prefix \<in> set ps \<Longrightarrow> Prefix_Bits prefix \<noteq> 0"
proof (induction vs arbitrary: ps)
  case (Cons v vs)
  then show ?case by (cases "prefix_loop P vs") (auto split: option.splits if_splits)
qed simp

lemma prefixes_bits: "prefixes P raw = Inr ps \<Longrightarrow> \<forall>prefix \<in> set ps. Prefix_Bits prefix \<noteq> 0"
  using prefix_loop_bits by (fastforce simp: prefixes_def)

lemma validateProduction_Inr:
  assumes "validateProduction P g c = Inr c'"
  obtains h where "c' = c\<lparr>AdminAPIKeyHash := h\<rparr>" "production_ok P c'"
  using assms by (auto simp: validateProduction_def production_ok_def split: if_splits option.splits)

lemma Load_checked_Inr:
  assumes "Load_checked P g c = Inr c'"
  obtains h where "c' = c\<lparr>AdminAPIKeyHash := h\<rparr>" "DatabaseURL c \<noteq> []" "CORSAllowedOrigins c \<noteq> []"
    "Production c' \<longrightarrow> production_ok P c'"
proof (cases "Production c")
  case True
  then have v: "validateProduction P g c = Inr c'" "DatabaseURL c \<noteq> []" "CORSAllowedOrigins c \<noteq> []"
    using assms by (auto simp: Load_checked_def split: if_splits)
  from validateProduction_Inr [OF v(1)] show thesis using that v(2,3) by metis
next
  case False
  then have "c' = c\<lparr>AdminAPIKeyHash := AdminAPIKeyHash c\<rparr>" "\<not> Production c'" "DatabaseURL c \<noteq> []" "CORSAllowedOrigins c \<noteq> []"
    using assms by (auto simp: Load_checked_def split: if_splits)
  then show thesis using that by blast
qed

lemma Load_config_ok:
  assumes "Load P g = Inr c"
  shows "config_ok c" "Production c \<Longrightarrow> production_ok P c"
    "AppEnv c = env_value g ''APP_ENV'' ''development''"
proof -
  obtain c0 where c0: "Load_checked P g c0 = Inr c" "HTTPPort c0 \<in> {1..65535}" "DatabaseMaxConns c0 \<in> {1..100}"
      "DatabaseMinConns c0 \<in> {0..100}" "DatabaseMinConns c0 \<le> DatabaseMaxConns c0" "WorkerBatchSize c0 \<in> {1..1000}" "RateLimitRequests c0 \<in> {1..100000}"
      "RateLimitBurst c0 \<in> {1..100000}" "DemoMaxConcurrency c0 \<in> {1..100}"
      "\<forall>t \<in> {DatabaseMaxConnLifetime c0, DatabaseStatementTimeout c0, DatabaseTransactionTimeout c0, ReservationTTL c0,
           WorkerPollInterval c0, ShutdownTimeout c0}. 0 < t \<and> int8 t"
      "\<forall>origin \<in> set (CORSAllowedOrigins c0). origin \<noteq> [] \<and> TrimSpace origin = origin"
      "\<forall>prefix \<in> set (TrustedProxyCIDRs c0). Prefix_Bits prefix \<noteq> 0" "AppEnv c0 = env_value g ''APP_ENV'' ''development''"
    using assms unfolding Load_def Let_def and_then_Inr if_Inl_eq
    apply (elim exE conjE)
    apply (rule that, assumption, unfold Config.select_convs)
    apply (erule intValue_range, simp)+
    apply (simp only: not_less)
    apply (erule intValue_range, simp)+
    apply (intro ballI, elim insertE emptyE; hypsubst; erule durationValue_range; simp add: int8_def)
    apply (blast dest: split_clean)
    apply (rule prefixes_bits, assumption)
    apply (rule refl)
    done
  obtain h where h: "c = c0\<lparr>AdminAPIKeyHash := h\<rparr>" "DatabaseURL c0 \<noteq> []" "CORSAllowedOrigins c0 \<noteq> []" "Production c \<longrightarrow> production_ok P c"
    by (rule Load_checked_Inr [OF c0(1)])
  then show "config_ok c" using c0 by (simp add: config_ok_def)
  show "Production c \<Longrightarrow> production_ok P c" using h by blast
  show "AppEnv c = env_value g ''APP_ENV'' ''development''" using h(1) c0 by simp
qed

end
