(* ===== verification/RateLimit.thy ===== *)
theory RateLimit
  imports Prelude Complex_Main "HOL-Library.AList"
begin

text \<open>
  The per-client token buckets of \<open>src/internal/ratelimit/limiter.go\<close>.

  Instants are nanoseconds on the process clock (\<open>int\<close>); \<open>time.Time.Sub\<close> saturates at 64 bits. Token counts are
  \<open>float64\<close> in the code and exact rationals here, so rounding is not modelled. The Go map is an association list, whose order no
  operation observes. The mutex makes every call of \<open>Allow\<close> one step.

  The lemmas show that the table stays bounded, give the exact condition under which a request is admitted, and bound how many
  requests of one client are admitted in any window of time. Forgetting idle clients refills their bucket, which is invisible as long as ten
  minutes are enough to refill it anyway (\<open>steady\<close>).
\<close>

section \<open>The limiter\<close>

definition maxClients :: nat where
  "maxClients = 10000"

record bucket =
  bucket_tokens :: rat
  bucket_last :: int

record Limiter =
  Limiter_perSec :: rat
  Limiter_burst :: rat
  Limiter_buckets :: "(string \<times> bucket) list"

definition New_Limiter :: "int \<Rightarrow> int \<Rightarrow> Limiter" where
  "New_Limiter requestsPerSecond burst =
     \<lparr>Limiter_perSec = of_int requestsPerSecond, Limiter_burst = of_int burst, Limiter_buckets = []\<rparr>"

definition removeIdle :: "Limiter \<Rightarrow> int \<Rightarrow> Limiter" where
  "removeIdle l before =
     l\<lparr>Limiter_buckets := filter (\<lambda>(client, b). \<not> bucket_last b < before) (Limiter_buckets l)\<rparr>"

definition time_Sub :: "int \<Rightarrow> int \<Rightarrow> int" where
  "time_Sub t u = max (- (2 ^ 63)) (min (2 ^ 63 - 1) (t - u))"

definition refilled :: "Limiter \<Rightarrow> int \<Rightarrow> bucket \<Rightarrow> rat" where
  "refilled l now b =
     min (Limiter_burst l) (bucket_tokens b + of_int (time_Sub now (bucket_last b)) / 10 ^ 9 * Limiter_perSec l)"

definition find_bucket :: "Limiter \<Rightarrow> int \<Rightarrow> string \<Rightarrow> Limiter \<times> bucket option" where
  "find_bucket l now client = (case map_of (Limiter_buckets l) client of
     Some b \<Rightarrow> (l, Some b)
   | None \<Rightarrow>
      (let fresh = \<lparr>bucket_tokens = Limiter_burst l, bucket_last = now\<rparr> in
       if maxClients \<le> length (Limiter_buckets l)
       then (let l' = removeIdle l (now - 600 * 10 ^ 9) in
             if maxClients \<le> length (Limiter_buckets l') then (l', None) else (l', Some fresh))
       else (l, Some fresh)))"

definition put_bucket :: "string \<Rightarrow> bucket \<Rightarrow> Limiter \<Rightarrow> Limiter" where
  "put_bucket client b l = l\<lparr>Limiter_buckets := AList.update client b (Limiter_buckets l)\<rparr>"

definition Allow :: "Limiter \<Rightarrow> int \<Rightarrow> string \<Rightarrow> bool \<times> Limiter" where
  "Allow l now client = (case find_bucket l now client of
     (l', None) \<Rightarrow> (False, l')
   | (l', Some b) \<Rightarrow>
      (let tokens = refilled l' now b in
       if tokens < 1 then (False, put_bucket client \<lparr>bucket_tokens = tokens, bucket_last = now\<rparr> l')
       else (True, put_bucket client \<lparr>bucket_tokens = tokens - 1, bucket_last = now\<rparr> l')))"

section \<open>Credit\<close>

text \<open>What a client could spend at an instant; a client that is not in the table has a full bucket.\<close>

definition credit :: "string \<Rightarrow> Limiter \<Rightarrow> int \<Rightarrow> rat" where
  "credit client l now = (case map_of (Limiter_buckets l) client of
     None \<Rightarrow> Limiter_burst l | Some b \<Rightarrow> refilled l now b)"

definition limiter_ok :: "Limiter \<Rightarrow> int \<Rightarrow> bool" where
  "limiter_ok l t \<longleftrightarrow> 0 \<le> Limiter_perSec l \<and> 1 \<le> Limiter_burst l
     \<and> distinct (map fst (Limiter_buckets l)) \<and> length (Limiter_buckets l) \<le> maxClients
     \<and> (\<forall>(c, b) \<in> set (Limiter_buckets l). 0 \<le> bucket_tokens b \<and> bucket_tokens b \<le> Limiter_burst l \<and> bucket_last b \<le> t)"

text \<open>Room for a client: it is known, or the table has a free place once idle clients are forgotten.\<close>

definition has_room :: "Limiter \<Rightarrow> int \<Rightarrow> string \<Rightarrow> bool" where
  "has_room l now client \<longleftrightarrow> client \<in> fst ` set (Limiter_buckets l) \<or> length (Limiter_buckets l) < maxClients
     \<or> (\<exists>(c, b) \<in> set (Limiter_buckets l). bucket_last b < now - 600 * 10 ^ 9)"

lemma time_Sub_nonneg: "u \<le> t \<Longrightarrow> 0 \<le> time_Sub t u"
  by (simp add: time_Sub_def)

lemma time_Sub_self [simp]: "time_Sub t t = 0"
  by (simp add: time_Sub_def)

lemma time_Sub_mono: "t \<le> t' \<Longrightarrow> time_Sub t u \<le> time_Sub t' u"
  by (simp add: time_Sub_def)

lemma time_Sub_lipschitz: "t \<le> t' \<Longrightarrow> time_Sub t' u \<le> time_Sub t u + (t' - t)"
  unfolding time_Sub_def by linarith

lemma time_Sub_ge: "u < t - 600 * 10 ^ 9 \<Longrightarrow> 600 * 10 ^ 9 \<le> time_Sub t u"
  by (simp add: time_Sub_def)

lemma removeIdle_sel [simp]:
  "Limiter_perSec (removeIdle l t) = Limiter_perSec l" "Limiter_burst (removeIdle l t) = Limiter_burst l"
  "refilled (removeIdle l t) = refilled l"
  by (simp_all add: removeIdle_def refilled_def fun_eq_iff)

lemma put_bucket_sel [simp]:
  "Limiter_perSec (put_bucket c b l) = Limiter_perSec l" "Limiter_burst (put_bucket c b l) = Limiter_burst l"
  "refilled (put_bucket c b l) = refilled l"
  by (simp_all add: put_bucket_def refilled_def fun_eq_iff)

lemma map_of_put_bucket [simp]:
  "map_of (Limiter_buckets (put_bucket c b l)) c' = (if c' = c then Some b else map_of (Limiter_buckets l) c')"
  by (simp add: put_bucket_def update_conv)

lemma map_of_removeIdle:
  assumes "distinct (map fst (Limiter_buckets l))"
  shows "map_of (Limiter_buckets (removeIdle l t)) c =
    (case map_of (Limiter_buckets l) c of None \<Rightarrow> None | Some b \<Rightarrow> if bucket_last b < t then None else Some b)"
proof -
  have "map_of (filter (\<lambda>(c, b). \<not> bucket_last b < t) xs) c =
    (case map_of xs c of None \<Rightarrow> None | Some b \<Rightarrow> if bucket_last b < t then None else Some b)"
    if "distinct (map fst xs)" for xs :: "(string \<times> bucket) list"
    using that
  proof (induction xs)
    case (Cons x xs)
    have "map_of xs (fst x) = None" using Cons.prems by (simp add: map_of_eq_None_iff)
    with Cons show ?case by (cases x) (auto split: option.splits)
  qed simp
  from this [OF assms] show ?thesis by (simp add: removeIdle_def)
qed

lemma limiter_okD:
  assumes "limiter_ok l t"
  shows "0 \<le> Limiter_perSec l" "1 \<le> Limiter_burst l" "distinct (map fst (Limiter_buckets l))"
    "length (Limiter_buckets l) \<le> maxClients"
    "map_of (Limiter_buckets l) c = Some b \<Longrightarrow> 0 \<le> bucket_tokens b \<and> bucket_tokens b \<le> Limiter_burst l \<and> bucket_last b \<le> t"
  using assms by (auto simp: limiter_ok_def dest: map_of_SomeD)

lemma limiter_ok_later: "limiter_ok l t \<Longrightarrow> t \<le> t' \<Longrightarrow> limiter_ok l t'"
  by (fastforce simp: limiter_ok_def)

lemma limiter_ok_New: "0 \<le> rps \<Longrightarrow> 1 \<le> burst \<Longrightarrow> limiter_ok (New_Limiter rps burst) t"
  by (simp add: limiter_ok_def New_Limiter_def)

lemma removeIdle_ok: "limiter_ok l t \<Longrightarrow> limiter_ok (removeIdle l t') t"
  by (auto simp: limiter_ok_def removeIdle_def distinct_map_filter intro: le_trans [OF length_filter_le])

lemma refilled_ok:
  assumes "limiter_ok l t" "t \<le> now" "0 \<le> bucket_tokens b" "bucket_last b \<le> now"
  shows "0 \<le> refilled l now b" "refilled l now b \<le> Limiter_burst l"
  using assms limiter_okD(1,2) [OF assms(1)] time_Sub_nonneg [OF assms(4)] by (auto simp: refilled_def)

lemma set_update_cases: "(x, y) \<in> set (AList.update c b xs) \<Longrightarrow> y = b \<or> (x, y) \<in> set xs"
  by (induction xs) (auto split: if_splits)

lemma length_update_alist: "length (AList.update c b xs) = (if c \<in> fst ` set xs then length xs else Suc (length xs))"
  by (metis length_map length_append_singleton list.set_map update_keys)

lemma put_bucket_ok:
  assumes "limiter_ok l t" "0 \<le> bucket_tokens b" "bucket_tokens b \<le> Limiter_burst l" "bucket_last b \<le> t"
    and "c \<in> fst ` set (Limiter_buckets l) \<or> length (Limiter_buckets l) < maxClients"
  shows "limiter_ok (put_bucket c b l) t"
proof -
  have "length (Limiter_buckets (put_bucket c b l)) \<le> maxClients"
    using assms(1,5) by (auto simp: limiter_ok_def put_bucket_def length_update_alist)
  moreover have "distinct (map fst (Limiter_buckets (put_bucket c b l)))"
    using assms(1) by (simp add: put_bucket_def limiter_ok_def distinct_update)
  ultimately show ?thesis
    using assms(1-4) by (auto simp: limiter_ok_def put_bucket_def dest!: set_update_cases)
qed

section \<open>Admission\<close>

lemma length_filter_less_iff: "length (filter P xs) < length xs \<longleftrightarrow> (\<exists>x \<in> set xs. \<not> P x)"
  by (metis filter_True length_filter_less less_irrefl)

lemma find_bucket_cases:
  assumes "limiter_ok l t" "t \<le> now"
  obtains (known) b where "find_bucket l now c = (l, Some b)" "map_of (Limiter_buckets l) c = Some b"
      "0 \<le> bucket_tokens b" "bucket_last b \<le> now"
  | (fresh) l' where "find_bucket l now c = (l', Some \<lparr>bucket_tokens = Limiter_burst l, bucket_last = now\<rparr>)"
      "map_of (Limiter_buckets l) c = None" "length (Limiter_buckets l') < maxClients"
      "l' = l \<or> l' = removeIdle l (now - 600 * 10 ^ 9)" "has_room l now c"
  | (full) "find_bucket l now c = (removeIdle l (now - 600 * 10 ^ 9), None)" "map_of (Limiter_buckets l) c = None"
      "\<not> has_room l now c"
proof (cases "map_of (Limiter_buckets l) c")
  case (Some b)
  then have "find_bucket l now c = (l, Some b)" by (simp add: find_bucket_def)
  moreover have "0 \<le> bucket_tokens b" "bucket_last b \<le> now" using limiter_okD(5) [OF assms(1) Some] assms(2) by auto
  ultimately show ?thesis using Some that(1) by blast
next
  case None
  let ?l = "removeIdle l (now - 600 * 10 ^ 9)"
  have nk: "c \<notin> fst ` set (Limiter_buckets l)" using None by (simp add: map_of_eq_None_iff)
  have idle: "(\<exists>(c, b) \<in> set (Limiter_buckets l). bucket_last b < now - 600 * 10 ^ 9)
      \<longleftrightarrow> length (Limiter_buckets ?l) < length (Limiter_buckets l)"
    by (simp add: removeIdle_def length_filter_less_iff case_prod_unfold)
  show ?thesis
  proof (cases "length (Limiter_buckets l) < maxClients")
    case True
    then show ?thesis using that(2) [of l] None by (simp add: find_bucket_def has_room_def)
  next
    case False
    then have "length (Limiter_buckets l) = maxClients" using limiter_okD(4) [OF assms(1)] by simp
    then show ?thesis
      using that(2) [of ?l] that(3) None nk idle by (auto simp: find_bucket_def has_room_def Let_def not_less)
  qed
qed

lemma Allow_ok:
  assumes "limiter_ok l t" "t \<le> now"
  shows "limiter_ok (snd (Allow l now c)) now"
  using assms
proof (cases rule: find_bucket_cases [where c = c])
  case (known b)
  then show ?thesis
    using refilled_ok [OF assms, of b] limiter_ok_later [OF assms] 
    by (auto simp: Allow_def Let_def intro!: put_bucket_ok dest: map_of_SomeD intro: rev_image_eqI)
next
  case (fresh l')
  have ok: "limiter_ok l' now" using fresh(4) limiter_ok_later [OF assms] removeIdle_ok by blast
  then show ?thesis
    using fresh limiter_okD(2) [OF assms(1)] by (auto simp: Allow_def Let_def refilled_def intro!: put_bucket_ok)
next
  case full
  then show ?thesis using removeIdle_ok [OF limiter_ok_later [OF assms]] by (simp add: Allow_def)
qed

lemma Allow_sel [simp]:
  "Limiter_perSec (snd (Allow l now c)) = Limiter_perSec l" "Limiter_burst (snd (Allow l now c)) = Limiter_burst l"
  by (auto simp: Allow_def find_bucket_def Let_def split: option.splits)

lemma Allow_iff:
  assumes "limiter_ok l t" "t \<le> now"
  shows "fst (Allow l now c) \<longleftrightarrow> has_room l now c \<and> 1 \<le> credit c l now"
  using assms
proof (cases rule: find_bucket_cases [where c = c])
  case (known b)
  then show ?thesis by (auto simp: Allow_def Let_def credit_def has_room_def not_less dest: map_of_SomeD intro: rev_image_eqI)
next
  case (fresh l')
  then show ?thesis using limiter_okD(2) [OF assms(1)] by (auto simp: Allow_def Let_def credit_def refilled_def)
next
  case full
  then show ?thesis by (simp add: Allow_def)
qed

section \<open>How much a client can get\<close>

text \<open>Ten idle minutes refill a bucket: forgetting an idle client then changes nobody's credit.\<close>

definition steady :: "rat \<Rightarrow> rat \<Rightarrow> Limiter \<Rightarrow> int \<Rightarrow> bool" where
  "steady burst rate l t \<longleftrightarrow> limiter_ok l t \<and> Limiter_burst l = burst \<and> Limiter_perSec l = rate \<and> burst \<le> 600 * rate"

lemma credit_nonneg: "limiter_ok l t \<Longrightarrow> 0 \<le> credit c l t"
  by (auto simp: credit_def limiter_okD(2) [THEN order_trans [OF zero_le_one]] split: option.splits
      dest: limiter_okD(5) intro!: refilled_ok(1))

lemma credit_le_burst: "credit c l t \<le> Limiter_burst l"
  by (simp add: credit_def refilled_def split: option.splits)

lemma refilled_later:
  assumes "0 \<le> Limiter_perSec l" "t \<le> t'"
  shows "refilled l t' b \<le> refilled l t b + of_int (t' - t) / 10 ^ 9 * Limiter_perSec l"
proof -
  have "(of_int (time_Sub t' (bucket_last b)) :: rat) \<le> of_int (time_Sub t (bucket_last b)) + of_int (t' - t)"
    using time_Sub_lipschitz [OF assms(2), of "bucket_last b"] by (metis of_int_add of_int_le_iff)
  then have "(of_int (time_Sub t' (bucket_last b)) :: rat) / 10 ^ 9 * Limiter_perSec l
      \<le> (of_int (time_Sub t (bucket_last b)) + of_int (t' - t)) / 10 ^ 9 * Limiter_perSec l"
    by (intro mult_right_mono divide_right_mono) (simp_all add: assms(1))
  moreover have "0 \<le> (of_int (t' - t) :: rat) / 10 ^ 9 * Limiter_perSec l" using assms by simp
  ultimately show ?thesis by (simp add: refilled_def min_def add_divide_distrib distrib_right)
qed

lemma credit_later:
  assumes "limiter_ok l t" "t \<le> t'"
  shows "credit c l t' \<le> credit c l t + of_int (t' - t) / 10 ^ 9 * Limiter_perSec l"
  using refilled_later [OF limiter_okD(1) [OF assms(1)] assms(2)] limiter_okD(1) [OF assms(1)] assms(2)
  by (auto simp: credit_def split: option.splits)

lemma credit_forget:
  assumes "steady burst rate l t" "t \<le> now"
  shows "credit c (removeIdle l (now - 600 * 10 ^ 9)) now = credit c l now"
proof -
  have ok: "limiter_ok l t" using assms(1) by (simp add: steady_def)
  have "refilled l now b = Limiter_burst l"
    if "map_of (Limiter_buckets l) c = Some b" "bucket_last b < now - 600 * 10 ^ 9" for b
  proof -
    have "(600 * 10 ^ 9 :: rat) \<le> of_int (time_Sub now (bucket_last b))"
      using time_Sub_ge [OF that(2)] by (metis of_int_le_iff of_int_mult of_int_numeral of_int_power)
    then have "(600 * 10 ^ 9 :: rat) / 10 ^ 9 * Limiter_perSec l \<le> of_int (time_Sub now (bucket_last b)) / 10 ^ 9 * Limiter_perSec l"
      by (intro mult_right_mono divide_right_mono) (simp_all add: limiter_okD(1) [OF ok])
    then show ?thesis using limiter_okD(5) [OF ok that(1)] assms(1) by (simp add: refilled_def steady_def)
  qed
  then show ?thesis by (auto simp: credit_def map_of_removeIdle [OF limiter_okD(3) [OF ok]] split: option.splits)
qed

lemma credit_put: "credit c' (put_bucket c b l) now = (if c' = c then refilled l now b else credit c' l now)"
  by (simp add: credit_def split: option.split)

lemma credit_Allow:
  assumes "steady burst rate l t" "t \<le> now"
  shows "credit c' (snd (Allow l now c)) now = credit c' l now - (if c' = c \<and> fst (Allow l now c) then 1 else 0)"
proof -
  have ok: "limiter_ok l t" using assms(1) by (simp add: steady_def)
  have pos: "1 \<le> Limiter_burst l" by (rule limiter_okD(2) [OF ok])
  from ok assms(2) show ?thesis
  proof (cases rule: find_bucket_cases [where c = c])
    case (known b)
    then show ?thesis
      using refilled_ok(2) [OF ok assms(2), of b]
      by (auto simp: Allow_def Let_def credit_put) (simp_all add: credit_def refilled_def)
  next
    case (fresh l')
    have sel: "Limiter_burst l' = Limiter_burst l" "credit c' l' now = credit c' l now"
      using fresh(4) credit_forget [OF assms] by auto
    show ?thesis
      using fresh(1,2) pos sel by (auto simp: Allow_def Let_def credit_put) (simp_all add: credit_def refilled_def)
  next
    case full
    then show ?thesis using credit_forget [OF assms, of c'] by (simp add: Allow_def)
  qed
qed

section \<open>The budget of a window\<close>

text \<open>
  A service metered by a credit: the credit grows with time at a fixed rate, is never negative, and every request of the metered
  kind that is served costs one unit. The number of such requests served from a state on is bounded by the initial credit
  and the time that passes.
\<close>

fun serve_all :: "('s \<Rightarrow> 'i \<Rightarrow> bool \<times> 's) \<Rightarrow> ('i \<Rightarrow> bool) \<Rightarrow> 's \<Rightarrow> 'i list \<Rightarrow> nat \<times> 's" where
  "serve_all serve own s [] = (0, s)"
| "serve_all serve own s (i # is) =
    (let (ok, s') = serve s i; (n, s'') = serve_all serve own s' is in (if own i \<and> ok then Suc n else n, s''))"

fun ends_at :: "('i \<Rightarrow> int) \<Rightarrow> int \<Rightarrow> 'i list \<Rightarrow> int" where
  "ends_at tm t [] = t"
| "ends_at tm t (i # is) = ends_at tm (tm i) is"

fun forward :: "('i \<Rightarrow> int) \<Rightarrow> int \<Rightarrow> 'i list \<Rightarrow> bool" where
  "forward tm t [] \<longleftrightarrow> True"
| "forward tm t (i # is) \<longleftrightarrow> t \<le> tm i \<and> forward tm (tm i) is"

locale metered =
  fixes serve :: "'s \<Rightarrow> 'i \<Rightarrow> bool \<times> 's" and tm :: "'i \<Rightarrow> int" and own :: "'i \<Rightarrow> bool"
    and fine :: "'s \<Rightarrow> int \<Rightarrow> bool" and balance :: "'s \<Rightarrow> int \<Rightarrow> rat" and rate :: rat
  assumes keeps: "fine s t \<Longrightarrow> t \<le> tm i \<Longrightarrow> fine (snd (serve s i)) (tm i)"
    and solvent: "fine s t \<Longrightarrow> 0 \<le> balance s t"
    and pays: "fine s t \<Longrightarrow> t \<le> tm i \<Longrightarrow> balance (snd (serve s i)) (tm i) + (if own i \<and> fst (serve s i) then 1 else 0)
      \<le> balance s t + of_int (tm i - t) * rate"
begin

lemma fine_all: "fine s t \<Longrightarrow> forward tm t is \<Longrightarrow> fine (snd (serve_all serve own s is)) (ends_at tm t is)"
  by (induction "is" arbitrary: s t) (auto simp: case_prod_unfold Let_def dest: keeps)

lemma balance_all:
  "fine s t \<Longrightarrow> forward tm t is \<Longrightarrow> balance (snd (serve_all serve own s is)) (ends_at tm t is) + of_nat (fst (serve_all serve own s is))
     \<le> balance s t + of_int (ends_at tm t is - t) * rate"
proof (induction "is" arbitrary: s t)
  case (Cons i "is")
  have t: "t \<le> tm i" using Cons.prems by simp
  have f: "fine (snd (serve s i)) (tm i)" by (rule keeps [OF Cons.prems(1) t])
  have "balance (snd (serve_all serve own (snd (serve s i)) is)) (ends_at tm (tm i) is) + of_nat (fst (serve_all serve own (snd (serve s i)) is))
      \<le> balance (snd (serve s i)) (tm i) + of_int (ends_at tm (tm i) is - tm i) * rate"
    using Cons.IH [OF f] Cons.prems(2) by simp
  then show ?case
    using pays [OF Cons.prems(1) t] by (auto simp: case_prod_unfold Let_def algebra_simps split: if_splits)
qed simp

lemma served_bound:
  assumes "fine s t" "forward tm t is"
  shows "of_nat (fst (serve_all serve own s is)) \<le> balance s t + of_int (ends_at tm t is - t) * rate"
  using balance_all [OF assms] solvent [OF fine_all [OF assms]] by linarith

end

lemma steady_Allow: "steady burst rate l t \<Longrightarrow> t \<le> now \<Longrightarrow> steady burst rate (snd (Allow l now c)) now"
  by (auto simp: steady_def intro: Allow_ok)

lemma credit_pays:
  assumes "steady burst rate l t" "t \<le> now"
  shows "credit c (snd (Allow l now c')) now + (if c' = c \<and> fst (Allow l now c') then 1 else 0)
    \<le> credit c l t + of_int (now - t) * (rate / 10 ^ 9)"
  using credit_Allow [OF assms, of c c'] credit_later [of l t now c] assms by (auto simp: steady_def split: if_splits)

interpretation client: metered "\<lambda>l (now, c'). Allow l now c'" fst "\<lambda>(now, c'). c' = c" "steady burst rate" "credit c" "rate / 10 ^ 9"
  for c burst rate
proof (unfold_locales, goal_cases)
  case (1 l t i)
  then show ?case by (cases i) (simp add: steady_Allow)
next
  case (2 l t)
  then show ?case by (simp add: steady_def credit_nonneg)
next
  case (3 l t i)
  then show ?case using credit_pays [of burst rate l t "fst i" c "snd i"] by (cases i) simp
qed

abbreviation admitted :: "string \<Rightarrow> Limiter \<Rightarrow> (int \<times> string) list \<Rightarrow> nat" where
  "admitted c l calls \<equiv> fst (serve_all (\<lambda>l (now, c'). Allow l now c') (\<lambda>(now, c'). c' = c) l calls)"

abbreviation after_calls :: "string \<Rightarrow> Limiter \<Rightarrow> (int \<times> string) list \<Rightarrow> Limiter" where
  "after_calls c l calls \<equiv> snd (serve_all (\<lambda>l (now, c'). Allow l now c') (\<lambda>(now, c'). c' = c) l calls)"

lemma steady_New: "0 \<le> rps \<Longrightarrow> 1 \<le> burst \<Longrightarrow> burst \<le> 600 * rps \<Longrightarrow> steady (of_int burst) (of_int rps) (New_Limiter rps burst) t"
  using of_int_le_iff [of burst "600 * rps", where ?'a = rat]
  by (simp add: steady_def limiter_ok_New) (simp add: New_Limiter_def)

lemma window_bound:
  assumes "0 \<le> rps" "1 \<le> burst" "burst \<le> 600 * rps"
    and "forward fst t0 (before @ calls)" and "t1 = ends_at fst t0 before"
  shows "of_nat (admitted c (after_calls c (New_Limiter rps burst) before) calls)
    \<le> (of_int burst + of_int (ends_at fst t1 calls - t1) * of_int rps / 10 ^ 9 :: rat)"
proof -
  have split: "forward fst t (xs @ ys) \<longleftrightarrow> forward fst t xs \<and> forward fst (ends_at fst t xs) ys" for t and xs ys :: "(int \<times> string) list"
    by (induction xs arbitrary: t) auto
  have "steady (of_int burst) (of_int rps) (after_calls c (New_Limiter rps burst) before) t1"
    using client.fine_all [OF steady_New [OF assms(1-3)], of t0 before c] assms(4,5) by (simp add: split)
  from client.served_bound [OF this, of calls c] show ?thesis
    using assms(4,5) credit_le_burst [of c "after_calls c (New_Limiter rps burst) before" t1]
      \<open>steady _ _ (after_calls _ _ _) _\<close> by (simp add: split steady_def)
qed

end
