(* ===== verification/Metrics.thy ===== *)
theory Metrics
  imports Prelude
begin

text \<open>
  The counters of \<open>src/internal/metrics/metrics.go\<close>. A Prometheus counter is the number it shows, a counter vector a function
  of its labels and a histogram the list of what was observed, newest first; registering them has no effect on the program.
\<close>

record Metrics =
  HTTPRequests :: "string \<times> string \<times> string \<Rightarrow> int"
  HTTPDuration :: "((string \<times> string) \<times> int) list"
  ReservationAttempts :: int
  ReservationSuccesses :: int
  SoldOut :: int
  Duplicates :: int
  RateLimited :: int
  Expired :: int
  InventoryRestored :: int
  WorkerErrors :: int

definition New_Metrics :: Metrics where
  "New_Metrics = \<lparr>HTTPRequests = (\<lambda>_. 0), HTTPDuration = [], ReservationAttempts = 0, ReservationSuccesses = 0, SoldOut = 0,
     Duplicates = 0, RateLimited = 0, Expired = 0, InventoryRestored = 0, WorkerErrors = 0\<rparr>"

definition RecordHTTP :: "Metrics \<Rightarrow> string \<Rightarrow> string \<Rightarrow> int \<Rightarrow> int \<Rightarrow> Metrics" where
  "RecordHTTP m verb route status duration =
     m\<lparr>HTTPRequests := (HTTPRequests m)((verb, route, fmt_d status) := HTTPRequests m (verb, route, fmt_d status) + 1),
       HTTPDuration := ((verb, route), duration) # HTTPDuration m\<rparr>"

end
