(* ===== verification/Http.thy ===== *)
theory Http
  imports System Config RateLimit Metrics
begin

text \<open>
  The HTTP API (\<open>src/internal/httpserver/router.go\<close> and \<open>health.go\<close>): the middleware chain, the route table and one
  definition per handler. The demo handlers are in theory \<open>DemoHttp\<close>, which also assembles the server.

  A handler takes the server and the request and returns the server it leaves behind and the response. The server's mutable
  parts are the database, the rate limiter and the metrics. Matching a path is the router library's work: a request carries the
  \<open>endpoint\<close> that was matched, or the status of an unmatched request and whether it was below \<open>/api/v1\<close>. The body carries what decoding it into each input type yields
  (\<open>None\<close> is a decoding error: syntax, unknown field or too long) and whether exactly one JSON value was present. Media-type and
  address parsing and SHA-256 are the record \<open>weblib\<close>, any functions. Headers are maps; \<open>Header.Get\<close> of an absent
  header is the empty string. Logging and the panic handler are left out.
\<close>

section \<open>Requests and responses\<close>

datatype endpoint =
    EP_Live | EP_Ready | EP_Version | EP_Metrics | EP_OpenAPI
  | EP_ListProducts | EP_GetProduct string | EP_ListSales | EP_GetSale string
  | EP_DemoStatus | EP_DemoReport | EP_PublicDemoReservation
  | EP_CreateProduct | EP_UpdateProduct string | EP_CreateSale | EP_ActivateSale string | EP_EndSale string
  | EP_CreateReservation string | EP_GetReservation string | EP_ConfirmReservation string | EP_CancelReservation string
  | EP_ListOrders | EP_GetOrder string | EP_SimulatePayment
  | EP_DemoReset | EP_DemoLoadTest

record body =
  Body_CreateProduct :: "CreateProductInput option"
  Body_UpdateProduct :: "UpdateProductInput option"
  Body_CreateSale :: "CreateSaleInput option"
  Body_Reservation :: "ReservationRequest option"
  Body_Payment :: "PaymentRequest option"
  Body_Empty :: "unit option"
  Body_Inventory :: "int option"
  Body_Attempts :: "int option"
  Body_AtEOF :: bool

record Request =
  Req_Method :: string
  Req_Endpoint :: "(int \<times> bool) + endpoint"
  Req_Header :: "string \<Rightarrow> string"
  Req_RemoteAddr :: string
  Req_Body :: body
  Req_ID :: string

record loadReport =
  Load_InitialInventory :: int
  Load_TotalAttempts :: int
  Load_Successful :: int
  Load_SoldOut :: int
  Load_Duplicate :: int
  Load_RateLimited :: int
  Load_Failed :: int
  Load_P50Millis :: rat
  Load_P95Millis :: rat
  Load_P99Millis :: rat
  Load_Final :: DemoStatusReport
  Load_ZeroOverselling :: bool

datatype data =
    D_Status string | D_Version string string string | D_Products "Product list" | D_Product Product | D_Sales "Sale list" | D_Sale Sale
  | D_ReservationResult ReservationResult | D_Reservation Reservation | D_Orders "Order list" | D_Order Order
  | D_PaymentResult PaymentResult | D_DemoStatus DemoStatusReport | D_PublicReservation string ReservationState int bool
  | D_LoadReport loadReport | D_DemoReport int int Product int int bool

datatype payload = Success data string | Failure string string string | Text string | NoContent | MetricsPage Metrics | Spec

record Response =
  Resp_Status :: int
  Resp_Headers :: "string \<rightharpoonup> string"
  Resp_Body :: payload

record weblib =
  ParseMediaType :: "string \<Rightarrow> string option"
  SplitHostPort :: "string \<Rightarrow> string option"
  ParseAddr :: "string \<Rightarrow> string option"
  web_Sum256 :: "string \<Rightarrow> 8 word list"
  build_Version :: string
  build_Commit :: string
  build_Time :: string

text \<open>The environment of one request: those of its store calls, the limiter's clock, the bytes for a request identifier, \<open>Ping\<close>'s answer, the time the
  request took, and for the load test the order in which the concurrent attempts reach the database.\<close>

record web_env =
  Web_env :: env
  Web_env2 :: env
  Web_now :: int
  Web_rand :: "8 word list option"
  Web_ping :: bool
  Web_elapsed :: int
  Web_schedule :: "(nat \<times> env \<times> int) list"
  Web_env3 :: env

record Server =
  Srv_db :: db
  Srv_limiter :: Limiter
  Srv_metrics :: Metrics

type_synonym handler = "Request \<Rightarrow> Server \<Rightarrow> Server \<times> Response"

section \<open>Writing responses\<close>

definition writeJSON :: "int \<Rightarrow> payload \<Rightarrow> Response" where
  "writeJSON status body = \<lparr>Resp_Status = status, Resp_Headers = [''Content-Type'' \<mapsto> ''application/json''], Resp_Body = body\<rparr>"

definition http_Error :: "string \<Rightarrow> int \<Rightarrow> Response" where
  "http_Error msg status = \<lparr>Resp_Status = status, Resp_Headers = [''Content-Type'' \<mapsto> ''text/plain; charset=utf-8'',
     ''X-Content-Type-Options'' \<mapsto> ''nosniff''], Resp_Body = Text msg\<rparr>"

definition http_NotFound :: Response where
  "http_NotFound = http_Error ''404 page not found'' 404"

definition success :: "Request \<Rightarrow> int \<Rightarrow> data \<Rightarrow> Response" where
  "success r status x = writeJSON status (Success x (Req_ID r))"

definition failure :: "Request \<Rightarrow> go_error \<Rightarrow> Response" where
  "failure r err = (let domainErr = (case errors_As err of Some de \<Rightarrow> de | None \<Rightarrow>
       \<lparr>Error_Code = ''INTERNAL_ERROR'', Error_Message = ''An internal error occurred'', Error_HTTPStatus = 500\<rparr>) in
     writeJSON (Error_HTTPStatus domainErr) (Failure (Error_Code domainErr) (Error_Message domainErr) (Req_ID r)))"

definition respond :: "Request \<Rightarrow> int \<Rightarrow> (go_error + data) \<Rightarrow> Response" where
  "respond r status res = (case res of Inl err \<Rightarrow> failure r err | Inr x \<Rightarrow> success r status x)"

definition validationError :: "string \<Rightarrow> go_error" where
  "validationError msg = domain_error ''VALIDATION_ERROR'' (''Invalid request: '' @ msg) 400"

definition decodeJSON :: "weblib \<Rightarrow> Request \<Rightarrow> 'a option \<Rightarrow> go_error + 'a" where
  "decodeJSON L r decoded =
    (if ParseMediaType L (Req_Header r ''Content-Type'') \<noteq> Some ''application/json''
     then Inl (domain_error ''UNSUPPORTED_MEDIA_TYPE'' ''Content-Type must be application/json'' 415)
     else case decoded of
       None \<Rightarrow> Inl (domain_error ''INVALID_JSON'' ''Request body must be valid JSON with known fields'' 400)
     | Some x \<Rightarrow> if \<not> Body_AtEOF (Req_Body r)
         then Inl (domain_error ''INVALID_JSON'' ''Request body must contain one JSON value'' 400) else Inr x)"

text \<open>A store call that returns a new database, answered with \<open>respond\<close>.\<close>

definition answer :: "Request \<Rightarrow> int \<Rightarrow> ('a \<Rightarrow> data) \<Rightarrow> Server \<Rightarrow> 'a outcome \<Rightarrow> Server \<times> Response" where
  "answer r status mk srv out = (case out of (res, d) \<Rightarrow> (srv\<lparr>Srv_db := d\<rparr>, respond r status (map_sum id mk res)))"

definition with_body :: "weblib \<Rightarrow> Request \<Rightarrow> Server \<Rightarrow> 'a option \<Rightarrow> ('a \<Rightarrow> Server \<times> Response) \<Rightarrow> Server \<times> Response" where
  "with_body L r srv decoded k = (case decodeJSON L r decoded of Inl err \<Rightarrow> (srv, failure r err) | Inr x \<Rightarrow> k x)"

section \<open>Handlers\<close>

definition version :: "weblib \<Rightarrow> handler" where
  "version L r srv = (srv, success r 200 (D_Version (build_Version L) (build_Commit L) (build_Time L)))"

definition live :: handler where
  "live r srv = (srv, success r 200 (D_Status ''ok''))"

definition ready :: "web_env \<Rightarrow> handler" where
  "ready w r srv = (srv, if Web_ping w then success r 200 (D_Status ''ready'')
     else failure r (domain_error ''DATABASE_UNAVAILABLE'' ''PostgreSQL is unavailable'' 503))"

definition openapi :: handler where
  "openapi r srv = (srv, \<lparr>Resp_Status = 200, Resp_Headers = [''Content-Type'' \<mapsto> ''application/yaml''], Resp_Body = Spec\<rparr>)"

definition listProducts :: "web_env \<Rightarrow> handler" where
  "listProducts w r srv = (srv, respond r 200 (map_sum id D_Products (ListProducts (Web_env w) (Srv_db srv))))"

definition createProduct :: "weblib \<Rightarrow> web_env \<Rightarrow> handler" where
  "createProduct L w r srv = with_body L r srv (Body_CreateProduct (Req_Body r)) (\<lambda>in'.
     answer r 201 D_Product srv (CreateProduct (Web_env w) (Srv_db srv) in'))"

definition getProduct :: "web_env \<Rightarrow> string \<Rightarrow> handler" where
  "getProduct w id' r srv = (srv, respond r 200 (map_sum id D_Product (GetProduct (Web_env w) 0 (Srv_db srv) id')))"

definition updateProduct :: "weblib \<Rightarrow> web_env \<Rightarrow> string \<Rightarrow> handler" where
  "updateProduct L w id' r srv = with_body L r srv (Body_UpdateProduct (Req_Body r)) (\<lambda>in'.
     answer r 200 D_Product srv (UpdateProduct (Web_env w) (Srv_db srv) id' in'))"

definition listSales :: "web_env \<Rightarrow> handler" where
  "listSales w r srv = (srv, respond r 200 (map_sum id D_Sales (ListSales (Web_env w) (Srv_db srv))))"

definition createSale :: "weblib \<Rightarrow> web_env \<Rightarrow> handler" where
  "createSale L w r srv = with_body L r srv (Body_CreateSale (Req_Body r)) (\<lambda>in'.
     answer r 201 D_Sale srv (CreateSale (Web_env w) (Srv_db srv) in'))"

definition getSale :: "web_env \<Rightarrow> string \<Rightarrow> handler" where
  "getSale w id' r srv = (srv, respond r 200 (map_sum id D_Sale (GetSale (Web_env w) 0 (Srv_db srv) id')))"

definition activateSale :: "web_env \<Rightarrow> string \<Rightarrow> handler" where
  "activateSale w id' r srv = answer r 200 D_Sale srv (SetSaleState (Web_env w) (Srv_db srv) id' SaleActive)"

definition endSale :: "web_env \<Rightarrow> string \<Rightarrow> handler" where
  "endSale w id' r srv = answer r 200 D_Sale srv (SetSaleState (Web_env w) (Srv_db srv) id' SaleEnded)"

definition count_reservation :: "go_error + ReservationResult \<Rightarrow> Metrics \<Rightarrow> Metrics" where
  "count_reservation res m =
    (let duplicate = (case res of Inl err \<Rightarrow> False | Inr x \<Rightarrow> Result_Duplicate x);
         err = (case res of Inl err \<Rightarrow> Some err | Inr x \<Rightarrow> None) in
     m\<lparr>ReservationAttempts := ReservationAttempts m + 1,
       ReservationSuccesses := ReservationSuccesses m + (if err = None \<and> \<not> duplicate then 1 else 0),
       Duplicates := Duplicates m + (if duplicate then 1 else 0),
       SoldOut := SoldOut m + (if IsCode err ''INVENTORY_SOLD_OUT'' then 1 else 0)\<rparr>)"

definition createReservation :: "weblib \<Rightarrow> Store \<Rightarrow> web_env \<Rightarrow> string \<Rightarrow> handler" where
  "createReservation L s w id' r srv = with_body L r srv (Body_Reservation (Req_Body r)) (\<lambda>in'.
     case Reserve s (Web_env w) (Srv_db srv) id' (in'\<lparr>Request_IdempotencyKey := Req_Header r ''Idempotency-Key''\<rparr>) of (res, d) \<Rightarrow>
     let status = (case res of Inr x \<Rightarrow> if Result_Duplicate x then 200 else 201 | Inl err \<Rightarrow> 201) in
     (srv\<lparr>Srv_db := d, Srv_metrics := count_reservation res (Srv_metrics srv)\<rparr>,
      respond r status (map_sum id D_ReservationResult res)))"

definition getReservation :: "web_env \<Rightarrow> string \<Rightarrow> handler" where
  "getReservation w id' r srv = (srv, respond r 200 (map_sum id D_Reservation (GetReservation (Web_env w) 0 (Srv_db srv) id')))"

definition confirmReservation :: "web_env \<Rightarrow> string \<Rightarrow> handler" where
  "confirmReservation w id' r srv = answer r 200 D_Reservation srv
     (TransitionReservation (Web_env w) (Srv_db srv) id' ReservationConfirmed)"

definition cancelReservation :: "web_env \<Rightarrow> string \<Rightarrow> handler" where
  "cancelReservation w id' r srv = answer r 200 D_Reservation srv
     (TransitionReservation (Web_env w) (Srv_db srv) id' ReservationCancelled)"

definition listOrders :: "web_env \<Rightarrow> handler" where
  "listOrders w r srv = (srv, respond r 200 (map_sum id D_Orders (ListOrders (Web_env w) (Srv_db srv))))"

definition getOrder :: "web_env \<Rightarrow> string \<Rightarrow> handler" where
  "getOrder w id' r srv = (srv, respond r 200 (map_sum id D_Order (GetOrder (Web_env w) (Srv_db srv) id')))"

definition simulatePayment :: "weblib \<Rightarrow> web_env \<Rightarrow> handler" where
  "simulatePayment L w r srv = with_body L r srv (Body_Payment (Req_Body r)) (\<lambda>in'.
     case SimulatePayment (Web_env w) (Srv_db srv) (in'\<lparr>PaymentRequest_IdempotencyKey := Req_Header r ''Idempotency-Key''\<rparr>) of (res, d) \<Rightarrow>
     let status = (case res of Inr x \<Rightarrow> if PaymentResult_Duplicate x then 200 else 201 | Inl err \<Rightarrow> 201) in
     (srv\<lparr>Srv_db := d\<rparr>, respond r status (map_sum id D_PaymentResult res)))"

section \<open>Middleware\<close>

definition with_headers :: "(string \<rightharpoonup> string) \<Rightarrow> Server \<times> Response \<Rightarrow> Server \<times> Response" where
  "with_headers hs out = (case out of (srv, resp) \<Rightarrow> (srv, resp\<lparr>Resp_Headers := hs ++ Resp_Headers resp\<rparr>))"

definition requestID :: "web_env \<Rightarrow> handler \<Rightarrow> handler" where
  "requestID w nxt r srv =
    (let given = TrimSpace (Req_Header r ''X-Request-ID'');
         id' = (if given = [] \<or> 128 < length given then NewID (Web_rand w) else Inr given) in
     case id' of
       Inl err \<Rightarrow> (srv, http_Error ''request ID unavailable'' 500)
     | Inr i \<Rightarrow> with_headers [''X-Request-ID'' \<mapsto> i] (nxt (r\<lparr>Req_ID := i\<rparr>) srv))"

definition securityHeaders :: "handler \<Rightarrow> handler" where
  "securityHeaders nxt r srv = with_headers [''X-Content-Type-Options'' \<mapsto> ''nosniff'', ''X-Frame-Options'' \<mapsto> ''DENY'',
     ''Referrer-Policy'' \<mapsto> ''no-referrer'',
     ''Content-Security-Policy'' \<mapsto> ''default-src '' @ [CHR 0x27] @ ''none'' @ [CHR 0x27] @ ''; frame-ancestors '' @ [CHR 0x27] @ ''none'' @ [CHR 0x27]]
     (nxt r srv)"

definition cors :: "Config \<Rightarrow> handler \<Rightarrow> handler" where
  "cors cfg nxt r srv =
    (let origin = Req_Header r ''Origin''; originAllowed = (origin \<in> set (CORSAllowedOrigins cfg));
         hs = (if originAllowed then [''Access-Control-Allow-Origin'' \<mapsto> origin, ''Vary'' \<mapsto> ''Origin'',
             ''Access-Control-Allow-Headers'' \<mapsto> ''Content-Type, Idempotency-Key, X-Demo-Token, X-Request-ID, X-User-ID'',
             ''Access-Control-Allow-Methods'' \<mapsto> ''GET, POST, PATCH, OPTIONS''] else Map.empty) in
     if origin \<noteq> [] \<and> \<not> originAllowed
     then (srv, failure r (domain_error ''CORS_ORIGIN_DENIED'' ''Origin is not allowed'' 403))
     else if Req_Method r = ''OPTIONS''
     then with_headers hs (srv, \<lparr>Resp_Status = 204, Resp_Headers = Map.empty, Resp_Body = NoContent\<rparr>)
     else with_headers hs (nxt r srv))"

definition requestLog :: "web_env \<Rightarrow> ((int \<times> bool) + endpoint \<Rightarrow> string) \<Rightarrow> handler \<Rightarrow> handler" where
  "requestLog w pattern nxt r srv = (case nxt r srv of (srv', resp) \<Rightarrow>
     (srv'\<lparr>Srv_metrics := RecordHTTP (Srv_metrics srv') (Req_Method r) (pattern (Req_Endpoint r)) (Resp_Status resp) (Web_elapsed w)\<rparr>, resp))"

definition clientIP :: "weblib \<Rightarrow> Config \<Rightarrow> Request \<Rightarrow> string" where
  "clientIP L cfg r =
    (let host = (case SplitHostPort L (Req_RemoteAddr r) of Some h \<Rightarrow> h | None \<Rightarrow> Req_RemoteAddr r) in
     case ParseAddr L (TrimSpace host) of
       None \<Rightarrow> []
     | Some remote \<Rightarrow>
       if \<exists>prefix \<in> set (TrustedProxyCIDRs cfg). Prefix_Contains prefix remote
       then (case ParseAddr L (TrimSpace (fst (Cut (Req_Header r ''X-Forwarded-For'') (CHR '','')))) of
           Some client \<Rightarrow> client | None \<Rightarrow> remote)
       else remote)"

definition rateLimit :: "weblib \<Rightarrow> Config \<Rightarrow> web_env \<Rightarrow> handler \<Rightarrow> handler" where
  "rateLimit L cfg w nxt r srv =
    (let ip = clientIP L cfg r; client = (if ip = [] then ''unknown'' else ip) in
     case Allow (Srv_limiter srv) (Web_now w) client of
       (False, l) \<Rightarrow> (srv\<lparr>Srv_limiter := l, Srv_metrics := (Srv_metrics srv)\<lparr>RateLimited := RateLimited (Srv_metrics srv) + 1\<rparr>\<rparr>,
           failure r (domain_error ''RATE_LIMITED'' ''Too many requests'' 429))
     | (True, l) \<Rightarrow> nxt r (srv\<lparr>Srv_limiter := l\<rparr>))"

definition admin_ok :: "weblib \<Rightarrow> Config \<Rightarrow> Request \<Rightarrow> bool" where
  "admin_ok L cfg r \<longleftrightarrow> (case strip_prefix ''Bearer '' (Req_Header r ''Authorization'') of
     None \<Rightarrow> False
   | Some key \<Rightarrow> length (AdminAPIKeyHash cfg) = 32 \<and> web_Sum256 L (TrimSpace key) = AdminAPIKeyHash cfg)"

definition adminOnly :: "weblib \<Rightarrow> Config \<Rightarrow> handler \<Rightarrow> handler" where
  "adminOnly L cfg nxt r srv =
    (if \<not> Production cfg then nxt r srv else if \<not> admin_ok L cfg r then (srv, http_NotFound) else nxt r srv)"

definition developmentOnly :: "Config \<Rightarrow> handler \<Rightarrow> handler" where
  "developmentOnly cfg nxt r srv = (if Production cfg then (srv, http_NotFound) else nxt r srv)"

definition demoAuthorized :: "Config \<Rightarrow> Request \<Rightarrow> bool" where
  "demoAuthorized cfg r \<longleftrightarrow> AppEnv cfg = ''development'' \<and> DemoToken cfg \<noteq> [] \<and> Req_Header r ''X-Demo-Token'' = DemoToken cfg"

section \<open>The plain health handler\<close>

text \<open>\<open>NewHealthHandler\<close>: the status and the \<open>status\<close> field of its two endpoints.\<close>

definition NewHealthHandler :: "bool \<Rightarrow> endpoint \<Rightarrow> (int \<times> string) option" where
  "NewHealthHandler ping ep = (case ep of
     EP_Live \<Rightarrow> Some (200, ''ok'')
   | EP_Ready \<Rightarrow> Some (if ping then (200, ''ready'') else (503, ''unavailable''))
   | _ \<Rightarrow> None)"

end
