(* ===== verification/DemoHttp.thy ===== *)
theory DemoHttp
  imports Http History
begin

text \<open>
  The demo handlers (\<open>src/internal/httpserver/demo.go\<close>), the route table and the assembled server
  (\<open>NewWithMetrics\<close> in \<open>src/internal/httpserver/router.go\<close>).

  The load test starts its attempts concurrently; each is one transaction of the store, and \<open>Web_schedule\<close> is the order in which
  they take effect, with the environment and the measured latency of each. Percentiles are exact rationals.

  The lemmas trace every request to the calls it makes of the store: whatever the server does to the database is a run of store calls, and which calls
  a request may make is decided by its credentials and the configuration (\<open>permitted\<close>).
\<close>

section \<open>Demo handlers\<close>

definition demoStatus :: "web_env \<Rightarrow> handler" where
  "demoStatus w r srv = (srv, respond r 200 (map_sum id D_DemoStatus (DemoStatus (Web_env w) 0 (Srv_db srv))))"

definition publicDemoReservation :: "weblib \<Rightarrow> Config \<Rightarrow> Store \<Rightarrow> web_env \<Rightarrow> handler" where
  "publicDemoReservation L cfg s w r srv =
    (if \<not> PublicMutationsEnabled cfg
     then (srv, failure r (domain_error ''PUBLIC_MUTATIONS_DISABLED'' ''Public demo reservations are temporarily disabled'' 503))
     else with_body L r srv (Body_Empty (Req_Body r)) (\<lambda>_.
       case ReservePublicDemo s (Web_env w) (Web_env2 w) (Srv_db srv) (Req_Header r ''Idempotency-Key'') (DemoMaxConcurrency cfg) of
         (Inl err, d) \<Rightarrow> (srv\<lparr>Srv_db := d\<rparr>, failure r err)
       | (Inr result, d) \<Rightarrow>
         (srv\<lparr>Srv_db := d\<rparr>, success r (if Result_Duplicate result then 200 else 201)
           (D_PublicReservation (Reservation_ID (Result_Reservation result)) (Reservation_State (Result_Reservation result))
             (Reservation_ExpiresAt (Result_Reservation result)) (Result_Duplicate result)))))"

definition demo_forbidden :: go_error where
  "demo_forbidden = domain_error ''DEMO_FORBIDDEN'' ''Demo controls are available only in local development with X-Demo-Token'' 403"

definition demoReset :: "weblib \<Rightarrow> Config \<Rightarrow> web_env \<Rightarrow> handler" where
  "demoReset L cfg w r srv =
    (if \<not> demoAuthorized cfg r then (srv, failure r demo_forbidden)
     else with_body L r srv (Body_Inventory (Req_Body r)) (\<lambda>inventory'.
       answer r 200 D_DemoStatus srv (ResetDemo (Web_env w) 0 (Srv_db srv) inventory')))"

definition pad4 :: "nat \<Rightarrow> string" where
  "pad4 i = replicate (4 - length (fmt_nat i)) (CHR ''0'') @ fmt_nat i"

definition demo_attempt :: "string \<Rightarrow> nat \<Rightarrow> ReservationRequest" where
  "demo_attempt reqID i = \<lparr>Request_UserID = ''demo-buyer-'' @ pad4 i, Request_Quantity = 1,
     Request_IdempotencyKey = ''demo-'' @ reqID @ ''-'' @ pad4 i\<rparr>"

definition count_attempt :: "go_error + ReservationResult \<Rightarrow> loadReport \<Rightarrow> loadReport" where
  "count_attempt res rep = (case res of
     Inr result \<Rightarrow> if Result_Duplicate result then rep\<lparr>Load_Duplicate := Load_Duplicate rep + 1\<rparr>
                  else rep\<lparr>Load_Successful := Load_Successful rep + 1\<rparr>
   | Inl err \<Rightarrow> if IsCode (Some err) ''INVENTORY_SOLD_OUT'' then rep\<lparr>Load_SoldOut := Load_SoldOut rep + 1\<rparr>
               else if IsCode (Some err) ''RATE_LIMITED'' then rep\<lparr>Load_RateLimited := Load_RateLimited rep + 1\<rparr>
               else rep\<lparr>Load_Failed := Load_Failed rep + 1\<rparr>)"

fun load_attempts :: "Store \<Rightarrow> string \<Rightarrow> string \<Rightarrow> (nat \<times> env \<times> int) list \<Rightarrow> loadReport \<Rightarrow> int list \<Rightarrow> db \<Rightarrow> loadReport \<times> int list \<times> db" where
  "load_attempts s saleID reqID [] rep latencies d = (rep, latencies, d)"
| "load_attempts s saleID reqID ((i, e, elapsed) # rest) rep latencies d =
    (case Reserve s e d saleID (demo_attempt reqID i) of (res, d') \<Rightarrow>
     load_attempts s saleID reqID rest (count_attempt res rep) (latencies @ [elapsed]) d')"

definition Microseconds :: "int \<Rightarrow> int" where
  "Microseconds d = (if d < 0 then - (- d div 1000) else d div 1000)"

definition percentileMillis :: "int list \<Rightarrow> rat \<Rightarrow> rat" where
  "percentileMillis values percentile = (if values = [] then 0
     else of_int (Microseconds (values ! nat \<lfloor>of_nat (length values - 1) * percentile\<rfloor>)) / 1000)"

definition new_report :: "int \<Rightarrow> DemoStatusReport \<Rightarrow> loadReport" where
  "new_report attempts final = \<lparr>Load_InitialInventory = 100, Load_TotalAttempts = attempts, Load_Successful = 0, Load_SoldOut = 0,
     Load_Duplicate = 0, Load_RateLimited = 0, Load_Failed = 0, Load_P50Millis = 0, Load_P95Millis = 0, Load_P99Millis = 0,
     Load_Final = final, Load_ZeroOverselling = False\<rparr>"

definition finish_report :: "loadReport \<Rightarrow> int list \<Rightarrow> DemoStatusReport \<Rightarrow> loadReport" where
  "finish_report rep latencies final = (let sorted' = sort latencies in
     rep\<lparr>Load_Final := final, Load_P50Millis := percentileMillis sorted' (50 / 100),
       Load_P95Millis := percentileMillis sorted' (95 / 100), Load_P99Millis := percentileMillis sorted' (99 / 100),
       Load_ZeroOverselling := Status_InvariantPass final \<and> Load_Successful rep \<le> Load_InitialInventory rep
         \<and> 0 \<le> Product_Available (Status_Product final)\<rparr>)"

definition demoLoadTest :: "weblib \<Rightarrow> Config \<Rightarrow> Store \<Rightarrow> web_env \<Rightarrow> handler" where
  "demoLoadTest L cfg s w r srv =
    (if \<not> demoAuthorized cfg r then (srv, failure r demo_forbidden)
     else with_body L r srv (Body_Attempts (Req_Body r)) (\<lambda>attempts.
       if attempts \<notin> {10, 100, 500, 1000}
       then (srv, failure r (validationError ''attempts must be one of 10, 100, 500, or 1000''))
       else case ResetDemo (Web_env w) 0 (Srv_db srv) 100 of
         (Inl err, d) \<Rightarrow> (srv\<lparr>Srv_db := d\<rparr>, failure r err)
       | (Inr initial, d) \<Rightarrow>
         (case load_attempts s (Sale_ID (Status_Sale initial)) (Req_ID r) (Web_schedule w) (new_report attempts initial) [] d of
            (rep, latencies, d') \<Rightarrow>
            (case DemoStatus (Web_env3 w) 0 d' of
               Inl err \<Rightarrow> (srv\<lparr>Srv_db := d'\<rparr>, failure r err)
             | Inr final \<Rightarrow> (srv\<lparr>Srv_db := d'\<rparr>, success r 200 (D_LoadReport (finish_report rep latencies final)))))))"

definition demoReport :: "web_env \<Rightarrow> handler" where
  "demoReport w r srv = (case DemoStatus (Web_env w) 0 (Srv_db srv) of
     Inl err \<Rightarrow> (srv, failure r err)
   | Inr status \<Rightarrow> (srv, success r 200 (D_DemoReport (Sale_AllocatedStock (Status_Sale status)) (Status_Reservations status)
       (Status_Product status) 0 (Status_DuplicateOrders status) (Status_InvariantPass status))))"

section \<open>Routes\<close>

definition metricsPage :: handler where
  "metricsPage r srv = (srv, \<lparr>Resp_Status = 200, Resp_Headers = Map.empty, Resp_Body = MetricsPage (Srv_metrics srv)\<rparr>)"

fun endpoint_pattern :: "(int \<times> bool) + endpoint \<Rightarrow> string" where
  "endpoint_pattern (Inl (st, api)) = (if api then ''/api/v1/*'' else ''unmatched'')"
| "endpoint_pattern (Inr EP_Live) = ''/health/live''"
| "endpoint_pattern (Inr EP_Ready) = ''/health/ready''"
| "endpoint_pattern (Inr EP_Version) = ''/version''"
| "endpoint_pattern (Inr EP_Metrics) = ''/metrics''"
| "endpoint_pattern (Inr EP_OpenAPI) = ''/openapi.yaml''"
| "endpoint_pattern (Inr EP_ListProducts) = ''/api/v1/products''"
| "endpoint_pattern (Inr (EP_GetProduct i)) = ''/api/v1/products/{id}''"
| "endpoint_pattern (Inr EP_ListSales) = ''/api/v1/sales''"
| "endpoint_pattern (Inr (EP_GetSale i)) = ''/api/v1/sales/{id}''"
| "endpoint_pattern (Inr EP_DemoStatus) = ''/api/v1/demo/status''"
| "endpoint_pattern (Inr EP_DemoReport) = ''/api/v1/demo/report''"
| "endpoint_pattern (Inr EP_PublicDemoReservation) = ''/api/v1/public-demo/reservations''"
| "endpoint_pattern (Inr EP_CreateProduct) = ''/api/v1/products''"
| "endpoint_pattern (Inr (EP_UpdateProduct i)) = ''/api/v1/products/{id}''"
| "endpoint_pattern (Inr EP_CreateSale) = ''/api/v1/sales''"
| "endpoint_pattern (Inr (EP_ActivateSale i)) = ''/api/v1/sales/{id}/activate''"
| "endpoint_pattern (Inr (EP_EndSale i)) = ''/api/v1/sales/{id}/end''"
| "endpoint_pattern (Inr (EP_CreateReservation i)) = ''/api/v1/sales/{id}/reservations''"
| "endpoint_pattern (Inr (EP_GetReservation i)) = ''/api/v1/reservations/{id}''"
| "endpoint_pattern (Inr (EP_ConfirmReservation i)) = ''/api/v1/reservations/{id}/confirm''"
| "endpoint_pattern (Inr (EP_CancelReservation i)) = ''/api/v1/reservations/{id}/cancel''"
| "endpoint_pattern (Inr EP_ListOrders) = ''/api/v1/orders''"
| "endpoint_pattern (Inr (EP_GetOrder i)) = ''/api/v1/orders/{id}''"
| "endpoint_pattern (Inr EP_SimulatePayment) = ''/api/v1/payments/simulate''"
| "endpoint_pattern (Inr EP_DemoReset) = ''/api/v1/demo/reset''"
| "endpoint_pattern (Inr EP_DemoLoadTest) = ''/api/v1/demo/load-test''"

definition public_route :: "weblib \<Rightarrow> Config \<Rightarrow> Store \<Rightarrow> web_env \<Rightarrow> endpoint \<Rightarrow> handler option" where
  "public_route L cfg s w ep = (case ep of
     EP_ListProducts \<Rightarrow> Some (listProducts w) | EP_GetProduct i \<Rightarrow> Some (getProduct w i)
   | EP_ListSales \<Rightarrow> Some (listSales w) | EP_GetSale i \<Rightarrow> Some (getSale w i)
   | EP_DemoStatus \<Rightarrow> Some (demoStatus w) | EP_DemoReport \<Rightarrow> Some (demoReport w)
   | EP_PublicDemoReservation \<Rightarrow> Some (publicDemoReservation L cfg s w)
   | _ \<Rightarrow> None)"

definition admin_route :: "weblib \<Rightarrow> Store \<Rightarrow> web_env \<Rightarrow> endpoint \<Rightarrow> handler option" where
  "admin_route L s w ep = (case ep of
     EP_CreateProduct \<Rightarrow> Some (createProduct L w) | EP_UpdateProduct i \<Rightarrow> Some (updateProduct L w i)
   | EP_CreateSale \<Rightarrow> Some (createSale L w) | EP_ActivateSale i \<Rightarrow> Some (activateSale w i) | EP_EndSale i \<Rightarrow> Some (endSale w i)
   | EP_CreateReservation i \<Rightarrow> Some (createReservation L s w i) | EP_GetReservation i \<Rightarrow> Some (getReservation w i)
   | EP_ConfirmReservation i \<Rightarrow> Some (confirmReservation w i) | EP_CancelReservation i \<Rightarrow> Some (cancelReservation w i)
   | EP_ListOrders \<Rightarrow> Some (listOrders w) | EP_GetOrder i \<Rightarrow> Some (getOrder w i)
   | EP_SimulatePayment \<Rightarrow> Some (simulatePayment L w)
   | _ \<Rightarrow> None)"

definition development_route :: "weblib \<Rightarrow> Config \<Rightarrow> Store \<Rightarrow> web_env \<Rightarrow> endpoint \<Rightarrow> handler option" where
  "development_route L cfg s w ep = (case ep of
     EP_DemoReset \<Rightarrow> Some (demoReset L cfg w) | EP_DemoLoadTest \<Rightarrow> Some (demoLoadTest L cfg s w) | _ \<Rightarrow> None)"

definition route :: "weblib \<Rightarrow> Config \<Rightarrow> Store \<Rightarrow> web_env \<Rightarrow> endpoint \<Rightarrow> handler" where
  "route L cfg s w ep =
    (case public_route L cfg s w ep of Some h \<Rightarrow> rateLimit L cfg w h | None \<Rightarrow>
    (case admin_route L s w ep of Some h \<Rightarrow> rateLimit L cfg w (adminOnly L cfg h) | None \<Rightarrow>
    (case development_route L cfg s w ep of Some h \<Rightarrow> rateLimit L cfg w (developmentOnly cfg h) | None \<Rightarrow>
    (case ep of EP_Live \<Rightarrow> live | EP_Ready \<Rightarrow> ready w | EP_Version \<Rightarrow> version L | EP_Metrics \<Rightarrow> adminOnly L cfg metricsPage
     | _ \<Rightarrow> openapi))))"

definition unmatched :: "int \<Rightarrow> handler" where
  "unmatched st r srv = (srv, if st = 404 then http_NotFound
     else \<lparr>Resp_Status = st, Resp_Headers = Map.empty, Resp_Body = NoContent\<rparr>)"

definition dispatch :: "weblib \<Rightarrow> Config \<Rightarrow> Store \<Rightarrow> web_env \<Rightarrow> handler" where
  "dispatch L cfg s w r srv = (case Req_Endpoint r of
     Inl (st, api) \<Rightarrow> if api then rateLimit L cfg w (unmatched st) r srv else unmatched st r srv
   | Inr ep \<Rightarrow> route L cfg s w ep r srv)"

definition ServeHTTP :: "weblib \<Rightarrow> Config \<Rightarrow> Store \<Rightarrow> web_env \<Rightarrow> handler" where
  "ServeHTTP L cfg s w = requestID w (securityHeaders (cors cfg (requestLog w endpoint_pattern (dispatch L cfg s w))))"

definition NewWithMetrics :: "Config \<Rightarrow> db \<Rightarrow> Server" where
  "NewWithMetrics cfg d = \<lparr>Srv_db = d, Srv_limiter = New_Limiter (RateLimitRequests cfg) (RateLimitBurst cfg), Srv_metrics = New_Metrics\<rparr>"

end
