(* ===== verification/Worker.thy ===== *)
theory Worker
  imports MoveEffect Metrics
begin

text \<open>
  The expiration worker (\<open>src/internal/expirationworker/worker.go\<close>): a loop that waits for the next tick of its ticker and runs one
  expiration batch, until its context is cancelled.

  What the \<open>select\<close> receives is a list of events; the loop ends at the first \<open>CtxDone\<close>. A run over a list without
  one is the state in which the loop waits for its next event. The batch identifier is only logged.

  The lemmas show that the loop keeps the ledger whatever happens, and that enough undisturbed ticks expire everything that is due,
  oldest first, even when the backlog is larger than a batch.
\<close>

section \<open>The loop\<close>

datatype worker_event = CtxDone | Tick env int

definition worker_count :: "ExpirationResult \<Rightarrow> Metrics \<Rightarrow> Metrics" where
  "worker_count result m = m\<lparr>Expired := Expired m + Expiration_Expired result,
     InventoryRestored := InventoryRestored m + Expiration_Restored result\<rparr>"

definition worker_tick :: "int \<Rightarrow> env \<Rightarrow> int \<Rightarrow> db \<times> Metrics option \<Rightarrow> db \<times> Metrics option" where
  "worker_tick batchSize e now st = (case st of (d, metrics) \<Rightarrow>
    (case ExpireBatch e d batchSize now of
       (Inl err, d') \<Rightarrow> (d', map_option (\<lambda>m. m\<lparr>WorkerErrors := WorkerErrors m + 1\<rparr>) metrics)
     | (Inr result, d') \<Rightarrow> (d', map_option (worker_count result) metrics)))"

fun Run :: "int \<Rightarrow> worker_event list \<Rightarrow> db \<times> Metrics option \<Rightarrow> db \<times> Metrics option" where
  "Run batchSize [] st = st"
| "Run batchSize (CtxDone # evs) st = st"
| "Run batchSize (Tick e now # evs) st = Run batchSize evs (worker_tick batchSize e now st)"

lemma fst_worker_tick: "fst (worker_tick n e now (d, m)) = snd (ExpireBatch e d n now)"
  by (simp add: worker_tick_def split: prod.split sum.split)

lemma Run_good: "good d \<Longrightarrow> good (fst (Run n evs (d, m)))"
proof (induction n evs "(d, m)" arbitrary: d m rule: Run.induct)
  case (3 n e now evs d m)
  have "good (fst (worker_tick n e now (d, m)))" using Expire_good [OF 3(2)] by (simp add: fst_worker_tick)
  then show ?case using 3(1) by (cases "worker_tick n e now (d, m)") simp
qed simp_all

lemma Run_reachable: "reachable s d \<Longrightarrow> reachable s (fst (Run n evs (d, m)))"
proof (induction n evs "(d, m)" arbitrary: d m rule: Run.induct)
  case (3 n e now evs d m)
  have "reachable s (perform s e e d (Call_Expire n now))" by (rule reachable_perform [OF 3(2)])
  then have "reachable s (fst (worker_tick n e now (d, m)))" by (simp add: fst_worker_tick)
  then show ?case using 3(1) by (cases "worker_tick n e now (d, m)") simp
qed simp_all

section \<open>The backlog\<close>

definition overdue :: "int \<Rightarrow> reservations_row \<Rightarrow> bool" where
  "overdue t r \<longleftrightarrow> reservations_state r = ReservationPending \<and> reservations_expires_at r \<le> t"

abbreviation backlog :: "int \<Rightarrow> reservations_row list \<Rightarrow> nat" where
  "backlog t rs \<equiv> length (filter (overdue t) rs)"

lemma filter_take_sorted:
  "sorted (map f xs) \<Longrightarrow> filter (\<lambda>x. f x \<le> t) (take n xs) = take n (filter (\<lambda>x. f x \<le> (t :: int)) xs)"
proof (induction xs arbitrary: n)
  case (Cons x xs)
  show ?case
  proof (cases "f x \<le> t")
    case True
    then show ?thesis using Cons by (cases n) simp_all
  next
    case False
    then have none: "\<forall>y \<in> set xs. \<not> f y \<le> t" using Cons.prems by auto
    then have "filter (\<lambda>x. f x \<le> t) xs = []" "filter (\<lambda>x. f x \<le> t) (take m xs) = []" for m
      by (auto simp: filter_empty_conv dest: in_set_takeD)
    then show ?thesis using False by (cases n) simp_all
  qed
qed simp

lemma candidates_overdue:
  assumes "\<And>r. r \<in> set (reservations d) \<Longrightarrow> \<not> locked e (reservations_id r)" and "t \<le> now"
  shows "length (filter (overdue t) (expire_candidates e d n now)) = min n (backlog t (reservations d))"
proof -
  let ?xs = "sort_key reservations_expires_at (filter (overdue now) (reservations d))"
  have cs: "expire_candidates e d n now = take n ?xs"
    using assms(1) unfolding expire_candidates_def overdue_def
    by (intro arg_cong [where f = "\<lambda>l. take n (sort_key reservations_expires_at l)"] filter_cong) auto
  have "filter (overdue t) ys = filter (\<lambda>r. reservations_expires_at r \<le> t) ys" if "set ys \<subseteq> set ?xs" for ys
    using that by (intro filter_cong) (auto simp: overdue_def)
  then have "filter (overdue t) (take n ?xs) = take n (filter (overdue t) ?xs)"
    using filter_take_sorted [of reservations_expires_at ?xs t n] set_take_subset [of n ?xs] by simp
  moreover have "mset (filter (overdue t) ?xs) = mset (filter (overdue t) (reservations d))"
  proof -
    have "filter (overdue t) (filter (overdue now) (reservations d)) = filter (overdue t) (reservations d)"
      unfolding filter_filter by (rule filter_cong) (use assms(2) in \<open>auto simp: overdue_def\<close>)
    then show ?thesis by (metis mset_filter mset_sort)
  qed
  ultimately show ?thesis
    unfolding cs by (metis length_take min.commute size_mset)
qed

lemma backlog_after:
  assumes "distinct (map reservations_id rs)" "set cs \<subseteq> set rs" "distinct (map reservations_id cs)"
    and "\<And>c. c \<in> set cs \<Longrightarrow> reservations_state c = ReservationPending"
  shows "backlog t (expired_rows now cs rs) = backlog t rs - length (filter (overdue t) cs)"
proof -
  have key: "reservations_id r \<in> reservations_id ` set cs \<longleftrightarrow> r \<in> set cs" if "r \<in> set rs" for r
    using distinct_key_eq [OF assms(1) that] assms(2) by blast
  have rest: "overdue t (if reservations_id r \<in> reservations_id ` set cs \<and> reservations_state r = ReservationPending
        then r\<lparr>reservations_state := ReservationExpired, reservations_updated_at := now\<rparr> else r)
      \<longleftrightarrow> overdue t r \<and> r \<notin> set cs" if "r \<in> set rs" for r
    using key [OF that] assms(4) by (auto simp: overdue_def)
  have "length (filter (overdue t) (expired_rows now cs rs)) = length (filter (\<lambda>r. r \<notin> set cs) (filter (overdue t) rs))"
    unfolding update_where_def filter_map length_map filter_filter
    by (intro arg_cong [where f = length] filter_cong) (use rest in auto)
  moreover have "length (filter (\<lambda>r. r \<in> set cs) (filter (overdue t) rs)) = length (filter (overdue t) cs)"
  proof -
    have "mset (filter (\<lambda>r. r \<in> set cs) rs) = mset cs"
      by (rule filter_key_set [OF assms(1,3,2)]) (use key in blast)
    then have "mset (filter (overdue t) (filter (\<lambda>r. r \<in> set cs) rs)) = mset (filter (overdue t) cs)" by (metis mset_filter)
    moreover have "filter (overdue t) (filter (\<lambda>r. r \<in> set cs) rs) = filter (\<lambda>r. r \<in> set cs) (filter (overdue t) rs)"
      by (simp add: conj_commute)
    ultimately show ?thesis by (metis size_mset)
  qed
  ultimately show ?thesis
    using sum_length_filter_compl [of "\<lambda>r. r \<in> set cs" "filter (overdue t) rs"] by simp
qed

section \<open>Undisturbed ticks\<close>

text \<open>
  Ticks at or after \<open>t\<close> whose batch meets no fault and no row lock and draws fresh event identifiers, one
  after the other.
\<close>

fun undisturbed :: "int \<Rightarrow> int \<Rightarrow> db \<Rightarrow> (env \<times> int) list \<Rightarrow> bool" where
  "undisturbed n t d [] \<longleftrightarrow> True"
| "undisturbed n t d ((e, now) # ticks) \<longleftrightarrow> env_ok e \<and> (\<forall>x. \<not> locked e x) \<and> t \<le> now
     \<and> batch_ids e d 0 (length (expire_candidates e d (nat n) now))
     \<and> undisturbed n t (snd (ExpireBatch e d n now)) ticks"

abbreviation ticking :: "(env \<times> int) list \<Rightarrow> worker_event list" where
  "ticking ticks \<equiv> map (\<lambda>(e, now). Tick e now) ticks"

abbreviation expired_total :: "db \<Rightarrow> nat" where
  "expired_total d \<equiv> length (filter (\<lambda>r. reservations_state r = ReservationExpired) (reservations d))"

lemma expired_after:
  assumes "distinct (map reservations_id rs)" "set cs \<subseteq> set rs" "distinct (map reservations_id cs)"
    and "\<And>c. c \<in> set cs \<Longrightarrow> reservations_state c = ReservationPending"
  shows "length (filter (\<lambda>r. reservations_state r = ReservationExpired) (expired_rows now cs rs))
    = length (filter (\<lambda>r. reservations_state r = ReservationExpired) rs) + length cs"
proof -
  let ?ex = "\<lambda>r. reservations_state r = ReservationExpired"
  have key: "reservations_id r \<in> reservations_id ` set cs \<longleftrightarrow> r \<in> set cs" if "r \<in> set rs" for r
    using distinct_key_eq [OF assms(1) that] assms(2) by blast
  have "filter (?ex \<circ> (\<lambda>r. if reservations_id r \<in> reservations_id ` set cs \<and> reservations_state r = ReservationPending
        then r\<lparr>reservations_state := ReservationExpired, reservations_updated_at := now\<rparr> else r)) rs
      = filter (\<lambda>r. ?ex r \<or> r \<in> set cs) rs"
    using key assms(4) by (intro filter_cong) auto
  then have "length (filter ?ex (expired_rows now cs rs)) = length (filter (\<lambda>r. ?ex r \<or> r \<in> set cs) rs)"
    by (simp add: update_where_def filter_map)
  also have "\<dots> = length (filter ?ex rs) + length (filter (\<lambda>r. r \<in> set cs) rs)"
    using assms(4) by (induction rs) fastforce+
  also have "mset (filter (\<lambda>r. r \<in> set cs) rs) = mset cs"
    by (rule filter_key_set [OF assms(1,3,2)]) (use key in blast)
  then have "length (filter (\<lambda>r. r \<in> set cs) rs) = length cs" by (metis size_mset)
  finally show ?thesis .
qed

lemma tick_progress:
  assumes "good d" "0 < n" "n \<le> 1000" "undisturbed n t d ((e, now) # ticks)"
  obtains d' k where "worker_tick n e now (d, Some m) = (d', Some (m\<lparr>Expired := Expired m + int k, InventoryRestored := InventoryRestored m + int k\<rparr>))"
    "snd (ExpireBatch e d n now) = d'" "expired_total d' = expired_total d + k"
    "backlog t (reservations d') = backlog t (reservations d) - nat n"
proof -
  let ?cs = "expire_candidates e d (nat n) now"
  have sc: "schema_ok d" using assms(1) by (simp add: good_def ledger_def)
  note cand = candidates_props [OF keysD(4) [OF sc], where e = e and n = "nat n" and at = now]
  have u: "env_ok e" "t \<le> now" "batch_ids e d 0 (length ?cs)" "\<And>x. \<not> locked e x" using assms(4) by auto
  obtain d' where d': "ExpireBatch e d n now = (Inr \<lparr>Expiration_Processed = int (length ?cs), Expiration_Expired = int (length ?cs),
       Expiration_Restored = int (length ?cs)\<rparr>, d')" "reservations d' = expired_rows now ?cs (reservations d)"
      "totals d' = totals d"
    by (rule Expire_ok [OF assms(1) u(1) assms(2,3) refl u(3)])
  have "expired_total d' = expired_total d + length ?cs"
    unfolding d'(2) by (rule expired_after [OF keysD(4) [OF sc] cand(1,2)]) (use cand(3) in blast)
  moreover have "backlog t (reservations d') = backlog t (reservations d) - nat n"
    unfolding d'(2) using backlog_after [OF keysD(4) [OF sc] cand(1,2), of t now] cand(3)
      candidates_overdue [of d e t now "nat n"] u(2,4) by (simp add: min_def)
  ultimately show thesis using that d'(1) by (simp add: worker_tick_def worker_count_def)
qed

lemma Run_drains:
  assumes "good d" "0 < n" "n \<le> 1000" "undisturbed n t d ticks"
  shows "\<exists>d' m'. Run n (ticking ticks) (d, Some m) = (d', Some m') \<and> good d'
    \<and> backlog t (reservations d') = backlog t (reservations d) - length ticks * nat n
    \<and> Expired m' - Expired m = int (expired_total d') - int (expired_total d) \<and> WorkerErrors m' = WorkerErrors m"
  using assms
proof (induction ticks arbitrary: d m)
  case (Cons x ticks)
  obtain e now where x: "x = (e, now)" by (cases x)
  obtain d1 k where t: "worker_tick n e now (d, Some m) = (d1, Some (m\<lparr>Expired := Expired m + int k, InventoryRestored := InventoryRestored m + int k\<rparr>))"
      "snd (ExpireBatch e d n now) = d1" "expired_total d1 = expired_total d + k"
      "backlog t (reservations d1) = backlog t (reservations d) - nat n"
    by (rule tick_progress [OF Cons.prems(1-3), of t e now ticks m]) (use Cons.prems(4) x in simp_all)
  have "good d1" using Expire_good [OF Cons.prems(1), of e n now] t(2) by simp
  moreover have "undisturbed n t d1 ticks" using Cons.prems(4) x t(2) by simp
  ultimately obtain d' m' where "Run n (ticking ticks) (d1, Some (m\<lparr>Expired := Expired m + int k, InventoryRestored := InventoryRestored m + int k\<rparr>)) = (d', Some m')"
      "good d'" "backlog t (reservations d') = backlog t (reservations d1) - length ticks * nat n"
      "Expired m' - (Expired m + int k) = int (expired_total d') - int (expired_total d1)" "WorkerErrors m' = WorkerErrors m"
    using Cons.IH [OF _ Cons.prems(2,3), of d1 "m\<lparr>Expired := Expired m + int k, InventoryRestored := InventoryRestored m + int k\<rparr>"] by auto
  then show ?case using t x by simp
qed simp

end
