(* ===== verification/Service.thy ===== *)
theory Service
  imports DemoHttp Worker
begin

text \<open>
  The running service: requests, in any order, and ticks of the expiration worker on one database.

  The middleware contract (locale \<open>middleware\<close>) says that a middleware either leaves the database alone or passes the request on, unchanged but for its
  identifier, when its guard admits it. Interpreted for every middleware of the chain, it reduces the effect of
  a request to that of its handler, and each handler to calls of the store.
\<close>

section \<open>Handlers as store calls\<close>

definition traced :: "Store \<Rightarrow> (Request \<Rightarrow> call \<Rightarrow> bool) \<Rightarrow> handler \<Rightarrow> bool" where
  "traced s A h \<longleftrightarrow> (\<forall>r srv. \<exists>cs. runs (step s) (Srv_db srv) cs (Srv_db (fst (h r srv))) \<and> list_all (A r) cs)"

lemma traced_mono: "traced s A h \<Longrightarrow> (\<And>r c. A r c \<Longrightarrow> B r c) \<Longrightarrow> traced s B h"
  unfolding traced_def by (metis (mono_tags, lifting) list.pred_mono_strong)

lemma traced_same: "(\<And>r srv. Srv_db (fst (h r srv)) = Srv_db srv) \<Longrightarrow> traced s A h"
  unfolding traced_def by (intro allI exI [of _ "[]"]) (simp add: runs_nil)

lemma runs_single: "runs (step s) d [c] (perform s e e' d c)"
  by (blast intro: runs.intros step.intros)

lemma traced_call:
  assumes "\<And>r srv. Srv_db (fst (h r srv)) = Srv_db srv
    \<or> (\<exists>e e' c. A r c \<and> Srv_db (fst (h r srv)) = perform s e e' (Srv_db srv) c)"
  shows "traced s A h"
  unfolding traced_def
proof (intro allI)
  fix r srv
  from assms [of r srv] show "\<exists>cs. runs (step s) (Srv_db srv) cs (Srv_db (fst (h r srv))) \<and> list_all (A r) cs"
  proof
    assume "Srv_db (fst (h r srv)) = Srv_db srv"
    then show ?thesis by (intro exI [of _ "[]"]) (simp add: runs_nil)
  next
    assume "\<exists>e e' c. A r c \<and> Srv_db (fst (h r srv)) = perform s e e' (Srv_db srv) c"
    then obtain e e' c where "A r c" "Srv_db (fst (h r srv)) = perform s e e' (Srv_db srv) c" by blast
    then show ?thesis using runs_single [of s "Srv_db srv" c e e'] by (intro exI [of _ "[c]"]) simp
  qed
qed

section \<open>Middleware\<close>

locale middleware =
  fixes mw :: "handler \<Rightarrow> handler" and guard :: "Request \<Rightarrow> bool"
  assumes passes: "Srv_db (fst (mw h r srv)) = Srv_db srv
    \<or> guard r \<and> (\<exists>i srv1. Srv_db srv1 = Srv_db srv \<and> Srv_db (fst (mw h r srv)) = Srv_db (fst (h (r\<lparr>Req_ID := i\<rparr>) srv1)))"
begin

lemma traced_mw:
  assumes "traced s A h" and "\<And>r i. A (r\<lparr>Req_ID := i\<rparr>) = A r"
  shows "traced s (\<lambda>r c. guard r \<and> A r c) (mw h)"
  unfolding traced_def
proof (intro allI)
  fix r srv
  show "\<exists>cs. runs (step s) (Srv_db srv) cs (Srv_db (fst (mw h r srv))) \<and> list_all (\<lambda>c. guard r \<and> A r c) cs"
    using passes [of h r srv]
  proof
    assume "Srv_db (fst (mw h r srv)) = Srv_db srv"
    then show ?thesis by (intro exI [of _ "[]"]) (simp add: runs_nil)
  next
    assume "guard r \<and> (\<exists>i srv1. Srv_db srv1 = Srv_db srv \<and> Srv_db (fst (mw h r srv)) = Srv_db (fst (h (r\<lparr>Req_ID := i\<rparr>) srv1)))"
    then obtain i srv1 where g: "guard r" and eq: "Srv_db srv1 = Srv_db srv" "Srv_db (fst (mw h r srv)) = Srv_db (fst (h (r\<lparr>Req_ID := i\<rparr>) srv1))"
      by blast
    obtain cs where "runs (step s) (Srv_db srv1) cs (Srv_db (fst (h (r\<lparr>Req_ID := i\<rparr>) srv1)))" "list_all (A (r\<lparr>Req_ID := i\<rparr>)) cs"
      using assms(1) unfolding traced_def by blast
    then show ?thesis using g eq assms(2) by (intro exI [of _ cs]) (simp add: list_all_iff)
  qed
qed

end

lemma with_headers_db [simp]: "Srv_db (fst (with_headers hs out)) = Srv_db (fst out)"
  by (simp add: with_headers_def split: prod.split)

interpretation request_id: middleware "requestID w" "\<lambda>r. True" for w
proof
  show "Srv_db (fst (requestID w h r srv)) = Srv_db srv
    \<or> True \<and> (\<exists>i srv1. Srv_db srv1 = Srv_db srv \<and> Srv_db (fst (requestID w h r srv)) = Srv_db (fst (h (r\<lparr>Req_ID := i\<rparr>) srv1)))" for h r srv
    by (auto simp: requestID_def Let_def split: sum.split)
qed

lemma passed_on:
  assumes "Srv_db (fst out) = Srv_db srv \<or> g \<and> Srv_db (fst out) = Srv_db (fst (h r srv'))" and "Srv_db srv' = Srv_db srv"
  shows "Srv_db (fst out) = Srv_db srv
    \<or> g \<and> (\<exists>i srv1. Srv_db srv1 = Srv_db srv \<and> Srv_db (fst out) = Srv_db (fst (h (r\<lparr>Req_ID := i\<rparr>) srv1)))"
  using assms(1)
proof
  assume a: "g \<and> Srv_db (fst out) = Srv_db (fst (h r srv'))"
  then have "\<exists>i srv1. Srv_db srv1 = Srv_db srv \<and> Srv_db (fst out) = Srv_db (fst (h (r\<lparr>Req_ID := i\<rparr>) srv1))"
    by (intro exI [of _ "Req_ID r"] exI [of _ srv']) (simp add: assms(2))
  with a show ?thesis by blast
qed blast

interpretation security_headers: middleware securityHeaders "\<lambda>r. True"
  by (unfold_locales, rule passed_on [where srv' = srv for srv]) (auto simp: securityHeaders_def)

interpretation cross_origin: middleware "cors cfg" "\<lambda>r. Req_Header r ''Origin'' = [] \<or> Req_Header r ''Origin'' \<in> set (CORSAllowedOrigins cfg)" for cfg
  by (unfold_locales, rule passed_on [where srv' = srv for srv]) (auto simp: cors_def Let_def)

interpretation request_log: middleware "requestLog w pattern" "\<lambda>r. True" for w pattern
  by (unfold_locales, rule passed_on [where srv' = srv for srv]) (auto simp: requestLog_def split: prod.split)

interpretation rate_limit: middleware "rateLimit L cfg w" "\<lambda>r. True" for L cfg w
proof
  fix h r srv
  let ?ip = "clientIP L cfg r"
  show "Srv_db (fst (rateLimit L cfg w h r srv)) = Srv_db srv \<or> True \<and>
      (\<exists>i srv1. Srv_db srv1 = Srv_db srv \<and> Srv_db (fst (rateLimit L cfg w h r srv)) = Srv_db (fst (h (r\<lparr>Req_ID := i\<rparr>) srv1)))"
    by (rule passed_on [where srv' = "srv\<lparr>Srv_limiter := snd (Allow (Srv_limiter srv) (Web_now w) (if ?ip = [] then ''unknown'' else ?ip))\<rparr>"])
      (auto simp: rateLimit_def Let_def split: prod.split bool.split)
qed

interpretation admin_only: middleware "adminOnly L cfg" "\<lambda>r. \<not> Production cfg \<or> admin_ok L cfg r" for L cfg
  by (unfold_locales, rule passed_on [where srv' = srv for srv]) (auto simp: adminOnly_def)

interpretation development_only: middleware "developmentOnly cfg" "\<lambda>r. \<not> Production cfg" for cfg
  by (unfold_locales, rule passed_on [where srv' = srv for srv]) (auto simp: developmentOnly_def)

section \<open>Which calls a request may make\<close>

fun admin_call :: "call \<Rightarrow> bool" where
  "admin_call (Call_PublicReserve key m) = False"
| "admin_call (Call_Reset n) = False"
| "admin_call (Call_EnsureDemo n) = False"
| "admin_call (Call_Expire n t) = False"
| "admin_call _ = True"

fun demo_call :: "call \<Rightarrow> bool" where
  "demo_call (Call_Reset n) = True"
| "demo_call (Call_Reserve sid req) = True"
| "demo_call _ = False"

fun public_call :: "call \<Rightarrow> bool" where
  "public_call (Call_PublicReserve key m) = True"
| "public_call _ = False"

definition permitted :: "weblib \<Rightarrow> Config \<Rightarrow> Request \<Rightarrow> call \<Rightarrow> bool" where
  "permitted L cfg r c \<longleftrightarrow> (Req_Header r ''Origin'' = [] \<or> Req_Header r ''Origin'' \<in> set (CORSAllowedOrigins cfg))
     \<and> (admin_call c \<and> (\<not> Production cfg \<or> admin_ok L cfg r) \<or> demo_call c \<and> \<not> Production cfg \<and> demoAuthorized cfg r
       \<or> public_call c \<and> PublicMutationsEnabled cfg)"

text \<open>Which handlers change the database, and by which call.\<close>

lemmas handler_defs = live_def ready_def version_def openapi_def listProducts_def getProduct_def listSales_def getSale_def demoStatus_def
  demoReport_def getReservation_def listOrders_def getOrder_def metricsPage_def unmatched_def

lemma traced_public:
  assumes "public_route L cfg s w ep = Some h"
  shows "traced s (\<lambda>r c. public_call c \<and> PublicMutationsEnabled cfg) h"
proof -
  have "Srv_db (fst (h r srv)) = Srv_db srv \<or> (\<exists>e e' c. (public_call c \<and> PublicMutationsEnabled cfg) \<and> Srv_db (fst (h r srv)) = perform s e e' (Srv_db srv) c)" for r srv
  proof (cases "ep = EP_PublicDemoReservation")
    case True
    let ?c = "Call_PublicReserve (Req_Header r ''Idempotency-Key'') (DemoMaxConcurrency cfg)"
    have "h = publicDemoReservation L cfg s w" using assms True by (simp add: public_route_def)
    then have "Srv_db (fst (h r srv)) = Srv_db srv \<or> PublicMutationsEnabled cfg \<and> Srv_db (fst (h r srv)) = perform s (Web_env w) (Web_env2 w) (Srv_db srv) ?c"
      by (auto simp: publicDemoReservation_def with_body_def split: sum.split prod.split)
    then show ?thesis by (metis public_call.simps(1))
  next
    case False
    then show ?thesis
      using assms by (cases ep) (auto simp: public_route_def handler_defs split: sum.split)
  qed
  then show ?thesis by (rule traced_call)
qed

lemma answer_db [simp]: "Srv_db (fst (answer r status mk srv out)) = snd out"
  by (simp add: answer_def split: prod.split)

lemma traced_admin:
  assumes "admin_route L s w ep = Some h"
  shows "traced s (\<lambda>r c. admin_call c) h"
proof -
  let ?e = "Web_env w"
  have body: "Srv_db (fst (with_body L r srv x k)) = Srv_db srv \<or> (\<exists>e e' c. admin_call c \<and> Srv_db (fst (with_body L r srv x k)) = perform s e e' (Srv_db srv) c)"
    if "\<And>y. \<exists>e e' c. admin_call c \<and> Srv_db (fst (k y)) = perform s e e' (Srv_db srv) c" for r srv k and x :: "'x option"
    using that by (auto simp: with_body_def split: sum.split)
  have "Srv_db (fst (h r srv)) = Srv_db srv \<or> (\<exists>e e' c. admin_call c \<and> Srv_db (fst (h r srv)) = perform s e e' (Srv_db srv) c)" for r srv
  proof (cases ep)
    case EP_CreateProduct
    then have h: "h = createProduct L w" using assms by (simp add: admin_route_def)
    show ?thesis unfolding h createProduct_def
      by (rule body) (auto intro!: exI [of _ ?e] exI [of _ "Call_CreateProduct _"])
  next
    case (EP_UpdateProduct i)
    then have h: "h = updateProduct L w i" using assms by (simp add: admin_route_def)
    show ?thesis unfolding h updateProduct_def
      by (rule body) (auto intro!: exI [of _ ?e] exI [of _ "Call_UpdateProduct i _"])
  next
    case EP_CreateSale
    then have h: "h = createSale L w" using assms by (simp add: admin_route_def)
    show ?thesis unfolding h createSale_def
      by (rule body) (auto intro!: exI [of _ ?e] exI [of _ "Call_CreateSale _"])
  next
    case (EP_ActivateSale i)
    then show ?thesis using assms
      by (auto simp: admin_route_def activateSale_def intro!: exI [of _ ?e] exI [of _ "Call_SetSaleState i SaleActive"])
  next
    case (EP_EndSale i)
    then show ?thesis using assms
      by (auto simp: admin_route_def endSale_def intro!: exI [of _ ?e] exI [of _ "Call_SetSaleState i SaleEnded"])
  next
    case (EP_CreateReservation i)
    then have h: "h = createReservation L s w i" using assms by (simp add: admin_route_def)
    show ?thesis unfolding h createReservation_def
      by (rule body) (auto simp: Let_def split: prod.split intro!: exI [of _ ?e] exI [of _ "Call_Reserve i _"] dest: arg_cong [where f = snd])
  next
    case (EP_ConfirmReservation i)
    then show ?thesis using assms
      by (auto simp: admin_route_def confirmReservation_def intro!: exI [of _ ?e] exI [of _ "Call_Confirm i"])
  next
    case (EP_CancelReservation i)
    then show ?thesis using assms
      by (auto simp: admin_route_def cancelReservation_def intro!: exI [of _ ?e] exI [of _ "Call_Cancel i"])
  next
    case EP_SimulatePayment
    then have h: "h = simulatePayment L w" using assms by (simp add: admin_route_def)
    show ?thesis unfolding h simulatePayment_def
      by (rule body) (auto simp: Let_def split: prod.split intro!: exI [of _ ?e] exI [of _ "Call_Pay _"] dest: arg_cong [where f = snd])
  qed (use assms in \<open>auto simp: admin_route_def handler_defs\<close>)
  then show ?thesis by (rule traced_call)
qed

lemma runs_append: "runs st d cs d1 \<Longrightarrow> runs st d1 cs' d' \<Longrightarrow> runs st d (cs @ cs') d'"
  by (induction rule: runs.induct) (auto intro: runs.intros)

lemma load_attempts_runs:
  "\<exists>cs. runs (step s) d cs (snd (snd (load_attempts s sid rid sched rep lat d))) \<and> list_all demo_call cs"
proof (induction s sid rid sched rep lat d rule: load_attempts.induct)
  case (2 s sid rid i e elapsed rest rep lat d)
  obtain res d' where r: "Reserve s e d sid (demo_attempt rid i) = (res, d')" by (cases "Reserve s e d sid (demo_attempt rid i)")
  obtain cs where cs: "runs (step s) d' cs (snd (snd (load_attempts s sid rid rest (count_attempt res rep) (lat @ [elapsed]) d')))" "list_all demo_call cs"
    using 2 [OF r [symmetric]] by blast
  have "step s d (Call_Reserve sid (demo_attempt rid i)) d'"
    using step.intros [of s d "Call_Reserve sid (demo_attempt rid i)" e e] r by simp
  from runs_cons [OF this cs(1)] show ?case
    using cs(2) r by (intro exI [of _ "Call_Reserve sid (demo_attempt rid i) # cs"]) simp
qed (auto intro: runs_nil)

lemma traced_development:
  assumes "development_route L cfg s w ep = Some h"
  shows "traced s (\<lambda>r c. demo_call c \<and> demoAuthorized cfg r) h"
proof (cases "ep = EP_DemoReset")
  case True
  then have h: "h = demoReset L cfg w" using assms by (simp add: development_route_def)
  show ?thesis
  proof (rule traced_call)
    fix r srv
    have "Srv_db (fst (h r srv)) = Srv_db srv \<or> demoAuthorized cfg r \<and> (\<exists>n. Srv_db (fst (h r srv)) = perform s (Web_env w) (Web_env w) (Srv_db srv) (Call_Reset n))"
      by (auto simp: h demoReset_def with_body_def split: sum.split)
    then show "Srv_db (fst (h r srv)) = Srv_db srv
        \<or> (\<exists>e e' c. (demo_call c \<and> demoAuthorized cfg r) \<and> Srv_db (fst (h r srv)) = perform s e e' (Srv_db srv) c)"
      by (metis demo_call.simps(1))
  qed
next
  case False
  then have h: "h = demoLoadTest L cfg s w" using assms by (cases ep) (simp_all add: development_route_def)
  show ?thesis
    unfolding traced_def
  proof (intro allI)
    fix r and srv :: Server
    let ?reset = "ResetDemo (Web_env w) 0 (Srv_db srv) 100"
    have one: "runs (step s) (Srv_db srv) [Call_Reset 100] (snd ?reset)"
      using runs_single [of s "Srv_db srv" "Call_Reset 100" "Web_env w" "Web_env w"] by simp
    have "Srv_db (fst (h r srv)) = Srv_db srv \<or> demoAuthorized cfg r \<and> (Srv_db (fst (h r srv)) = snd ?reset
        \<or> (\<exists>sid rid sched rep lat. Srv_db (fst (h r srv)) = snd (snd (load_attempts s sid rid sched rep lat (snd ?reset)))))"
      by (auto simp: h demoLoadTest_def with_body_def split: sum.split prod.split if_splits) (metis snd_conv)+
    then show "\<exists>cs. runs (step s) (Srv_db srv) cs (Srv_db (fst (h r srv))) \<and> list_all (\<lambda>c. demo_call c \<and> demoAuthorized cfg r) cs"
    proof (elim disjE conjE exE)
      fix sid rid sched rep lat
      assume a: "demoAuthorized cfg r" "Srv_db (fst (h r srv)) = snd (snd (load_attempts s sid rid sched rep lat (snd ?reset)))"
      obtain cs where "runs (step s) (snd ?reset) cs (Srv_db (fst (h r srv)))" "list_all demo_call cs"
        using load_attempts_runs a(2) by metis
      then show ?thesis using runs_append [OF one] a(1) by (intro exI [of _ "[Call_Reset 100] @ cs"]) (auto simp: list_all_iff)
    next
      assume "demoAuthorized cfg r" "Srv_db (fst (h r srv)) = snd ?reset"
      then show ?thesis using one by (intro exI [of _ "[Call_Reset 100]"]) simp
    next
      assume "Srv_db (fst (h r srv)) = Srv_db srv"
      then show ?thesis by (intro exI [of _ "[]"]) (simp add: runs_nil)
    qed
  qed
qed

section \<open>The server\<close>

lemma traced_route: "traced s (\<lambda>r c. admin_call c \<and> (\<not> Production cfg \<or> admin_ok L cfg r) \<or> demo_call c \<and> \<not> Production cfg \<and> demoAuthorized cfg r
    \<or> public_call c \<and> PublicMutationsEnabled cfg) (route L cfg s w ep)"
proof -
  have id: "admin_ok L cfg (r\<lparr>Req_ID := i\<rparr>) = admin_ok L cfg r" "demoAuthorized cfg (r\<lparr>Req_ID := i\<rparr>) = demoAuthorized cfg r" for r i
    by (simp_all add: admin_ok_def demoAuthorized_def)
  show ?thesis
  proof (cases "public_route L cfg s w ep")
    case (Some h)
    have "traced s (\<lambda>r c. True \<and> public_call c \<and> PublicMutationsEnabled cfg) (rateLimit L cfg w h)"
      by (rule rate_limit.traced_mw [OF traced_public [OF Some]]) simp
    then show ?thesis using Some by (auto simp: route_def elim: traced_mono)
  next
    case np: None
    show ?thesis
    proof (cases "admin_route L s w ep")
      case (Some h)
      have "traced s (\<lambda>r c. (\<not> Production cfg \<or> admin_ok L cfg r) \<and> admin_call c) (adminOnly L cfg h)"
        by (rule admin_only.traced_mw [OF traced_admin [OF Some]]) simp
      then have "traced s (\<lambda>r c. True \<and> (\<not> Production cfg \<or> admin_ok L cfg r) \<and> admin_call c) (rateLimit L cfg w (adminOnly L cfg h))"
        by (rule rate_limit.traced_mw) (simp add: id)
      then show ?thesis using np Some by (auto simp: route_def elim: traced_mono)
    next
      case na: None
      show ?thesis
      proof (cases "development_route L cfg s w ep")
        case (Some h)
        have "traced s (\<lambda>r c. \<not> Production cfg \<and> demo_call c \<and> demoAuthorized cfg r) (developmentOnly cfg h)"
          by (rule development_only.traced_mw [OF traced_development [OF Some]]) (simp add: id)
        then have "traced s (\<lambda>r c. True \<and> \<not> Production cfg \<and> demo_call c \<and> demoAuthorized cfg r) (rateLimit L cfg w (developmentOnly cfg h))"
          by (rule rate_limit.traced_mw) (simp add: id)
        then show ?thesis using np na Some by (auto simp: route_def elim: traced_mono)
      next
        case None
        have "traced s (\<lambda>r c. False) (adminOnly L cfg metricsPage)"
          by (rule traced_same) (simp add: adminOnly_def metricsPage_def)
        then have "traced s (\<lambda>r c. False) (case ep of EP_Live \<Rightarrow> live | EP_Ready \<Rightarrow> ready w | EP_Version \<Rightarrow> version L | EP_Metrics \<Rightarrow> adminOnly L cfg metricsPage
            | _ \<Rightarrow> openapi)"
          by (cases ep) (simp_all add: traced_same handler_defs)
        then show ?thesis using np na None by (auto simp: route_def elim: traced_mono)
      qed
    qed
  qed
qed

lemma traced_dispatch: "traced s (\<lambda>r c. admin_call c \<and> (\<not> Production cfg \<or> admin_ok L cfg r) \<or> demo_call c \<and> \<not> Production cfg \<and> demoAuthorized cfg r
    \<or> public_call c \<and> PublicMutationsEnabled cfg) (dispatch L cfg s w)"
  unfolding traced_def
proof (intro allI)
  fix r and srv :: Server
  let ?A = "\<lambda>r c. admin_call c \<and> (\<not> Production cfg \<or> admin_ok L cfg r) \<or> demo_call c \<and> \<not> Production cfg \<and> demoAuthorized cfg r
    \<or> public_call c \<and> PublicMutationsEnabled cfg"
  show "\<exists>cs. runs (step s) (Srv_db srv) cs (Srv_db (fst (dispatch L cfg s w r srv))) \<and> list_all (?A r) cs"
  proof (cases "Req_Endpoint r")
    case (Inl x)
    then have "Srv_db (fst (dispatch L cfg s w r srv)) = Srv_db srv"
      by (cases x) (auto simp: dispatch_def unmatched_def rateLimit_def Let_def split: prod.split bool.split)
    then show ?thesis by (intro exI [of _ "[]"]) (simp add: runs_nil)
  next
    case (Inr ep)
    then show ?thesis using traced_route [of s cfg L w ep] by (simp add: dispatch_def traced_def)
  qed
qed

lemma traced_ServeHTTP: "traced s (permitted L cfg) (ServeHTTP L cfg s w)"
proof -
  let ?A = "\<lambda>r c. admin_call c \<and> (\<not> Production cfg \<or> admin_ok L cfg r) \<or> demo_call c \<and> \<not> Production cfg \<and> demoAuthorized cfg r
    \<or> public_call c \<and> PublicMutationsEnabled cfg"
  have id: "admin_ok L cfg (r\<lparr>Req_ID := i\<rparr>) = admin_ok L cfg r" "demoAuthorized cfg (r\<lparr>Req_ID := i\<rparr>) = demoAuthorized cfg r" for r i
    by (simp_all add: admin_ok_def demoAuthorized_def)
  have "traced s (\<lambda>r c. True \<and> ?A r c) (requestLog w endpoint_pattern (dispatch L cfg s w))"
    by (rule request_log.traced_mw [OF traced_dispatch]) (simp add: id)
  then have "traced s (\<lambda>r c. (Req_Header r ''Origin'' = [] \<or> Req_Header r ''Origin'' \<in> set (CORSAllowedOrigins cfg)) \<and> True \<and> ?A r c)
      (cors cfg (requestLog w endpoint_pattern (dispatch L cfg s w)))"
    by (rule cross_origin.traced_mw) (simp add: id)
  then have "traced s (\<lambda>r c. True \<and> (Req_Header r ''Origin'' = [] \<or> Req_Header r ''Origin'' \<in> set (CORSAllowedOrigins cfg)) \<and> True \<and> ?A r c)
      (securityHeaders (cors cfg (requestLog w endpoint_pattern (dispatch L cfg s w))))"
    by (rule security_headers.traced_mw) (simp add: id)
  then have "traced s (\<lambda>r c. True \<and> True \<and> (Req_Header r ''Origin'' = [] \<or> Req_Header r ''Origin'' \<in> set (CORSAllowedOrigins cfg)) \<and> True \<and> ?A r c)
      (ServeHTTP L cfg s w)"
    unfolding ServeHTTP_def by (rule request_id.traced_mw) (simp add: id)
  then show ?thesis by (auto simp: permitted_def elim!: traced_mono)
qed

lemma ServeHTTP_runs:
  obtains cs where "runs (step s) (Srv_db srv) cs (Srv_db (fst (ServeHTTP L cfg s w r srv)))" "list_all (permitted L cfg r) cs"
  using traced_ServeHTTP [of s L cfg w] unfolding traced_def by blast

section \<open>Histories of the service\<close>

datatype service_event = Http_Request web_env Request | Worker_Event worker_event

definition service_step :: "weblib \<Rightarrow> Config \<Rightarrow> Store \<Rightarrow> service_event \<Rightarrow> Server \<Rightarrow> Server" where
  "service_step L cfg s ev srv = (case ev of
     Http_Request w r \<Rightarrow> fst (ServeHTTP L cfg s w r srv)
   | Worker_Event wev \<Rightarrow> (case Run (WorkerBatchSize cfg) [wev] (Srv_db srv, Some (Srv_metrics srv)) of
       (d, m) \<Rightarrow> srv\<lparr>Srv_db := d, Srv_metrics := (case m of None \<Rightarrow> Srv_metrics srv | Some m' \<Rightarrow> m')\<rparr>))"

lemma reachable_runs_from: "runs (step s) d cs d' \<Longrightarrow> reachable s d \<Longrightarrow> reachable s d'"
  by (induction rule: runs.induct) (auto intro: reachable.intros step.intros)

lemma service_step_reachable: "reachable s (Srv_db srv) \<Longrightarrow> reachable s (Srv_db (service_step L cfg s ev srv))"
proof (cases ev)
  case (Http_Request w r)
  assume "reachable s (Srv_db srv)"
  then show ?thesis using Http_Request ServeHTTP_runs [of s srv L cfg w r] reachable_runs_from by (metis service_step_def service_event.simps(5))
next
  case (Worker_Event wev)
  assume "reachable s (Srv_db srv)"
  from Run_reachable [OF this, of "WorkerBatchSize cfg" "[wev]" "Some (Srv_metrics srv)"] show ?thesis
    by (auto simp: service_step_def Worker_Event split: prod.split)
qed

lemma service_reachable: "reachable s (Srv_db srv) \<Longrightarrow> reachable s (Srv_db (fold (service_step L cfg s) evs srv))"
  by (induction evs arbitrary: srv) (simp_all add: service_step_reachable)

end
