(* ===== verification/LoadTest.thy ===== *)
theory LoadTest
  imports DemoHttp FlashSale
begin

text \<open>
  The load test of the demo (\<open>demoLoadTest\<close> in \<open>src/internal/httpserver/demo.go\<close>), as a rush of buyers: the requests its attempts send are
  valid and pairwise different, so whatever the order in which they reach the database, exactly the stock is sold and the report says so.
  Also the percentiles of its report: always an element of the sample, in range, and monotone in the rank.
\<close>

section \<open>The attempts\<close>

text \<open>A text whose first and last bytes are printable ASCII is not changed by trimming.\<close>

definition solid :: "string \<Rightarrow> bool" where
  "solid s \<longleftrightarrow> s \<noteq> [] \<and> (of_char (hd s) :: nat) \<in> {33..126} \<and> (of_char (last s) :: nat) \<in> {33..126}"

lemma solid_trim:
  assumes "solid s"
  shows "TrimSpace s = s"
proof (rule TrimSpace_id)
  have runes: "\<forall>p \<in> set space_runes. p \<noteq> [] \<and> (of_char (hd p) :: nat) \<notin> {33..126} \<and> (of_char (last p) :: nat) \<notin> {33..126}"
    by (simp add: space_runes_def)
  show "strip_any space_runes s = None"
    unfolding strip_any_None using runes assms by (auto simp: solid_def)
  show "strip_any (map rev space_runes) (rev s) = None"
    unfolding strip_any_None
  proof (intro ballI allI notI)
    fix p t
    assume p: "p \<in> set (map rev space_runes)" and eq: "rev s = p @ t"
    from p obtain q where q: "q \<in> set space_runes" "p = rev q" by auto
    have "s = rev t @ q" using arg_cong [OF eq, of rev] q(2) by simp
    then show False using runes q(1) assms by (auto simp: solid_def)
  qed
qed

lemma solid_append: "solid s \<Longrightarrow> solid t \<Longrightarrow> solid (s @ u @ t)"
  by (cases s) (simp_all add: solid_def)

lemma solid_fmt_nat: "solid (fmt_nat n)"
proof -
  have "\<forall>c \<in> set (fmt_nat n). (of_char c :: nat) \<in> {33..126}"
    using is_digit_fmt_nat [of n] by (auto simp: list_all_iff is_digit_def)
  then show ?thesis using fmt_nat_nonempty [of n] by (simp add: solid_def)
qed

lemma pad4_inj: "pad4 i = pad4 j \<longleftrightarrow> i = j"
proof
  have val: "digits_val 0 (pad4 i) = i" for i
  proof -
    have "digits_val 0 (replicate k (CHR ''0'') @ s) = digits_val 0 s" for k s by (induction k) simp_all
    then show ?thesis by (simp add: pad4_def digits_val_fmt_nat)
  qed
  show "i = j" if "pad4 i = pad4 j" by (metis val that)
qed simp

lemma fmt_nat_length: "n < 10 ^ k \<Longrightarrow> 0 < k \<Longrightarrow> length (fmt_nat n) \<le> k"
proof (induction k arbitrary: n)
  case (Suc k)
  show ?case
  proof (cases "n < 10")
    case False
    then have "0 < k" using Suc.prems by (cases k) simp_all
    moreover have "n div 10 < 10 ^ k" using Suc.prems by (simp add: less_mult_imp_div_less mult.commute)
    ultimately show ?thesis using Suc.IH [of "n div 10"] False by (simp add: fmt_nat.simps [of n])
  qed (simp add: fmt_nat.simps)
qed simp

lemma length_pad4: "i < 10000 \<Longrightarrow> length (pad4 i) = 4"
  using fmt_nat_length [of i 4] by (simp add: pad4_def)

lemma solid_pad4: "solid (p @ q @ pad4 i)" if "solid p"
proof -
  have "solid (p @ (q @ replicate (4 - length (fmt_nat i)) (CHR ''0'')) @ fmt_nat i)"
    by (rule solid_append [OF that solid_fmt_nat])
  then show ?thesis by (simp add: pad4_def)
qed

lemma demo_attempt_args:
  "user_arg (demo_attempt rid i) = ''demo-buyer-'' @ pad4 i" "reserve_key (demo_attempt rid i) = ''demo-'' @ rid @ ''-'' @ pad4 i"
  "Request_Quantity (demo_attempt rid i) = 1"
proof -
  have "solid ''demo-buyer-''" "solid ''demo-''" by (simp_all add: solid_def)
  from solid_trim [OF solid_pad4 [OF this(1), of "[]" i]] solid_trim [OF solid_pad4 [OF this(2), of "rid @ ''-''" i]]
  show "user_arg (demo_attempt rid i) = ''demo-buyer-'' @ pad4 i" "reserve_key (demo_attempt rid i) = ''demo-'' @ rid @ ''-'' @ pad4 i"
    by (simp_all add: demo_attempt_def)
qed (simp add: demo_attempt_def)

text \<open>
  A schedule of \<open>n\<close> attempts: every attempt once, in some order; no fault; the Go clock within the sale's window; identifiers
  drawn only once.
\<close>

definition schedule_ok :: "nat \<Rightarrow> int \<Rightarrow> int \<Rightarrow> (nat \<times> env \<times> int) list \<Rightarrow> bool" where
  "schedule_ok n lo hi sched \<longleftrightarrow> distinct (map fst sched) \<and> set (map fst sched) = {..<n}
     \<and> (\<forall>(i, e, t) \<in> set sched. env_ok e \<and> lo \<le> go_now e \<and> go_now e < hi)
     \<and> (\<forall>k \<in> {0, 1, 2}. distinct (map (\<lambda>(i, e, t). the_id e k) sched))"

abbreviation attempt_buyers :: "(nat \<Rightarrow> ReservationRequest) \<Rightarrow> (nat \<times> env \<times> int) list \<Rightarrow> (env \<times> ReservationRequest) list" where
  "attempt_buyers mk sched \<equiv> map (\<lambda>(i, e, t). (e, mk i)) sched"

text \<open>Requests for one unit each, valid, from different people and with different keys.\<close>

definition one_each :: "(nat \<Rightarrow> ReservationRequest) \<Rightarrow> bool" where
  "one_each mk \<longleftrightarrow> (\<forall>i < 10000. Request_Quantity (mk i) = 1 \<and> user_arg (mk i) \<noteq> [] \<and> length (user_arg (mk i)) \<le> 128
       \<and> reserve_key (mk i) \<noteq> [] \<and> length (reserve_key (mk i)) \<le> 200 \<and> 1 \<le> char_length (user_arg (mk i)))
     \<and> inj (\<lambda>i. user_arg (mk i)) \<and> inj (\<lambda>i. reserve_key (mk i))"

lemma demo_attempt_one_each:
  assumes "length rid \<le> 128"
  shows "one_each (demo_attempt rid)"
proof -
  have "inj (\<lambda>i. p @ pad4 i)" for p by (simp add: inj_def pad4_inj)
  from this [of "''demo-buyer-''"] this [of "''demo-'' @ rid @ ''-''"] show ?thesis
    using assms by (simp add: one_each_def demo_attempt_args length_pad4 char_length_def)
qed

lemma schedule_length: "schedule_ok n lo hi sched \<Longrightarrow> length sched = n"
  using distinct_card [of "map fst sched"] by (simp add: schedule_ok_def)

lemma attempts_ok:
  assumes sched: "schedule_ok n lo hi sched" and n: "n \<le> 10000" and mk: "one_each mk" and sid: "sid \<noteq> []"
    and new: "reservations d = []" "orders d = []" "domain_events d = []" "idempotency_keys d = []"
  shows "buyers_ok d sid lo hi (attempt_buyers mk sched)"
proof -
  have "buyer_ok d sid lo hi (e, mk i)" if "(i, e, t) \<in> set sched" for i e t
  proof -
    have "i \<in> set (map fst sched)" using that by force
    then have i: "i < 10000" using sched n by (simp add: schedule_ok_def)
    have "env_ok e" "lo \<le> go_now e" "go_now e < hi" using sched that by (auto simp: schedule_ok_def)
    then show ?thesis using mk i sid new by (simp add: buyer_ok_def one_each_def request_invalid_def user_units_def not_less)
  qed
  moreover have dist: "distinct (map (\<lambda>x. g (fst x)) sched)" if "inj g" for g :: "nat \<Rightarrow> string"
  proof -
    have "distinct (map g (map fst sched))"
      unfolding distinct_map [of g] using sched that by (auto simp: schedule_ok_def intro: inj_on_subset)
    then show ?thesis by (simp add: comp_def)
  qed
  moreover have "distinct (map (\<lambda>x. user_arg (mk (fst x))) sched)" "distinct (map (\<lambda>x. reserve_key (mk (fst x))) sched)"
    using mk by (auto simp: one_each_def intro: dist)
  moreover have "distinct (map (\<lambda>(i, e, t). the_id e k) sched)" if "k \<in> {0, 1, 2}" for k
    using sched that unfolding schedule_ok_def by blast
  ultimately show ?thesis
    unfolding buyers_ok_def list_all_iff map_map comp_def case_prod_unfold by (auto simp: case_prod_unfold)
qed

section \<open>The report\<close>

lemma load_attempts_rush:
  "load_attempts s sid rid sched rep lat d = (fold count_attempt (fst (rush s d sid (attempt_buyers (demo_attempt rid) sched))) rep,
     lat @ map (\<lambda>(i, e, t). t) sched, snd (rush s d sid (attempt_buyers (demo_attempt rid) sched)))"
  by (induction s sid rid sched rep lat d rule: load_attempts.induct) (simp_all add: Let_def case_prod_unfold)

lemma count_served:
  "\<forall>x \<in> set xs. \<not> Result_Duplicate x \<Longrightarrow> fold count_attempt (map Inr xs) rep = rep\<lparr>Load_Successful := Load_Successful rep + int (length xs)\<rparr>"
  by (induction xs arbitrary: rep) (simp_all add: count_attempt_def)

lemma count_sold_out:
  "fold count_attempt (replicate k (Inl (DomainError allocation_sold_out))) rep = rep\<lparr>Load_SoldOut := Load_SoldOut rep + int k\<rparr>"
  by (induction k arbitrary: rep) (simp_all add: count_attempt_def IsCode_def)

lemma the_id_nonempty: "env_ok e \<Longrightarrow> the_id e n \<noteq> []"
  by (auto simp: env_ok_def the_id_def NewID_def format_id_def split: option.splits)

lemma demo_data_empty [simp]:
  "reservations (demo_data e n) = []" "orders (demo_data e n) = []" "domain_events (demo_data e n) = []" "idempotency_keys (demo_data e n) = []"
  by (simp_all add: demo_data_def empty_db_def)

lemma reset_data_good: "env_ok e \<Longrightarrow> 1 \<le> n \<Longrightarrow> n \<le> 100000 \<Longrightarrow> good (demo_data e n)"
  using ResetDemo_good [OF good_empty, of e 0 n] ResetDemo_ok [of e n 0 empty_db] by simp

text \<open>A rush of such requests after a reset to \<open>N\<close> units.\<close>

lemma attempts_rush:
  assumes e: "env_ok e" and N: "1 \<le> N" "N \<le> 100000"
    and sched: "schedule_ok n (go_now e) (go_now e + 365 * 24 * 3600 * 1000000) sched" and n: "n \<le> 10000" and mk: "one_each mk"
  obtains xs where "int (length xs) = min N (int n)" "\<forall>x \<in> set xs. \<not> Result_Duplicate x"
    "fst (rush s (demo_data e N) (the_id e 1) (attempt_buyers mk sched)) =
      map Inr xs @ replicate (nat (int n - min N (int n))) (Inl (DomainError allocation_sold_out))"
    "good (snd (rush s (demo_data e N) (the_id e 1) (attempt_buyers mk sched)))"
    "demo_like N (snd (rush s (demo_data e N) (the_id e 1) (attempt_buyers mk sched)))"
proof -
  let ?d = "demo_data e N" and ?bs = "attempt_buyers mk sched"
  have g: "good ?d" by (rule reset_data_good [OF e N])
  have sale: "on_sale ?d (the_id e 1) (go_now e) (go_now e + 365 * 24 * 3600 * 1000000) (nat N)"
    using demo_data_on_sale [of N e] N by simp
  have bs: "buyers_ok ?d (the_id e 1) (go_now e) (go_now e + 365 * 24 * 3600 * 1000000) ?bs"
    by (rule attempts_ok [OF sched n mk the_id_nonempty [OF e]]) simp_all
  obtain xs where xs: "length xs = min (nat N) (length ?bs)" "\<forall>x \<in> set xs. \<not> Result_Duplicate x"
      "fst (rush s ?d (the_id e 1) ?bs) = map Inr xs @ replicate (length ?bs - nat N) (Inl (DomainError allocation_sold_out))"
    using rush_result [OF g sale bs, of s] by blast
  have "int (length xs) = min N (int n)" "length ?bs - nat N = nat (int n - min N (int n))"
    using xs(1) schedule_length [OF sched] N by auto
  then show thesis
    using that xs(2,3) rush_demo_like [OF g sale bs demo_data_like, of s] by metis
qed

lemma attempts_result:
  assumes "env_ok e" "1 \<le> N" "N \<le> 100000"
    and "schedule_ok n (go_now e) (go_now e + 365 * 24 * 3600 * 1000000) sched" "n \<le> 10000" "length rid \<le> 128"
  shows "\<exists>d'. load_attempts s (the_id e 1) rid sched rep lat (demo_data e N) =
      (rep\<lparr>Load_Successful := Load_Successful rep + min N (int n), Load_SoldOut := Load_SoldOut rep + (int n - min N (int n))\<rparr>,
       lat @ map (\<lambda>(i, e, t). t) sched, d') \<and> good d' \<and> demo_like N d'"
proof -
  obtain xs where xs: "int (length xs) = min N (int n)" "\<forall>x \<in> set xs. \<not> Result_Duplicate x"
    "fst (rush s (demo_data e N) (the_id e 1) (attempt_buyers (demo_attempt rid) sched)) =
      map Inr xs @ replicate (nat (int n - min N (int n))) (Inl (DomainError allocation_sold_out))"
    "good (snd (rush s (demo_data e N) (the_id e 1) (attempt_buyers (demo_attempt rid) sched)))"
    "demo_like N (snd (rush s (demo_data e N) (the_id e 1) (attempt_buyers (demo_attempt rid) sched)))"
    by (rule attempts_rush [OF assms(1-5) demo_attempt_one_each [OF assms(6)], of s])
  then show ?thesis
    unfolding load_attempts_rush xs(3) fold_append o_apply count_served [OF xs(2)] count_sold_out by simp
qed

text \<open>The handler, given the body and the credentials.\<close>

lemma demoLoadTest_report:
  assumes "demoAuthorized cfg r" "decodeJSON L r (Body_Attempts (Req_Body r)) = Inr (int n)" "n \<in> {10, 100, 500, 1000}"
    and "env_ok (Web_env w)" "all_ok (Web_env3 w)" "length (Req_ID r) \<le> 128"
    and "schedule_ok n (go_now (Web_env w)) (go_now (Web_env w) + 365 * 24 * 3600 * 1000000) (Web_schedule w)"
  shows "\<exists>rep. snd (demoLoadTest L cfg s w r srv) = success r 200 (D_LoadReport rep)
    \<and> Load_Successful rep = min 100 (int n) \<and> Load_SoldOut rep = int n - min 100 (int n) \<and> Load_Duplicate rep = 0
    \<and> Load_RateLimited rep = 0 \<and> Load_Failed rep = 0 \<and> Load_ZeroOverselling rep"
proof -
  let ?e = "Web_env w"
  obtain st where st: "DemoStatus ?e 6 (demo_data ?e 100) = Inr st" "Sale_ID (Status_Sale st) = the_id ?e 1"
    using assms(4) by (auto simp: DemoStatus_def demo_data_def empty_db_def sql_products_def demo_inventory_def demo_product_def
      demo_sale_def product_of_def sale_of_row_def env_ok_def)
  have reset: "ResetDemo ?e 0 (Srv_db srv) 100 = (Inr st, demo_data ?e 100)"
    using ResetDemo_ok [OF assms(4), of 100 0 "Srv_db srv"] st(1) by simp
  have n: "n \<le> 10000" using assms(3) by auto
  obtain d' where d': "load_attempts s (the_id ?e 1) (Req_ID r) (Web_schedule w) (new_report (int n) st) [] (demo_data ?e 100) =
      ((new_report (int n) st)\<lparr>Load_Successful := Load_Successful (new_report (int n) st) + min 100 (int n),
         Load_SoldOut := Load_SoldOut (new_report (int n) st) + (int n - min 100 (int n))\<rparr>,
       [] @ map (\<lambda>(i, e, t). t) (Web_schedule w), d')" "good d'" "demo_like 100 d'"
    using attempts_result [OF assms(4) _ _ assms(7) n assms(6), of 100 s "new_report (int n) st" "[]"] by auto
  obtain final where "DemoStatus (Web_env3 w) 0 d' = Inr final" "Status_InvariantPass final" "0 \<le> Product_Available (Status_Product final)"
    using demo_like_status [OF d'(2,3) assms(5), of 0] by blast
  then show ?thesis
    using assms(1-3) reset st(2) d'(1)
    by (auto simp: demoLoadTest_def with_body_def finish_report_def new_report_def Let_def)
qed

section \<open>Percentiles\<close>

lemma percentile_index:
  assumes "vs \<noteq> []" "0 \<le> p" "p \<le> 1"
  shows "nat \<lfloor>of_nat (length vs - 1) * (p :: rat)\<rfloor> < length vs"
proof -
  have "of_nat (length vs - 1) * p \<le> of_nat (length vs - 1) * 1"
    by (rule mult_left_mono) (use assms in simp_all)
  then have "\<lfloor>of_nat (length vs - 1) * p\<rfloor> \<le> int (length vs - 1)"
    by (metis floor_mono floor_of_nat mult.right_neutral)
  then show ?thesis using assms(1) by (cases vs) auto
qed

lemma Microseconds_mono: "a \<le> b \<Longrightarrow> Microseconds a \<le> Microseconds b"
proof -
  assume ab: "a \<le> b"
  have "0 \<le> - x div 1000" if "x < 0" for x :: int using that by (simp add: pos_imp_zdiv_nonneg_iff)
  moreover have "- b div 1000 \<le> - a div 1000" using ab by (intro zdiv_mono1) simp_all
  moreover have "a div 1000 \<le> b div 1000" using ab by (intro zdiv_mono1) simp_all
  moreover have "0 \<le> b div 1000" if "0 \<le> b" using that by (simp add: pos_imp_zdiv_nonneg_iff)
  ultimately show ?thesis using ab by (smt (verit) Microseconds_def)
qed

lemma percentile_mono:
  assumes "p \<le> q" "0 \<le> p" "q \<le> 1"
  shows "percentileMillis (sort vs) p \<le> percentileMillis (sort vs) q"
proof (cases "vs = []")
  case False
  define i where "i p = nat \<lfloor>of_nat (length vs - 1) * p\<rfloor>" for p :: rat
  have "of_nat (length vs - 1) * p \<le> of_nat (length vs - 1) * q"
    by (rule mult_left_mono) (use assms in simp_all)
  then have "i p \<le> i q" unfolding i_def by (intro nat_mono floor_mono)
  moreover have "i q < length vs" unfolding i_def by (rule percentile_index) (use assms False in simp_all)
  ultimately have "sort vs ! i p \<le> sort vs ! i q" by (intro sorted_nth_mono) simp_all
  then have "of_int (Microseconds (sort vs ! i p)) / (1000 :: rat) \<le> of_int (Microseconds (sort vs ! i q)) / 1000"
    by (intro divide_right_mono) (simp_all add: Microseconds_mono)
  moreover have "percentileMillis (sort vs) x = of_int (Microseconds (sort vs ! i x)) / 1000" for x
    using False unfolding percentileMillis_def i_def by (metis length_0_conv length_sort)
  ultimately show ?thesis by (simp only:)
qed (simp add: percentileMillis_def)

end
