(* ===== verification/Loadgen.thy ===== *)
theory Loadgen
  imports LoadTest MoveEffect
begin

text \<open>
  The load generator (\<open>src/cmd/loadgen/main.go\<close>): its \<open>run\<close> proves idempotency with a hundred copies of one request, expiration with one
  batch, and zero overselling with a rush of buyers, and reports what it saw.

  As in the load test of the API, concurrent attempts are transactions in the order in which they take effect. \<open>run_env\<close> holds the environment of every
  store call, the schedule of the rush, the start time that goes into its keys, and the time and the Go version of the report.

  The main lemma shows that an undisturbed run always reports success, on any database it finds.
\<close>

record report =
  Report_Timestamp :: int
  Report_GoVersion :: string
  Report_InitialInventory :: int
  Report_Attempts :: int
  Report_Successful :: int
  Report_SoldOut :: int
  Report_Duplicate :: int
  Report_RateLimited :: int
  Report_Failed :: int
  Report_P50Millis :: rat
  Report_P95Millis :: rat
  Report_P99Millis :: rat
  Report_IdempotentResults :: int
  Report_ExpiredReservations :: int
  Report_RestoredInventory :: int
  Report_Final :: DemoStatusReport
  Report_NegativeStockEvents :: int
  Report_DatabaseInvariantOK :: bool
  Report_ZeroOverselling :: bool

record run_env =
  Run_reset :: env
  Run_proofs :: "env list"
  Run_get :: env
  Run_expire :: env
  Run_reset2 :: env
  Run_schedule :: "(nat \<times> env \<times> int) list"
  Run_status :: env
  Run_stamp :: int
  Run_now :: int
  Run_version :: string

section \<open>The run\<close>

definition proof_request :: ReservationRequest where
  "proof_request = \<lparr>Request_UserID = ''idempotency-proof'', Request_Quantity = 1, Request_IdempotencyKey = ''idempotency-proof''\<rparr>"

fun proof_attempts :: "Store \<Rightarrow> string \<Rightarrow> env list \<Rightarrow> db \<Rightarrow> string list \<times> db" where
  "proof_attempts s saleID [] d = ([], d)"
| "proof_attempts s saleID (e # es) d = (case Reserve s e d saleID proof_request of (res, d1) \<Rightarrow>
     (case proof_attempts s saleID es d1 of (ids, d2) \<Rightarrow>
       (case res of Inr result \<Rightarrow> Reservation_ID (Result_Reservation result) # ids | Inl err \<Rightarrow> ids, d2)))"

fun count_first :: "string \<Rightarrow> int \<Rightarrow> string list \<Rightarrow> string \<times> int" where
  "count_first first n [] = (first, n)"
| "count_first first n (i # ids) = (let first' = (if first = [] then i else first) in
     count_first first' (if i = first' then n + 1 else n) ids)"

definition buyer_request :: "int \<Rightarrow> nat \<Rightarrow> ReservationRequest" where
  "buyer_request stamp i = \<lparr>Request_UserID = ''buyer-'' @ pad4 i, Request_Quantity = 1,
     Request_IdempotencyKey = ''demo-'' @ fmt_d stamp @ ''-'' @ pad4 i\<rparr>"

definition count_result :: "go_error + ReservationResult \<Rightarrow> report \<Rightarrow> report" where
  "count_result res r = (case res of
     Inr result \<Rightarrow> if Result_Duplicate result then r\<lparr>Report_Duplicate := Report_Duplicate r + 1\<rparr>
                  else r\<lparr>Report_Successful := Report_Successful r + 1\<rparr>
   | Inl err \<Rightarrow> if IsCode (Some err) ''INVENTORY_SOLD_OUT'' then r\<lparr>Report_SoldOut := Report_SoldOut r + 1\<rparr>
               else if IsCode (Some err) ''RATE_LIMITED'' then r\<lparr>Report_RateLimited := Report_RateLimited r + 1\<rparr>
               else r\<lparr>Report_Failed := Report_Failed r + 1\<rparr>)"

fun run_attempts :: "Store \<Rightarrow> string \<Rightarrow> int \<Rightarrow> (nat \<times> env \<times> int) list \<Rightarrow> report \<Rightarrow> int list \<Rightarrow> db \<Rightarrow> report \<times> int list \<times> db" where
  "run_attempts s saleID stamp [] r latencies d = (r, latencies, d)"
| "run_attempts s saleID stamp ((i, e, elapsed) # rest) r latencies d =
    (case Reserve s e d saleID (buyer_request stamp i) of (res, d') \<Rightarrow>
     run_attempts s saleID stamp rest (count_result res r) (latencies @ [elapsed]) d')"

definition percentile :: "int list \<Rightarrow> rat \<Rightarrow> rat" where
  "percentile vs p = (if vs = [] then 0
     else of_int (Microseconds (vs ! nat \<lfloor>of_nat (length vs - 1) * p\<rfloor>)) / 1000)"

definition finish_run :: "report \<Rightarrow> int list \<Rightarrow> DemoStatusReport \<Rightarrow> report" where
  "finish_run r latencies final = (let sorted' = sort latencies in
     r\<lparr>Report_P50Millis := percentile sorted' (50 / 100), Report_P95Millis := percentile sorted' (95 / 100),
       Report_P99Millis := percentile sorted' (99 / 100), Report_Final := final,
       Report_DatabaseInvariantOK := Status_InvariantPass final,
       Report_ZeroOverselling := Status_InvariantPass final \<and> Report_Successful r \<le> Report_InitialInventory r
         \<and> 0 \<le> Product_Available (Status_Product final) \<and> Status_DuplicateOrders final = 0
         \<and> Report_IdempotentResults r = 100 \<and> Report_RestoredInventory r = 1\<rparr>)"

definition run :: "Store \<Rightarrow> run_env \<Rightarrow> db \<Rightarrow> int \<Rightarrow> (go_error + report) \<times> db" where
  "run s w d attempts =
    (case ResetDemo (Run_reset w) 0 d 1 of
       (Inl err, d1) \<Rightarrow> (Inl err, d1)
     | (Inr prf, d1) \<Rightarrow>
    (case proof_attempts s (Sale_ID (Status_Sale prf)) (Run_proofs w) d1 of (ids, d2) \<Rightarrow>
    (case count_first [] 0 ids of (first, same) \<Rightarrow>
    (case GetReservation (Run_get w) 0 d2 first of
       Inl err \<Rightarrow> (Inl err, d2)
     | Inr reservation \<Rightarrow>
    (case ExpireBatch (Run_expire w) d2 50 (Reservation_ExpiresAt reservation + 1000000) of
       (Inl err, d3) \<Rightarrow> (Inl err, d3)
     | (Inr expired, d3) \<Rightarrow>
    (case ResetDemo (Run_reset2 w) 0 d3 100 of
       (Inl err, d4) \<Rightarrow> (Inl err, d4)
     | (Inr initial, d4) \<Rightarrow>
      let r = \<lparr>Report_Timestamp = Run_now w, Report_GoVersion = Run_version w, Report_InitialInventory = 100, Report_Attempts = attempts, Report_Successful = 0, Report_SoldOut = 0, Report_Duplicate = 0,
          Report_RateLimited = 0, Report_Failed = 0, Report_P50Millis = 0, Report_P95Millis = 0, Report_P99Millis = 0,
          Report_IdempotentResults = same, Report_ExpiredReservations = Expiration_Expired expired,
          Report_RestoredInventory = Expiration_Restored expired, Report_Final = initial, Report_NegativeStockEvents = 0,
          Report_DatabaseInvariantOK = False, Report_ZeroOverselling = False\<rparr> in
    (case run_attempts s (Sale_ID (Status_Sale initial)) (Run_stamp w) (Run_schedule w) r [] d4 of (r', latencies, d5) \<Rightarrow>
    (case DemoStatus (Run_status w) 0 d5 of
       Inl err \<Rightarrow> (Inl err, d5)
     | Inr final \<Rightarrow> (Inr (finish_run r' latencies final), d5)))))))))"

section \<open>The rush of the run\<close>

lemma run_attempts_rush:
  "run_attempts s sid stamp sched r lat d = (fold count_result (fst (rush s d sid (attempt_buyers (buyer_request stamp) sched))) r,
     lat @ map (\<lambda>(i, e, t). t) sched, snd (rush s d sid (attempt_buyers (buyer_request stamp) sched)))"
  by (induction s sid stamp sched r lat d rule: run_attempts.induct) (simp_all add: Let_def case_prod_unfold)

lemma result_served:
  "\<forall>x \<in> set xs. \<not> Result_Duplicate x \<Longrightarrow> fold count_result (map Inr xs) r = r\<lparr>Report_Successful := Report_Successful r + int (length xs)\<rparr>"
  by (induction xs arbitrary: r) (simp_all add: count_result_def)

lemma result_sold_out:
  "fold count_result (replicate k (Inl (DomainError allocation_sold_out))) r = r\<lparr>Report_SoldOut := Report_SoldOut r + int k\<rparr>"
  by (induction k arbitrary: r) (simp_all add: count_result_def IsCode_def)

lemma buyer_request_args:
  "user_arg (buyer_request stamp i) = ''buyer-'' @ pad4 i" "reserve_key (buyer_request stamp i) = ''demo-'' @ fmt_d stamp @ ''-'' @ pad4 i"
  "Request_Quantity (buyer_request stamp i) = 1"
proof -
  have "solid ''buyer-''" "solid ''demo-''" by (simp_all add: solid_def)
  from solid_trim [OF solid_pad4 [OF this(1), of "[]" i]] solid_trim [OF solid_pad4 [OF this(2), of "fmt_d stamp @ ''-''" i]]
  show "user_arg (buyer_request stamp i) = ''buyer-'' @ pad4 i" "reserve_key (buyer_request stamp i) = ''demo-'' @ fmt_d stamp @ ''-'' @ pad4 i"
    by (simp_all add: buyer_request_def)
qed (simp add: buyer_request_def)

lemma fmt_d_length:
  assumes "int8 v"
  shows "length (fmt_d v) \<le> 20"
proof -
  have "nat v < 10 ^ 19" "nat (- v) < 10 ^ 19" using assms by (simp_all add: int8_def, arith+)
  then show ?thesis using fmt_nat_length [of "nat v" 19] fmt_nat_length [of "nat (- v)" 19] by (simp add: fmt_d_def)
qed

lemma buyer_request_one_each:
  assumes "int8 stamp"
  shows "one_each (buyer_request stamp)"
proof -
  have "inj (\<lambda>i. p @ pad4 i)" for p by (simp add: inj_def pad4_inj)
  from this [of "''buyer-''"] this [of "''demo-'' @ fmt_d stamp @ ''-''"] show ?thesis
    using fmt_d_length [OF assms] by (simp add: one_each_def buyer_request_args length_pad4 char_length_def)
qed

section \<open>The proof of idempotency\<close>

lemma proof_request_args:
  "user_arg proof_request = ''idempotency-proof''" "reserve_key proof_request = ''idempotency-proof''" "Request_Quantity proof_request = 1"
  by (simp_all add: proof_request_def solid_trim solid_def)

lemma proof_retries:
  assumes "good d" "Reserve s e d sid proof_request = (Inr x, d1)" "\<forall>e' \<in> set es. env_ok e' \<and> sha256 e' = sha256 e"
  shows "proof_attempts s sid es d1 = (replicate (length es) (Reservation_ID (Result_Reservation x)), d1)"
  using assms(3)
proof (induction es)
  case (Cons e' es)
  have "Reserve s e' d1 sid proof_request = (Inr (x\<lparr>Result_Duplicate := True\<rparr>), d1)"
    by (rule reserve_retry [OF assms(1,2) runs_nil]) (use Cons.prems in simp_all)
  with Cons show ?case by simp
qed simp

lemma count_first_same: "count_first i n (replicate k i) = (i, n + int k)"
  by (induction k arbitrary: n) simp_all

lemma proof_served:
  assumes e: "env_ok e" and p: "env_ok p" "go_now e \<le> go_now p" "go_now p < go_now e + 365 * 24 * 3600 * 1000000"
    and es: "\<forall>e' \<in> set es. env_ok e' \<and> sha256 e' = sha256 p"
  obtains x d2 where "proof_attempts s (the_id e 1) (p # es) (demo_data e 1) = (replicate (Suc (length es)) (the_id p 0), d2)"
    "good d2" "reservations d2 = [reserved_row s p (the_id e 1) ''idempotency-proof'' 1 (demo_product e (the_id e 0)) (the_id p 0)]"
    "orders d2 = [reserved_order p (the_id e 1) ''idempotency-proof'' 1 (demo_product e (the_id e 0)) (the_id p 0) (the_id p 1)]"
    "map domain_events_id (domain_events d2) = [the_id p 2]"
proof -
  let ?d = "demo_data e 1"
  have g: "good ?d" by (rule reset_data_good [OF e]) simp_all
  have sale: "on_sale ?d (the_id e 1) (go_now e) (go_now e + 365 * 24 * 3600 * 1000000) (Suc 0)"
    using demo_data_on_sale [of 1 e] by simp
  have buyer: "buyers_ok ?d (the_id e 1) (go_now e) (go_now e + 365 * 24 * 3600 * 1000000) [(p, proof_request)]"
    using p the_id_nonempty [OF e]
    by (simp add: buyers_ok_def buyer_ok_def proof_request_args request_invalid_def char_length_def user_units_def)
  from g sale buyer show thesis
  proof (cases rule: rush_step [where s = s])
    case (served m sl q)
    have q: "q = demo_product e (the_id e 0)"
      using served(2) by (simp add: sql_sale_product_def demo_data_def demo_sale_def demo_product_def empty_db_def)
    note r = served(3) [unfolded proof_request_args]
    have "good (booked s p ?d (the_id e 1) ''idempotency-proof'' 1 ''idempotency-proof'' q (the_id p 0) (the_id p 1) (the_id p 2))"
      using Reserve_good [OF g, of s p "the_id e 1" proof_request] r by simp
    then show thesis
      using r proof_retries [OF g r es]
      by (intro that [of "booked s p ?d (the_id e 1) ''idempotency-proof'' 1 ''idempotency-proof'' q (the_id p 0) (the_id p 1) (the_id p 2)"])
        (simp_all add: q reservation_of_row_def new_reservation_def)
  qed simp
qed

section \<open>An undisturbed run\<close>

text \<open>
  No fault anywhere, clocks within the sale's window, identifiers drawn only once, the reservation of the first phase not locked by anyone.
\<close>

definition run_ok :: "run_env \<Rightarrow> nat \<Rightarrow> bool" where
  "run_ok w n \<longleftrightarrow> env_ok (Run_reset w) \<and> env_ok (Run_reset2 w) \<and> all_ok (Run_get w) \<and> env_ok (Run_expire w) \<and> all_ok (Run_status w)
     \<and> length (Run_proofs w) = 100 \<and> (\<forall>e \<in> set (Run_proofs w). env_ok e \<and> sha256 e = sha256 (hd (Run_proofs w)))
     \<and> go_now (Run_reset w) \<le> go_now (hd (Run_proofs w)) \<and> go_now (hd (Run_proofs w)) < go_now (Run_reset w) + 365 * 24 * 3600 * 1000000
     \<and> \<not> locked (Run_expire w) (the_id (hd (Run_proofs w)) 0) \<and> the_id (Run_expire w) 0 \<noteq> the_id (hd (Run_proofs w)) 2
     \<and> int8 (Run_stamp w) \<and> 1 \<le> n \<and> n \<le> 1000
     \<and> schedule_ok n (go_now (Run_reset2 w)) (go_now (Run_reset2 w) + 365 * 24 * 3600 * 1000000) (Run_schedule w)"

lemma reset_status:
  assumes "env_ok e" "1 \<le> N" "N \<le> 100000"
  obtains st where "ResetDemo e 0 d N = (Inr st, demo_data e N)" "Sale_ID (Status_Sale st) = the_id e 1"
proof -
  obtain st where "DemoStatus e 6 (demo_data e N) = Inr st" "Sale_ID (Status_Sale st) = the_id e 1"
    using assms(1) by (auto simp: DemoStatus_def demo_data_def empty_db_def sql_products_def demo_inventory_def demo_product_def
      demo_sale_def product_of_def sale_of_row_def env_ok_def)
  then show thesis using that ResetDemo_ok [OF assms, of 0 d] by simp
qed

lemma expire_one:
  assumes "good d" "env_ok e" "reservations d = [r]" "reservations_state r = ReservationPending" "\<not> locked e (reservations_id r)"
    and "reservations_expires_at r \<le> t" "the_id e 0 \<notin> set (map domain_events_id (domain_events d))"
  obtains d' where "ExpireBatch e d 50 t = (Inr \<lparr>Expiration_Processed = 1, Expiration_Expired = 1, Expiration_Restored = 1\<rparr>, d')" "good d'"
proof -
  have cs: "[r] = expire_candidates e d (nat 50) t" using assms(3-6) by (simp add: expire_candidates_def)
  have ids: "batch_ids e d 0 (length [r])" using assms(7) by (simp add: batch_ids_def)
  obtain d' where d': "ExpireBatch e d 50 t = (Inr \<lparr>Expiration_Processed = int (length [r]), Expiration_Expired = int (length [r]),
      Expiration_Restored = int (length [r])\<rparr>, d')" "reservations d' = expired_rows t [r] (reservations d)" "totals d' = totals d"
    by (rule Expire_ok [OF assms(1,2) _ _ cs ids]) simp_all
  have "good d'" using Expire_good [OF assms(1), of e 50 t] d'(1) by simp
  with d'(1) that show thesis by simp
qed

lemma run_success:
  assumes "run_ok w n"
  shows "\<exists>r d'. run s w d (int n) = (Inr r, d') \<and> Report_ZeroOverselling r \<and> Report_IdempotentResults r = 100
    \<and> Report_ExpiredReservations r = 1 \<and> Report_RestoredInventory r = 1 \<and> Report_Successful r = min 100 (int n)
    \<and> Report_SoldOut r = int n - min 100 (int n) \<and> Report_Duplicate r = 0 \<and> Report_Failed r = 0"
proof -
  let ?e = "Run_reset w" and ?e2 = "Run_reset2 w"
  obtain p es where ps: "Run_proofs w = p # es" "length es = 99" using assms by (cases "Run_proofs w") (auto simp: run_ok_def)
  obtain rs1 where rs1: "ResetDemo ?e 0 d 1 = (Inr rs1, demo_data ?e 1)" "Sale_ID (Status_Sale rs1) = the_id ?e 1"
    by (rule reset_status [of ?e 1 d]) (use assms in \<open>simp_all add: run_ok_def\<close>)
  let ?row = "reserved_row s p (the_id ?e 1) ''idempotency-proof'' 1 (demo_product ?e (the_id ?e 0)) (the_id p 0)"
  obtain d2 where d2: "proof_attempts s (the_id ?e 1) (p # es) (demo_data ?e 1) = (replicate (Suc (length es)) (the_id p 0), d2)"
      "good d2" "reservations d2 = [?row]"
      "orders d2 = [reserved_order p (the_id ?e 1) ''idempotency-proof'' 1 (demo_product ?e (the_id ?e 0)) (the_id p 0) (the_id p 1)]"
      "map domain_events_id (domain_events d2) = [the_id p 2]"
    by (rule proof_served [of ?e p es s]) (use assms ps in \<open>simp_all add: run_ok_def\<close>)
  have first: "count_first [] 0 (replicate (Suc (length es)) (the_id p 0)) = (the_id p 0, 100)"
    unfolding replicate_Suc count_first.simps Let_def by (simp add: count_first_same ps(2))
  have got: "GetReservation (Run_get w) 0 d2 (the_id p 0) = Inr (reservation_of_row (the_id p 1) ?row)"
    using assms d2(3,4) by (simp add: run_ok_def GetReservation_def sql_get_reservation_def new_reservation_def new_order_def)
  have due: "reservations_expires_at ?row \<le> Reservation_ExpiresAt (reservation_of_row (the_id p 1) ?row) + 1000000"
    by (simp add: new_reservation_def reservation_of_row_def)
  obtain d3 where d3: "ExpireBatch (Run_expire w) d2 50 (Reservation_ExpiresAt (reservation_of_row (the_id p 1) ?row) + 1000000)
      = (Inr \<lparr>Expiration_Processed = 1, Expiration_Expired = 1, Expiration_Restored = 1\<rparr>, d3)"
    by (rule expire_one [OF d2(2) _ d2(3) _ _ due, of "Run_expire w"])
      (use assms ps d2(5) in \<open>simp_all add: run_ok_def new_reservation_def reservation_of_row_def\<close>)
  obtain rs2 where rs2: "ResetDemo ?e2 0 d3 100 = (Inr rs2, demo_data ?e2 100)" "Sale_ID (Status_Sale rs2) = the_id ?e2 1"
    by (rule reset_status [of ?e2 100 d3]) (use assms in \<open>simp_all add: run_ok_def\<close>)
  obtain xs where xs: "int (length xs) = min 100 (int n)" "\<forall>x \<in> set xs. \<not> Result_Duplicate x"
    "fst (rush s (demo_data ?e2 100) (the_id ?e2 1) (attempt_buyers (buyer_request (Run_stamp w)) (Run_schedule w))) =
      map Inr xs @ replicate (nat (int n - min 100 (int n))) (Inl (DomainError allocation_sold_out))"
    "good (snd (rush s (demo_data ?e2 100) (the_id ?e2 1) (attempt_buyers (buyer_request (Run_stamp w)) (Run_schedule w))))"
    "demo_like 100 (snd (rush s (demo_data ?e2 100) (the_id ?e2 1) (attempt_buyers (buyer_request (Run_stamp w)) (Run_schedule w))))"
    by (rule attempts_rush [of ?e2 100 n "Run_schedule w" "buyer_request (Run_stamp w)" s])
      (use assms in \<open>simp_all add: run_ok_def buyer_request_one_each\<close>)
  obtain final where final: "DemoStatus (Run_status w) 0
        (snd (rush s (demo_data ?e2 100) (the_id ?e2 1) (attempt_buyers (buyer_request (Run_stamp w)) (Run_schedule w)))) = Inr final"
      "Status_InvariantPass final" "0 \<le> Product_Available (Status_Product final)" "Status_DuplicateOrders final = 0"
    using demo_like_status [OF xs(4,5), of "Run_status w" 0] assms by (auto simp: run_ok_def)
  have "run s w d (int n) = (Inr (finish_run (fold count_result (fst (rush s (demo_data ?e2 100) (the_id ?e2 1)
        (attempt_buyers (buyer_request (Run_stamp w)) (Run_schedule w))))
      \<lparr>Report_Timestamp = Run_now w, Report_GoVersion = Run_version w, Report_InitialInventory = 100, Report_Attempts = int n, Report_Successful = 0, Report_SoldOut = 0, Report_Duplicate = 0,
          Report_RateLimited = 0, Report_Failed = 0, Report_P50Millis = 0, Report_P95Millis = 0, Report_P99Millis = 0,
          Report_IdempotentResults = 100, Report_ExpiredReservations = 1,
          Report_RestoredInventory = 1, Report_Final = rs2, Report_NegativeStockEvents = 0,
          Report_DatabaseInvariantOK = False, Report_ZeroOverselling = False\<rparr>) ([] @ map (\<lambda>(i, e, t). t) (Run_schedule w)) final),
      snd (rush s (demo_data ?e2 100) (the_id ?e2 1) (attempt_buyers (buyer_request (Run_stamp w)) (Run_schedule w))))"
    unfolding run_def rs1(1) prod.case sum.case rs1(2) ps(1) d2(1) first got d3 rs2 run_attempts_rush final(1) Let_def
      ExpirationResult.select_convs ..
  then show ?thesis
    unfolding xs(3) fold_append o_apply result_served [OF xs(2)] result_sold_out
    using final(2-4) xs(1) by (simp add: finish_run_def Let_def)
qed

end
