(* ===== verification/LoadReport.thy ===== *)
theory LoadReport
  imports Loadgen GoLib
begin

text \<open>
  The report files of the load generator (\<open>writeReport\<close> in \<open>src/cmd/loadgen/main.go\<close>): the Markdown report, line by line as in the template, and the JSON
  report. What the standard library makes of a time, a float and a struct, and what the file system answers, is the record \<open>platform\<close>.

  The lemmas show that the Markdown report can be read back line by line, and that it carries the passing verdict exactly when the run found no overselling.
\<close>

record platform =
  Format_RFC3339 :: "int \<Rightarrow> string"
  Sprintf_2f :: "rat \<Rightarrow> string"
  MarshalIndent :: "report \<Rightarrow> go_error + string"
  MkdirAll :: "string \<Rightarrow> go_error option"
  WriteFile :: "string \<Rightarrow> string \<Rightarrow> go_error option"

definition fmt_t :: "bool \<Rightarrow> string" where
  "fmt_t b = (if b then ''true'' else ''false'')"

fun ReplaceCRLF :: "string \<Rightarrow> string" where
  "ReplaceCRLF (a # b # s) = (if a = CHR 0x0D \<and> b = CHR 0x0A then b # ReplaceCRLF s else a # ReplaceCRLF (b # s))"
| "ReplaceCRLF s = s"

definition report_verdict :: "report \<Rightarrow> string" where
  "report_verdict r = (if Report_ZeroOverselling r then ''PASS'' else ''FAIL'')"

definition report_lines :: "platform \<Rightarrow> report \<Rightarrow> string list" where
  "report_lines P r = (let product = Status_Product (Report_Final r) in
    [''# StockRush Go Portfolio Evidence'', [],
     ''## Environment'', [],
     ''- Timestamp: '' @ Format_RFC3339 P (Report_Timestamp r),
     ''- Go: '' @ Report_GoVersion r,
     ''- Storage: PostgreSQL'', [],
     ''## Demo Parameters'', [],
     ''- Initial inventory: '' @ fmt_d (Report_InitialInventory r),
     ''- Concurrent purchase attempts: '' @ fmt_d (Report_Attempts r),
     ''- Quantity per request: 1'', [],
     ''## Concurrency Test Results'', [],
     ''| Result | Count |'',
     ''|---|---:|'',
     ''| Successful reservations | '' @ fmt_d (Report_Successful r) @ '' |'',
     ''| Sold out | '' @ fmt_d (Report_SoldOut r) @ '' |'',
     ''| Duplicate | '' @ fmt_d (Report_Duplicate r) @ '' |'',
     ''| Rate limited | '' @ fmt_d (Report_RateLimited r) @ '' |'',
     ''| Failed | '' @ fmt_d (Report_Failed r) @ '' |'', [],
     ''## Latency Summary'', [],
     ''- p50: '' @ Sprintf_2f P (Report_P50Millis r) @ '' ms'',
     ''- p95: '' @ Sprintf_2f P (Report_P95Millis r) @ '' ms'',
     ''- p99: '' @ Sprintf_2f P (Report_P99Millis r) @ '' ms'', [],
     ''## Reservation Expiration Results'', [],
     ''- Expired reservations: '' @ fmt_d (Report_ExpiredReservations r),
     ''- Restored inventory: '' @ fmt_d (Report_RestoredInventory r), [],
     ''## Idempotency Results'', [],
     ''- Concurrent retries returning one reservation: '' @ fmt_d (Report_IdempotentResults r) @ ''/100'',
     ''- Duplicate orders: '' @ fmt_d (Status_DuplicateOrders (Report_Final r)), [],
     ''## Database Invariant Checks'', [],
     ''- Available inventory is non-negative: '' @ fmt_t (0 \<le> Product_Available product),
     ''- Reserved inventory is non-negative: '' @ fmt_t (0 \<le> Product_Reserved product),
     ''- Sold inventory is non-negative: '' @ fmt_t (0 \<le> Product_Sold product),
     ''- Reservation/order reconciliation: '' @ fmt_t (Status_Reservations (Report_Final r) = Status_Orders (Report_Final r)), [],
     ''## Final Inventory Reconciliation'', [],
     ''- Available: '' @ fmt_d (Product_Available product),
     ''- Reserved: '' @ fmt_d (Product_Reserved product),
     ''- Sold: '' @ fmt_d (Product_Sold product),
     ''- Total: '' @ fmt_d (wrap64 (Product_Available product + Product_Reserved product + Product_Sold product)), [],
     ''## Zero-Oversell Verdict'', [],
     ''**Zero overselling: '' @ report_verdict r @ ''**'', [],
     ''## Known Limitations'', [],
     ''- The MVP rate limiter is process-local.'',
     ''- Payment is synthetic.'',
     ''- The local Docker Compose demo is authoritative.''])"

definition report_text :: "platform \<Rightarrow> report \<Rightarrow> string" where
  "report_text P r = ReplaceCRLF (Join (CHR 0x0A) (report_lines P r @ [[]]))"

text \<open>The error, if any, and the files written, in order.\<close>

definition writeReport :: "platform \<Rightarrow> report \<Rightarrow> go_error option \<times> (string \<times> string) list" where
  "writeReport P r =
    (case MkdirAll P ''reports'' of Some err \<Rightarrow> (Some err, []) | None \<Rightarrow>
     let md = ''reports/local_portfolio_report.md''; json = ''reports/local_portfolio_report.json'' in
    (case WriteFile P md (report_text P r) of Some err \<Rightarrow> (Some err, []) | None \<Rightarrow>
    (case MarshalIndent P r of Inl err \<Rightarrow> (Some err, [(md, report_text P r)]) | Inr body \<Rightarrow>
    (case WriteFile P json (body @ [CHR 0x0A]) of Some err \<Rightarrow> (Some err, [(md, report_text P r)])
     | None \<Rightarrow> (None, [(md, report_text P r), (json, body @ [CHR 0x0A])])))))"

text \<open>A platform on which nothing fails.\<close>

definition platform_ok :: "platform \<Rightarrow> bool" where
  "platform_ok P \<longleftrightarrow> MkdirAll P ''reports'' = None \<and> (\<forall>name text. WriteFile P name text = None) \<and> (\<forall>r. \<exists>body. MarshalIndent P r = Inr body)"

lemma writeReport_ok:
  assumes "platform_ok P"
  obtains body where "MarshalIndent P r = Inr body" "writeReport P r = (None, [(''reports/local_portfolio_report.md'', report_text P r),
    (''reports/local_portfolio_report.json'', body @ [CHR 0x0A])])"
  using assms by (fastforce simp: platform_ok_def writeReport_def Let_def split: sum.split)

section \<open>Reading the report\<close>

lemma verdict_line: "''**Zero overselling: PASS**'' \<in> set (report_lines P r) \<longleftrightarrow> Report_ZeroOverselling r"
  by (simp add: report_lines_def report_verdict_def Let_def)

text \<open>A text whose bytes include no line break of either kind.\<close>

definition one_line :: "string \<Rightarrow> bool" where
  "one_line s \<longleftrightarrow> CHR 0x0A \<notin> set s \<and> CHR 0x0D \<notin> set s"

lemma one_line_simps [simp]: "one_line []" "one_line (c # s) \<longleftrightarrow> c \<noteq> CHR 0x0A \<and> c \<noteq> CHR 0x0D \<and> one_line s" "one_line (s @ t) \<longleftrightarrow> one_line s \<and> one_line t"
  by (auto simp: one_line_def)

lemma one_line_digit: "n < 10 \<Longrightarrow> one_line [digit_char n]"
  using of_char_digit [of n] by (auto dest: arg_cong [where f = of_char])

lemma one_line_fmt_nat: "one_line (fmt_nat n)"
proof (induction n rule: fmt_nat.induct)
  case (1 n)
  then show ?case using one_line_digit [of "n mod 10"] one_line_digit [of n] by (simp add: fmt_nat.simps [of n])
qed

lemma one_line_fmt [simp]: "one_line (fmt_d n)" "one_line (fmt_t b)" "one_line (report_verdict r)"
  by (simp_all add: fmt_d_def one_line_fmt_nat fmt_t_def report_verdict_def)

lemma ReplaceCRLF_id: "CHR 0x0D \<notin> set s \<Longrightarrow> ReplaceCRLF s = s"
  by (induction s rule: ReplaceCRLF.induct) auto

lemma Join_free: "sep \<noteq> c \<Longrightarrow> \<forall>p \<in> set ps. c \<notin> set p \<Longrightarrow> c \<notin> set (Join sep ps)"
  by (induction sep ps rule: Join.induct) auto

lemma report_readable:
  assumes "one_line (Format_RFC3339 P (Report_Timestamp r))" "one_line (Report_GoVersion r)" "\<And>x. one_line (Sprintf_2f P x)"
  shows "Split (CHR 0x0A) (report_text P r) = report_lines P r @ [[]]"
proof -
  have "list_all one_line (report_lines P r)" using assms by (simp add: report_lines_def Let_def)
  then have lines: "\<forall>l \<in> set (report_lines P r @ [[]]). CHR 0x0A \<notin> set l \<and> CHR 0x0D \<notin> set l" by (auto simp: list_all_iff one_line_def)
  then have "report_text P r = Join (CHR 0x0A) (report_lines P r @ [[]])"
    unfolding report_text_def by (intro ReplaceCRLF_id Join_free) auto
  with lines show ?thesis by (simp add: Split_Join)
qed

end
