(* ===== verification/Database.thy ===== *)
theory Database
  imports GoLib Store
begin

text \<open>
  Connection settings and migrations (\<open>src/internal/database/database.go\<close>).

  A database is its \<open>schema_migrations\<close> table (\<open>None\<close> before it exists, else the versions in it) and everything else, of any
  type \<open>'a\<close>. What a migration file does is the parameter \<open>script\<close>, a partial function of the file's contents; \<open>None\<close> is a script that
  fails, and \<open>keeps_versions\<close> is the only thing assumed about it: it deletes no row of \<open>schema_migrations\<close>. Round trips are numbered in program order, as in the
  store; the session lock that serialises concurrent runs makes one run one sequence of steps.

  The lemmas show that a run that stopped anywhere, for whatever reason, can be repeated, and that the repetition ends exactly where an
  undisturbed run would have ended.
\<close>

section \<open>Pool configuration\<close>

record Options =
  Options_MaxConns :: int
  Options_MinConns :: int
  Options_MaxConnLifetime :: int
  Options_StatementTimeout :: int
  Options_TransactionTimeout :: int

record pool_config =
  Pool_MaxConns :: int
  Pool_MinConns :: int
  Pool_MaxConnLifetime :: int
  Pool_RuntimeParams :: "string \<Rightarrow> string option"

definition wrap32 :: "int \<Rightarrow> int" where
  "wrap32 x = (x + 2 ^ 31) mod 2 ^ 32 - 2 ^ 31"

definition Milliseconds :: "int \<Rightarrow> int" where
  "Milliseconds d = (if d < 0 then - (- d div 1000000) else d div 1000000)"

definition PoolConfig :: "(string \<Rightarrow> pool_config option) \<Rightarrow> string \<Rightarrow> Options \<Rightarrow> go_error + pool_config" where
  "PoolConfig ParseConfig databaseURL options = (case ParseConfig databaseURL of
     None \<Rightarrow> Inl (WrapError ''parse database configuration'' (OtherError ''pgx''))
   | Some cfg0 \<Rightarrow>
     let cfg1 = (if 0 < Options_MaxConns options then cfg0\<lparr>Pool_MaxConns := wrap32 (Options_MaxConns options)\<rparr> else cfg0);
         cfg2 = (if 0 \<le> Options_MinConns options then cfg1\<lparr>Pool_MinConns := wrap32 (Options_MinConns options)\<rparr> else cfg1);
         cfg3 = (if 0 < Options_MaxConnLifetime options then cfg2\<lparr>Pool_MaxConnLifetime := Options_MaxConnLifetime options\<rparr> else cfg2);
         cfg4 = (if 0 < Options_StatementTimeout options then cfg3\<lparr>Pool_RuntimeParams :=
             (Pool_RuntimeParams cfg3)(''statement_timeout'' \<mapsto> fmt_d (Milliseconds (Options_StatementTimeout options)))\<rparr> else cfg3);
         cfg5 = (if 0 < Options_TransactionTimeout options then cfg4\<lparr>Pool_RuntimeParams :=
             (Pool_RuntimeParams cfg4)(''transaction_timeout'' \<mapsto> fmt_d (Milliseconds (Options_TransactionTimeout options)))\<rparr> else cfg4)
     in Inr cfg5)"

text \<open>\<open>connects\<close> and \<open>pings\<close> say whether creating the pool and pinging the server succeed.\<close>

definition OpenWithOptions :: "(string \<Rightarrow> pool_config option) \<Rightarrow> bool \<Rightarrow> bool \<Rightarrow> string \<Rightarrow> Options \<Rightarrow> go_error + pool_config" where
  "OpenWithOptions ParseConfig connects pings databaseURL options =
     and_then (PoolConfig ParseConfig databaseURL options) (\<lambda>cfg.
       if \<not> connects then Inl (WrapError ''create database pool'' (OtherError ''pgx''))
       else if \<not> pings then Inl (WrapError ''ping database'' (OtherError ''pgx''))
       else Inr cfg)"

definition Open :: "(string \<Rightarrow> pool_config option) \<Rightarrow> bool \<Rightarrow> bool \<Rightarrow> string \<Rightarrow> go_error + pool_config" where
  "Open ParseConfig connects pings databaseURL = OpenWithOptions ParseConfig connects pings databaseURL
     \<lparr>Options_MaxConns = 8, Options_MinConns = 1, Options_MaxConnLifetime = 30 * 60 * 1000000000,
      Options_StatementTimeout = 0, Options_TransactionTimeout = 0\<rparr>"

lemma wrap32_id: "int4 x \<Longrightarrow> wrap32 x = x"
  by (simp add: wrap32_def int4_def)

section \<open>Migrations\<close>

text \<open>The verb \<open>%q\<close> for names without characters that need escaping.\<close>

definition quoted :: "string \<Rightarrow> string" where
  "quoted name = [CHR 0x22] @ name @ [CHR 0x22]"

record 'a mdb =
  mdb_versions :: "int list option"
  mdb_state :: 'a

record dir_entry =
  Entry_Name :: string
  Entry_IsDir :: bool
  Entry_Contents :: "string option"

definition migration_names :: "dir_entry list \<Rightarrow> dir_entry list" where
  "migration_names entries = sort_key Entry_Name
     (filter (\<lambda>entry. \<not> Entry_IsDir entry \<and> HasSuffix (Entry_Name entry) ''.sql'') entries)"

definition check_applied :: "(nat \<Rightarrow> fault) \<Rightarrow> nat \<Rightarrow> 'a mdb \<Rightarrow> int \<Rightarrow> (go_error + bool) \<times> 'a mdb" where
  "check_applied net n d version =
    (if mdb_versions d \<noteq> None \<and> net n = NoFault then (Inr (version \<in> set (the (mdb_versions d))), d)
     else let vs = (case mdb_versions d of None \<Rightarrow> [] | Some vs \<Rightarrow> vs); d1 = d\<lparr>mdb_versions := Some vs\<rparr> in
       (case net (n + 1) of
          Fails \<Rightarrow> (Inl (WrapError ''create migration table'' (OtherError ''database'')), d)
        | LostAck \<Rightarrow> (Inl (WrapError ''create migration table'' (OtherError ''database'')), d1)
        | NoFault \<Rightarrow> if net (n + 2) = NoFault then (Inr (version \<in> set vs), d1)
                  else (Inl (WrapError (''check migration '' @ fmt_d version) (OtherError ''database'')), d1)))"

definition apply_migration :: "(string \<Rightarrow> 'a mdb \<Rightarrow> 'a mdb option) \<Rightarrow> (nat \<Rightarrow> fault) \<Rightarrow> nat \<Rightarrow> 'a mdb \<Rightarrow> string \<Rightarrow> string \<Rightarrow> int
    \<Rightarrow> (go_error + unit) \<times> 'a mdb" where
  "apply_migration script net n d name sql version =
    (if net n \<noteq> NoFault then (Inl (WrapError (''begin migration '' @ quoted name) (OtherError ''database'')), d)
     else case (if net (n + 1) = NoFault then script sql d else None) of
       None \<Rightarrow> (Inl (WrapError (''apply migration '' @ quoted name) (OtherError ''database'')), d)
     | Some d1 \<Rightarrow>
       (case (if net (n + 2) = NoFault then mdb_versions d1 else None) of
          None \<Rightarrow> (Inl (WrapError (''apply migration '' @ quoted name) (OtherError ''database'')), d)
        | Some vs \<Rightarrow>
          let d2 = d1\<lparr>mdb_versions := Some (if version \<in> set vs then vs else vs @ [version])\<rparr> in
          (case net (n + 3) of
             NoFault \<Rightarrow> (Inr (), d2)
           | Fails \<Rightarrow> (Inl (WrapError (''commit migration '' @ quoted name) (OtherError ''database'')), d)
           | LostAck \<Rightarrow> (Inl (WrapError (''commit migration '' @ quoted name) (OtherError ''database'')), d2))))"

definition migrate_file :: "(string \<Rightarrow> 'a mdb \<Rightarrow> 'a mdb option) \<Rightarrow> (nat \<Rightarrow> fault) \<Rightarrow> nat \<Rightarrow> dir_entry \<Rightarrow> 'a mdb \<Rightarrow> (go_error + unit) \<times> 'a mdb" where
  "migrate_file script net n entry d =
    (let name = Entry_Name entry in case Cut name (CHR ''_'') of (versionText, _, found) \<Rightarrow>
     if \<not> found then (Inl (OtherError (''migration '' @ quoted name @ '' must start with a numeric version'')), d)
     else case Atoi versionText of
       None \<Rightarrow> (Inl (WrapError (''parse migration '' @ quoted name) (OtherError ''strconv'')), d)
     | Some version \<Rightarrow>
       (case check_applied net n d version of
          (Inl err, d1) \<Rightarrow> (Inl err, d1)
        | (Inr True, d1) \<Rightarrow> (Inr (), d1)
        | (Inr False, d1) \<Rightarrow>
          (case Entry_Contents entry of
             None \<Rightarrow> (Inl (WrapError (''read migration '' @ quoted name) (OtherError ''os'')), d1)
           | Some sql \<Rightarrow> apply_migration script net (n + 3) d1 name sql version)))"

fun migrate_files :: "(string \<Rightarrow> 'a mdb \<Rightarrow> 'a mdb option) \<Rightarrow> (nat \<Rightarrow> fault) \<Rightarrow> nat \<Rightarrow> dir_entry list \<Rightarrow> 'a mdb \<Rightarrow> (go_error + unit) \<times> 'a mdb" where
  "migrate_files script net n [] d = (Inr (), d)"
| "migrate_files script net n (f # fs) d = (case migrate_file script net n f d of
     (Inl err, d1) \<Rightarrow> (Inl err, d1)
   | (Inr _, d1) \<Rightarrow> migrate_files script net (n + 7) fs d1)"

definition Migrate :: "(string \<Rightarrow> 'a mdb \<Rightarrow> 'a mdb option) \<Rightarrow> (nat \<Rightarrow> fault) \<Rightarrow> dir_entry list option \<Rightarrow> 'a mdb \<Rightarrow> (go_error + unit) \<times> 'a mdb" where
  "Migrate script net dir d =
    (if net 0 \<noteq> NoFault then (Inl (WrapError ''acquire migration connection'' (OtherError ''database'')), d)
     else if net 1 \<noteq> NoFault then (Inl (WrapError ''acquire migration lock'' (OtherError ''database'')), d)
     else case dir of None \<Rightarrow> (Inl (WrapError ''read migrations'' (OtherError ''os'')), d)
       | Some entries \<Rightarrow> migrate_files script net 2 (migration_names entries) d)"

section \<open>Repeating a run\<close>

definition keeps_versions :: "(string \<Rightarrow> 'a mdb \<Rightarrow> 'a mdb option) \<Rightarrow> bool" where
  "keeps_versions script \<longleftrightarrow> (\<forall>sql d d' vs. script sql d = Some d' \<longrightarrow> mdb_versions d = Some vs
     \<longrightarrow> (\<exists>vs'. mdb_versions d' = Some vs' \<and> set vs \<subseteq> set vs'))"

abbreviation smooth :: "nat \<Rightarrow> fault" where
  "smooth \<equiv> \<lambda>_. NoFault"

definition with_table :: "'a mdb \<Rightarrow> 'a mdb" where
  "with_table d = d\<lparr>mdb_versions := Some (case mdb_versions d of None \<Rightarrow> [] | Some vs \<Rightarrow> vs)\<rparr>"

text \<open>The version a file stands for.\<close>

definition entry_version :: "dir_entry \<Rightarrow> int option" where
  "entry_version f = (case Cut (Entry_Name f) (CHR ''_'') of (v, _, found) \<Rightarrow> if found then Atoi v else None)"

definition recorded :: "int \<Rightarrow> 'a mdb \<Rightarrow> bool" where
  "recorded v d \<longleftrightarrow> (case mdb_versions d of None \<Rightarrow> False | Some vs \<Rightarrow> v \<in> set vs)"

lemma with_table_idem [simp]: "with_table (with_table d) = with_table d" "mdb_versions (with_table d) \<noteq> None"
  by (simp_all add: with_table_def)

lemma recorded_with_table [simp]: "recorded v (with_table d) = recorded v d"
  by (simp add: recorded_def with_table_def split: option.split)

lemma with_table_id: "mdb_versions d \<noteq> None \<Longrightarrow> with_table d = d"
  by (auto simp: with_table_def)

lemma recorded_table: "recorded v d \<Longrightarrow> with_table d = d"
  by (auto simp: recorded_def intro: with_table_id split: option.splits)

lemma check_applied_smooth: "check_applied smooth n d v = (Inr (recorded v d), with_table d)"
  by (auto simp: check_applied_def with_table_def recorded_def split: option.splits)

lemma check_applied_cases:
  obtains (ok) "check_applied net n d v = (Inr (recorded v d), with_table d)"
  | (err) err where "check_applied net n d v = (Inl err, d) \<or> check_applied net n d v = (Inl err, with_table d)"
proof -
  have t: "d\<lparr>mdb_versions := Some (case mdb_versions d of None \<Rightarrow> [] | Some vs \<Rightarrow> vs)\<rparr> = with_table d"
    "v \<in> set (case mdb_versions d of None \<Rightarrow> [] | Some vs \<Rightarrow> vs) \<longleftrightarrow> recorded v d"
    by (simp_all add: with_table_def recorded_def split: option.split)
  have "check_applied net n d v = (Inr (recorded v d), with_table d)
    \<or> (\<exists>err. check_applied net n d v = (Inl err, d) \<or> check_applied net n d v = (Inl err, with_table d))"
  proof (cases "mdb_versions d \<noteq> None \<and> net n = NoFault")
    case True
    then show ?thesis by (auto simp: check_applied_def with_table_id recorded_def)
  next
    case False
    then have "check_applied net n d v = (case net (n + 1) of
          Fails \<Rightarrow> (Inl (WrapError ''create migration table'' (OtherError ''database'')), d)
        | LostAck \<Rightarrow> (Inl (WrapError ''create migration table'' (OtherError ''database'')), with_table d)
        | NoFault \<Rightarrow> if net (n + 2) = NoFault then (Inr (recorded v d), with_table d)
                  else (Inl (WrapError (''check migration '' @ fmt_d v) (OtherError ''database'')), with_table d))"
      unfolding check_applied_def Let_def t by (rule if_not_P)
    then show ?thesis by (cases "net (n + 1)") auto
  qed
  then show thesis using that by blast
qed

lemma apply_migration_cases:
  obtains (ok) "apply_migration script net n d name sql v = apply_migration script smooth m d name sql v"
  | (undone) err where "apply_migration script net n d name sql v = (Inl err, d)"
  | (lost) err d' where "apply_migration script net n d name sql v = (Inl err, d')" "apply_migration script smooth m d name sql v = (Inr (), d')"
proof (cases "net n = NoFault \<and> net (n + 1) = NoFault \<and> net (n + 2) = NoFault")
  case True
  show thesis
  proof (cases "script sql d")
    case None
    then show thesis using True undone by (auto simp: apply_migration_def)
  next
    case (Some d1)
    show thesis
    proof (cases "mdb_versions d1")
      case None
      then show thesis using True Some undone by (auto simp: apply_migration_def)
    next
      case (Some vs)
      then show thesis
        using True \<open>script sql d = Some d1\<close> that by (cases "net (n + 3)") (auto simp: apply_migration_def Let_def)
    qed
  qed
next
  case False
  then have "\<exists>err. apply_migration script net n d name sql v = (Inl err, d)"
    by (auto simp: apply_migration_def split: option.split)
  then show thesis using undone by blast
qed

lemma apply_migration_recorded:
  assumes "keeps_versions script" "apply_migration script net n d name sql v = (r, d')" "recorded w d"
  shows "recorded w d'"
proof -
  have "recorded w d1" if "script sql d = Some d1" for d1
    using assms(1,3) that unfolding keeps_versions_def recorded_def
    by (metis (no_types, lifting) option.case_eq_if option.collapse option.sel option.simps(3) subsetD)
  then show ?thesis
    using assms(2,3) by (auto simp: apply_migration_def recorded_def Let_def split: if_splits option.splits fault.splits)
qed

lemma apply_migration_smooth:
  "apply_migration script smooth n d name sql v = (r, d') \<Longrightarrow> r = Inr () \<or> (\<exists>err. r = Inl err) \<and> d' = d"
  by (auto simp: apply_migration_def Let_def split: option.splits)

lemma apply_migration_records:
  assumes "apply_migration script net n d name sql v = (Inr u, d')"
  shows "recorded v d'"
  using assms by (auto simp: apply_migration_def recorded_def Let_def split: if_splits option.splits fault.splits)

text \<open>One file.\<close>

lemma migrate_file_None:
  assumes "entry_version f = None"
  obtains err where "\<And>net n d. migrate_file script net n f d = (Inl err, d)"
proof (cases "CHR ''_'' \<in> set (Entry_Name f)")
  case True
  then show thesis
    using that [of "WrapError (''parse migration '' @ quoted (Entry_Name f)) (OtherError ''strconv'')"] assms
    by (simp add: migrate_file_def entry_version_def Cut_def)
next
  case False
  then show thesis
    using that [of "OtherError (''migration '' @ quoted (Entry_Name f) @ '' must start with a numeric version'')"]
    by (simp add: migrate_file_def Cut_def)
qed

lemma migrate_file_Some:
  assumes "entry_version f = Some v"
  shows "migrate_file script net n f d = (case check_applied net n d v of
          (Inl err, d1) \<Rightarrow> (Inl err, d1)
        | (Inr applied, d1) \<Rightarrow> if applied then (Inr (), d1) else (case Entry_Contents f of
             None \<Rightarrow> (Inl (WrapError (''read migration '' @ quoted (Entry_Name f)) (OtherError ''os'')), d1)
           | Some sql \<Rightarrow> apply_migration script net (n + 3) d1 (Entry_Name f) sql v))"
  using assms by (auto simp: migrate_file_def entry_version_def Cut_def Let_def split: if_splits prod.splits sum.splits bool.splits)

lemma migrate_file_smooth:
  assumes "entry_version f = Some v"
  shows "migrate_file script smooth n f d = (if recorded v d then (Inr (), d) else (case Entry_Contents f of
             None \<Rightarrow> (Inl (WrapError (''read migration '' @ quoted (Entry_Name f)) (OtherError ''os'')), with_table d)
           | Some sql \<Rightarrow> apply_migration script smooth 0 (with_table d) (Entry_Name f) sql v))"
proof -
  have "apply_migration script smooth (n + 3) d1 name sql v = apply_migration script smooth 0 d1 name sql v" for d1 name sql
    by (simp add: apply_migration_def)
  then show ?thesis by (simp add: migrate_file_Some [OF assms] check_applied_smooth recorded_table split: option.split)
qed

lemma migrate_file_recorded:
  assumes "keeps_versions script" "migrate_file script net n f d = (r, d')" "recorded w d"
  shows "recorded w d'"
proof (cases "entry_version f")
  case None
  obtain err where "\<And>net n d. migrate_file script net n f d = (Inl err, d)" using migrate_file_None [OF None, of script] by blast
  then show ?thesis using assms(2,3) by simp
next
  case (Some v)
  show ?thesis
    using assms(2,3) unfolding migrate_file_Some [OF Some]
    by (cases rule: check_applied_cases [of net n d v])
      (auto simp: recorded_table [OF assms(3)] split: if_splits option.splits dest: apply_migration_recorded [OF assms(1)])
qed

lemma migrate_file_records:
  assumes "migrate_file script net n f d = (Inr u, d')"
  obtains v where "entry_version f = Some v" "recorded v d'"
proof (cases "entry_version f")
  case None
  obtain err where "\<And>net n d. migrate_file script net n f d = (Inl err, d)" using migrate_file_None [OF None, of script] by blast
  then show thesis using assms by simp
next
  case (Some v)
  have "recorded v d'"
    using assms unfolding migrate_file_Some [OF Some]
    by (cases rule: check_applied_cases [of net n d v])
      (auto split: if_splits option.splits dest: apply_migration_records)
  with Some that show thesis by blast
qed

text \<open>A file was migrated as in an undisturbed run, or it was not and can be migrated again.\<close>

lemma migrate_file_repeat:
  assumes "migrate_file script net n f d = (r, d')"
  shows "migrate_file script smooth m f d = (Inr (), d')
    \<or> (\<exists>err. r = Inl err) \<and> migrate_file script smooth m f d' = migrate_file script smooth m f d"
proof (cases "entry_version f")
  case None
  obtain err where "\<And>net n d. migrate_file script net n f d = (Inl err, d)" using migrate_file_None [OF None, of script] by blast
  then show ?thesis using assms by auto
next
  case (Some v)
  note eq = migrate_file_Some [OF Some] and smooth = migrate_file_smooth [OF Some]
  have again: "migrate_file script smooth m f d1 = migrate_file script smooth m f d" if "d1 = d \<or> d1 = with_table d" for d1
    using that by (auto simp: smooth recorded_table split: option.split)
  show ?thesis
  proof (cases rule: check_applied_cases [of net n d v])
    case ok
    show ?thesis
    proof (cases "recorded v d \<or> Entry_Contents f = None")
      case True
      then have "d' = with_table d" "recorded v d \<or> (\<exists>err. r = Inl err)" using ok assms by (auto simp: eq split: if_splits)
      then show ?thesis using again [of d'] by (auto simp: smooth recorded_table)
    next
      case False
      then obtain sql where sql: "Entry_Contents f = Some sql" "\<not> recorded v d" by auto
      have r: "apply_migration script net (n + 3) (with_table d) (Entry_Name f) sql v = (r, d')" using assms ok sql by (simp add: eq)
      show ?thesis
      proof (cases rule: apply_migration_cases [of script net "n + 3" "with_table d" "Entry_Name f" sql v 0])
        case ok
        then have a: "apply_migration script smooth 0 (with_table d) (Entry_Name f) sql v = (r, d')" using r by simp
        then have m: "migrate_file script smooth m f d = (r, d')" using sql by (simp add: smooth)
        from apply_migration_smooth [OF a] m again [of d'] show ?thesis by blast
      next
        case (undone err)
        then have "d' = with_table d" "\<exists>err. r = Inl err" using r by auto
        then show ?thesis using again by blast
      next
        case (lost err d1)
        then show ?thesis using r sql by (simp add: smooth)
      qed
    qed
  next
    case (err err)
    then have "d' = d \<or> d' = with_table d" "\<exists>err. r = Inl err" using assms by (auto simp: eq)
    then show ?thesis using again by blast
  qed
qed

section \<open>A run and its repetition\<close>

lemma migrate_files_recorded:
  assumes "keeps_versions script"
  shows "migrate_files script net n fs d = (r, d') \<Longrightarrow> recorded w d \<Longrightarrow> recorded w d'"
proof (induction fs arbitrary: n d)
  case (Cons f fs)
  obtain r1 d1 where f: "migrate_file script net n f d = (r1, d1)" by (cases "migrate_file script net n f d")
  then have "recorded w d1" using migrate_file_recorded [OF assms f] Cons.prems(2) by simp
  with Cons f show ?case by (cases r1) auto
qed simp

lemma migrate_files_index: "migrate_files script smooth n fs d = migrate_files script smooth m fs d"
proof (induction fs arbitrary: n m d)
  case (Cons f fs)
  have "migrate_file script smooth n f d = migrate_file script smooth m f d"
  proof (cases "entry_version f")
    case None
    then show ?thesis using migrate_file_None [OF None, of script] by metis
  qed (simp add: migrate_file_smooth)
  with Cons [of "n + 7" _ "m + 7"] show ?case by (simp split: prod.split sum.split)
qed simp

lemma migrate_files_repeat:
  assumes "keeps_versions script"
  shows "migrate_files script net n fs d = (r, d') \<Longrightarrow> migrate_files script smooth m fs d' = migrate_files script smooth m fs d"
proof (induction fs arbitrary: n d)
  case (Cons f fs)
  obtain r1 d1 where f: "migrate_file script net n f d = (r1, d1)" by (cases "migrate_file script net n f d")
  show ?case
  proof (cases r1)
    case (Inl err)
    then have d': "d' = d1" using Cons.prems f by simp
    show ?thesis
    proof (cases "migrate_file script smooth m f d = (Inr (), d1)")
      case True
      then obtain v where "entry_version f = Some v" "recorded v d1" by (rule migrate_file_records)
      then have "migrate_file script smooth m f d1 = (Inr (), d1)" by (simp add: migrate_file_smooth)
      with True d' show ?thesis by simp
    next
      case False
      then have "migrate_file script smooth m f d1 = migrate_file script smooth m f d" using migrate_file_repeat [OF f, of m] by blast
      with d' show ?thesis by simp
    qed
  next
    case (Inr u)
    then have rest: "migrate_files script net (n + 7) fs d1 = (r, d')" using Cons.prems f by simp
    have one: "migrate_file script smooth m f d = (Inr (), d1)" using migrate_file_repeat [OF f, of m] Inr by simp
    obtain v where "entry_version f = Some v" "recorded v d1" by (rule migrate_file_records [OF one])
    then have "migrate_file script smooth m f d' = (Inr (), d')"
      using migrate_files_recorded [OF assms rest] by (simp add: migrate_file_smooth)
    then show ?thesis using Cons.IH [OF rest] one migrate_files_index [of script "m + 7" fs _ m] by simp
  qed
qed simp

lemma migrate_files_all:
  assumes "keeps_versions script"
  shows "migrate_files script net n fs d = (Inr u, d') \<Longrightarrow> \<forall>f \<in> set fs. \<exists>v. entry_version f = Some v \<and> recorded v d'"
proof (induction fs arbitrary: n d)
  case (Cons f fs)
  obtain r1 d1 where f: "migrate_file script net n f d = (r1, d1)" by (cases "migrate_file script net n f d")
  then obtain u1 where r1: "r1 = Inr u1" using Cons.prems by (cases r1) auto
  then have rest: "migrate_files script net (n + 7) fs d1 = (Inr u, d')" using Cons.prems f by simp
  obtain v where "entry_version f = Some v" "recorded v d1" using migrate_file_records f r1 by metis
  then show ?case using Cons.IH [OF rest] migrate_files_recorded [OF assms rest] by auto
qed simp

lemma Migrate_repeat:
  assumes "keeps_versions script" "Migrate script net dir d = (r, d')"
  shows "Migrate script smooth dir d' = Migrate script smooth dir d"
  using assms(2) migrate_files_repeat [OF assms(1)]
  by (auto simp: Migrate_def split: if_splits option.splits)

end
