(* ===== verification/Commands.thy ===== *)
theory Commands
  imports Service LoadReport Database Invariants
begin

text \<open>
  The programs under \<open>src/cmd\<close>: each reads the configuration, opens the pool, calls the packages and ends with an exit status.

  \<open>process\<close> is what a program finds when it starts: the environment variables, the driver's answers, the migration directory, the effect of a migration
  script, the faults of the migration's round trips and the environment of its first store call. The persistent state is the
  migration table together with the store's tables. Logging and the deadlines of the contexts are not modelled; a deadline shows as a failing round trip.
  The configuration counts nanoseconds, the store microseconds.

  The lemmas tie the programs together: what the API did, in any order and with any faults, the invariant check accepts; seeding
  twice is seeding once; the load generator ends with status 0.
\<close>

record process =
  Proc_getenv :: "string \<Rightarrow> string"
  Proc_parsers :: parsers
  Proc_ParseConfig :: "string \<Rightarrow> pool_config option"
  Proc_connects :: bool
  Proc_pings :: bool
  Proc_dir :: "dir_entry list option"
  Proc_script :: "string \<Rightarrow> db mdb \<Rightarrow> db mdb option"
  Proc_net :: "nat \<Rightarrow> fault"
  Proc_env :: env

definition New_Store :: "int \<Rightarrow> Store" where
  "New_Store rttl = \<lparr>ttl = rttl div 1000\<rparr>"

definition pool_options :: "Config \<Rightarrow> Options" where
  "pool_options cfg = \<lparr>Options_MaxConns = DatabaseMaxConns cfg, Options_MinConns = DatabaseMinConns cfg,
     Options_MaxConnLifetime = DatabaseMaxConnLifetime cfg, Options_StatementTimeout = DatabaseStatementTimeout cfg,
     Options_TransactionTimeout = DatabaseTransactionTimeout cfg\<rparr>"

definition start :: "process \<Rightarrow> go_error + Config" where
  "start p = and_then (Load (Proc_parsers p) (Proc_getenv p)) (\<lambda>cfg.
     and_then (OpenWithOptions (Proc_ParseConfig p) (Proc_connects p) (Proc_pings p) (DatabaseURL cfg) (pool_options cfg)) (\<lambda>_. Inr cfg))"

abbreviation migrations :: "process \<Rightarrow> db mdb \<Rightarrow> (go_error + unit) \<times> db mdb" where
  "migrations p m \<equiv> Migrate (Proc_script p) (Proc_net p) (Proc_dir p) m"

section \<open>The programs\<close>

definition migrate_main :: "process \<Rightarrow> db mdb \<Rightarrow> nat \<times> db mdb" where
  "migrate_main p m = (case start p of
     Inl err \<Rightarrow> (1, m)
   | Inr cfg \<Rightarrow> (case migrations p m of (Inl err, m') \<Rightarrow> (1, m') | (Inr _, m') \<Rightarrow> (0, m')))"

definition seed_main :: "process \<Rightarrow> db mdb \<Rightarrow> nat \<times> string \<times> db mdb" where
  "seed_main p m = (case start p of
     Inl err \<Rightarrow> (1, [], m)
   | Inr cfg \<Rightarrow> (case EnsurePublicDemo (Proc_env p) (mdb_state m) 100 of
       (Inl err, d) \<Rightarrow> (1, [], m\<lparr>mdb_state := d\<rparr>)
     | (Inr status, d) \<Rightarrow> (0, ''public demo ready: sale='' @ Sale_ID (Status_Sale status) @ '' inventory='' @
         fmt_d (Product_Available (Status_Product status)), m\<lparr>mdb_state := d\<rparr>)))"

definition invariant_check_main :: "process \<Rightarrow> db mdb \<Rightarrow> nat \<times> (string \<times> InvariantViolation list) option" where
  "invariant_check_main p m = (case start p of
     Inl err \<Rightarrow> (1, None)
   | Inr cfg \<Rightarrow> (case CheckInvariants (Proc_env p) (mdb_state m) of
       Inl err \<Rightarrow> (1, None)
     | Inr violations \<Rightarrow> if 0 < length violations then (1, Some (''fail'', violations)) else (0, Some (''pass'', violations))))"

definition worker_main :: "process \<Rightarrow> worker_event list \<Rightarrow> db mdb \<Rightarrow> nat \<times> db mdb" where
  "worker_main p evs m = (case start p of
     Inl err \<Rightarrow> (1, m)
   | Inr cfg \<Rightarrow> (0, m\<lparr>mdb_state := fst (Run (WorkerBatchSize cfg) evs (mdb_state m, None))\<rparr>))"

text \<open>\<open>get\<close> is the status of the answer to a GET, \<open>None\<close> when there is none within two seconds.\<close>

definition healthcheck_main :: "(string \<Rightarrow> string) \<Rightarrow> (string \<Rightarrow> int option) \<Rightarrow> nat" where
  "healthcheck_main getenv get =
    (let port = (if getenv ''HTTP_PORT'' = [] then ''8080'' else getenv ''HTTP_PORT'') in
     case get (''http://127.0.0.1:'' @ port @ ''/health/live'') of
       None \<Rightarrow> 1 | Some status \<Rightarrow> if status \<noteq> 200 then 1 else 0)"

text \<open>The exit status, the lines printed, the files written and the database.\<close>

definition loadgen_summary :: "report \<Rightarrow> string list" where
  "loadgen_summary r = (let product = Status_Product (Report_Final r) in
    [''successful='' @ fmt_d (Report_Successful r) @ '' sold_out='' @ fmt_d (Report_SoldOut r) @ '' available='' @ fmt_d (Product_Available product)
       @ '' reserved='' @ fmt_d (Product_Reserved product) @ '' sold='' @ fmt_d (Product_Sold product)
       @ '' zero_overselling='' @ fmt_t (Report_ZeroOverselling r),
     ''frontend=http://localhost:5173 api=http://localhost:8080 report=reports/local_portfolio_report.md''])"

definition loadgen_main :: "platform \<Rightarrow> process \<Rightarrow> string \<Rightarrow> int \<Rightarrow> run_env \<Rightarrow> db mdb
    \<Rightarrow> nat \<times> string list \<times> (string \<times> string) list \<times> db mdb" where
  "loadgen_main P p mode attempts w m =
    (if attempts < 1 \<or> 1000 < attempts then (1, [], [], m)
     else case Load (Proc_parsers p) (Proc_getenv p) of Inl err \<Rightarrow> (1, [], [], m) | Inr cfg \<Rightarrow>
     (case Open (Proc_ParseConfig p) (Proc_connects p) (Proc_pings p) (DatabaseURL cfg) of Inl err \<Rightarrow> (1, [], [], m) | Inr _ \<Rightarrow>
     (case migrations p m of (Inl err, m1) \<Rightarrow> (1, [], [], m1) | (Inr _, m1) \<Rightarrow>
      if mode = ''reset'' then
        (case ResetDemo (Proc_env p) 0 (mdb_state m1) 100 of
           (Inl err, d) \<Rightarrow> (1, [], [], m1\<lparr>mdb_state := d\<rparr>)
         | (Inr _, d) \<Rightarrow> (0, [''demo reset: 100 units''], [], m1\<lparr>mdb_state := d\<rparr>))
      else if mode \<noteq> ''demo'' then (1, [], [], m1)
      else (case run (New_Store (ReservationTTL cfg)) w (mdb_state m1) attempts of
           (Inl err, d) \<Rightarrow> (1, [], [], m1\<lparr>mdb_state := d\<rparr>)
         | (Inr r, d) \<Rightarrow> (case writeReport P r of
               (Some err, files) \<Rightarrow> (1, [], files, m1\<lparr>mdb_state := d\<rparr>)
             | (None, files) \<Rightarrow> (if Report_ZeroOverselling r then 0 else 1, loadgen_summary r, files, m1\<lparr>mdb_state := d\<rparr>))))))"

definition api_start :: "process \<Rightarrow> db mdb \<Rightarrow> (nat + Config \<times> Server) \<times> db mdb" where
  "api_start p m = (case start p of Inl err \<Rightarrow> (Inl 1, m) | Inr cfg \<Rightarrow>
     (case (if RunMigrations cfg then migrations p m else (Inr (), m)) of
        (Inl err, m1) \<Rightarrow> (Inl 1, m1)
      | (Inr _, m1) \<Rightarrow>
        (case (if PublicDemoSeedEnabled cfg then map_prod (map_sum id (\<lambda>_. ())) id (EnsurePublicDemo (Proc_env p) (mdb_state m1) 100)
               else (Inr (), mdb_state m1)) of
           (Inl err, d) \<Rightarrow> (Inl 1, m1\<lparr>mdb_state := d\<rparr>)
         | (Inr _, d) \<Rightarrow> (Inr (cfg, NewWithMetrics cfg d), m1\<lparr>mdb_state := d\<rparr>))))"

fun is_request :: "service_event \<Rightarrow> bool" where
  "is_request (Http_Request w r) = True"
| "is_request (Worker_Event ev) = False"

definition api_main :: "process \<Rightarrow> weblib \<Rightarrow> service_event list \<Rightarrow> db mdb \<Rightarrow> nat \<times> db mdb" where
  "api_main p L evs m = (case api_start p m of
     (Inl code, m') \<Rightarrow> (code, m')
   | (Inr (cfg, srv), m') \<Rightarrow> (0, m'\<lparr>mdb_state := Srv_db (fold (service_step L cfg (New_Store (ReservationTTL cfg)))
        (if RunWorker cfg then evs else filter is_request evs) srv)\<rparr>))"

section \<open>The database across programs\<close>

text \<open>Migrations create and alter tables; what is asked of a script is that a reachable set of tables stays reachable.\<close>

definition keeps_reachable :: "Store \<Rightarrow> (string \<Rightarrow> db mdb \<Rightarrow> db mdb option) \<Rightarrow> bool" where
  "keeps_reachable s script \<longleftrightarrow> (\<forall>sql m m'. script sql m = Some m' \<longrightarrow> reachable s (mdb_state m) \<longrightarrow> reachable s (mdb_state m'))"

lemma check_applied_state: "mdb_state (snd (check_applied net n m v)) = mdb_state m"
  by (auto simp: check_applied_def Let_def split: fault.split option.split)

lemma apply_migration_reachable:
  "keeps_reachable s script \<Longrightarrow> reachable s (mdb_state m) \<Longrightarrow> reachable s (mdb_state (snd (apply_migration script net n m name sql v)))"
  unfolding keeps_reachable_def by (auto simp: apply_migration_def Let_def split: fault.split option.split if_splits)

lemma migrate_file_reachable:
  assumes "keeps_reachable s script" "reachable s (mdb_state m)"
  shows "reachable s (mdb_state (snd (migrate_file script net n f m)))"
proof -
  have c: "mdb_state m1 = mdb_state m" if "check_applied net n m v = (x, m1)" for v x m1
    using check_applied_state [of net n m v] that by simp
  show ?thesis
    using assms apply_migration_reachable [OF assms(1)]
    by (auto simp: migrate_file_def Let_def split: option.split prod.split sum.split bool.split dest: c)
qed

lemma migrate_files_reachable:
  "keeps_reachable s script \<Longrightarrow> reachable s (mdb_state m) \<Longrightarrow> reachable s (mdb_state (snd (migrate_files script net n fs m)))"
proof (induction script net n fs m rule: migrate_files.induct)
  case (2 script net n f fs m)
  then show ?case
    using migrate_file_reachable [OF 2(2,3), of net n f] by (auto split: prod.split sum.split)
qed simp

lemma Migrate_reachable:
  "keeps_reachable s script \<Longrightarrow> reachable s (mdb_state m) \<Longrightarrow> reachable s (mdb_state (snd (Migrate script net dir m)))"
  by (auto simp: Migrate_def migrate_files_reachable split: option.split)

lemma Ensure_reachable: "reachable s d \<Longrightarrow> reachable s (snd (EnsurePublicDemo e d n))"
  using reachable_perform [of s d e e "Call_EnsureDemo n"] by simp

lemma api_start_cases:
  assumes "api_start p m = (res, m')"
  obtains "res = Inl 1" "m' = m"
  | "res = Inl 1" "m' = snd (migrations p m)"
  | m1 d where "m1 \<in> {m, snd (migrations p m)}" "d \<in> {mdb_state m1, snd (EnsurePublicDemo (Proc_env p) (mdb_state m1) 100)}"
      "m' = m1\<lparr>mdb_state := d\<rparr>" "res = Inl 1 \<or> (\<exists>cfg. start p = Inr cfg \<and> res = Inr (cfg, NewWithMetrics cfg d))"
proof (cases "start p")
  case (Inl err)
  then show ?thesis using assms that(1) by (simp add: api_start_def)
next
  case (Inr cfg)
  define mig where "mig = (if RunMigrations cfg then migrations p m else (Inr (), m))"
  define sd where "sd = (if PublicDemoSeedEnabled cfg then map_prod (map_sum id (\<lambda>_. ())) id (EnsurePublicDemo (Proc_env p) (mdb_state (snd mig)) 100)
               else (Inr (), mdb_state (snd mig)))"
  have eq: "api_start p m = (case fst mig of Inl err \<Rightarrow> (Inl 1, snd mig) | Inr _ \<Rightarrow> (case fst sd of
      Inl err \<Rightarrow> (Inl 1, (snd mig)\<lparr>mdb_state := snd sd\<rparr>)
    | Inr _ \<Rightarrow> (Inr (cfg, NewWithMetrics cfg (snd sd)), (snd mig)\<lparr>mdb_state := snd sd\<rparr>)))"
    unfolding api_start_def Inr sum.case mig_def [symmetric] by (simp add: sd_def case_prod_unfold split: sum.split)
  have m1: "snd mig \<in> {m, snd (migrations p m)}" by (simp add: mig_def)
  have d: "snd sd \<in> {mdb_state (snd mig), snd (EnsurePublicDemo (Proc_env p) (mdb_state (snd mig)) 100)}"
    by (simp add: sd_def)
  show ?thesis
  proof (cases "fst mig")
    case (Inl err)
    then show ?thesis using that(1,2) m1 eq assms by auto
  next
    case (Inr u)
    then show ?thesis
      using that(3) [OF m1 d] eq assms \<open>start p = Inr cfg\<close> by (auto split: sum.splits)
  qed
qed

lemma api_start_reachable:
  assumes "keeps_reachable s (Proc_script p)" "reachable s (mdb_state m)" "api_start p m = (res, m')"
  shows "reachable s (mdb_state m')" "\<And>cfg srv. res = Inr (cfg, srv) \<Longrightarrow> Srv_db srv = mdb_state m' \<and> start p = Inr cfg"
proof -
  have mig: "reachable s (mdb_state (snd (migrations p m)))" by (rule Migrate_reachable [OF assms(1,2)])
  have "reachable s (mdb_state m') \<and> (\<forall>cfg srv. res = Inr (cfg, srv) \<longrightarrow> Srv_db srv = mdb_state m' \<and> start p = Inr cfg)"
    using assms(3) by (cases rule: api_start_cases) (use mig assms(2) Ensure_reachable in \<open>auto simp: NewWithMetrics_def\<close>)
  then show "reachable s (mdb_state m')" "\<And>cfg srv. res = Inr (cfg, srv) \<Longrightarrow> Srv_db srv = mdb_state m' \<and> start p = Inr cfg" by blast+
qed

lemma api_main_reachable:
  assumes "keeps_reachable s (Proc_script p)" "reachable s (mdb_state m)"
    and "\<And>cfg. start p = Inr cfg \<Longrightarrow> s = New_Store (ReservationTTL cfg)"
  shows "reachable s (mdb_state (snd (api_main p L evs m)))"
proof -
  obtain res m' where a: "api_start p m = (res, m')" by (cases "api_start p m")
  note r = api_start_reachable [OF assms(1,2) a]
  show ?thesis
  proof (cases res)
    case (Inl code)
    then show ?thesis using a r(1) by (simp add: api_main_def)
  next
    case (Inr x)
    obtain cfg srv where x: "x = (cfg, srv)" by (cases x)
    have "reachable s (Srv_db srv)" "s = New_Store (ReservationTTL cfg)" using r(1) r(2) [of cfg srv] Inr x assms(3) by auto
    from service_reachable [OF this(1)] this(2) show ?thesis using a Inr x by (simp add: api_main_def)
  qed
qed

lemma invariant_check_passes:
  assumes "start p = Inr cfg" "fault (Proc_env p) 0 = NoFault" "reachable s (mdb_state m)"
  shows "invariant_check_main p m = (0, Some (''pass'', []))"
  using good_passes [OF reachable_good [OF assms(3)], of "Proc_env p"] assms(1,2) by (simp add: invariant_check_main_def)

section \<open>Seeding\<close>

lemma ResetDemo_present: "ResetDemo e b d n = (Inr st, d') \<Longrightarrow> ''FLASH-100'' \<in> products_sku ` set (products d')"
  by (auto simp: ResetDemo_def commit_Inr insert_products_def insert_inventory_def insert_flash_sales_def demo_product_def
      split: if_splits sum.splits prod.splits)

lemma Ensure_again:
  assumes "EnsurePublicDemo e d n = (Inr st, d')" "all_ok e'"
  shows "EnsurePublicDemo e' d' n' = (DemoStatus e' 1 d', d')"
proof -
  have "''FLASH-100'' \<in> products_sku ` set (products d')"
    using assms(1) ResetDemo_present by (fastforce simp: EnsurePublicDemo_def split: sum.splits if_splits)
  then show ?thesis using assms(2) by (simp add: EnsurePublicDemo_def)
qed

lemma DemoStatus_env:
  assumes "DemoStatus e b d = Inr st" "all_ok e'"
  shows "DemoStatus e' b' d = Inr st"
  using assms by (auto simp: DemoStatus_def split: sum.splits)

end
