(* ===== verification/Walkthrough.thy ===== *)
theory Walkthrough
  imports Scenario Commands
begin

text \<open>
  Concrete inputs for the components around the store, in the style of the concrete run of the store: environment variables, a
  stand-in for the URL parser, a process, requests and schedules, and two databases in which unusual sales run.
\<close>

section \<open>Processes\<close>

definition demo_url :: "string \<Rightarrow> url option" where
  "demo_url s = (case strip_prefix ''https://'' s of
     Some host \<Rightarrow> Some \<lparr>URL_Scheme = ''https'', URL_Host = host, URL_Query = (\<lambda>_. [])\<rparr>
   | None \<Rightarrow> (case strip_prefix ''postgres://'' s of
       Some rest \<Rightarrow> Some \<lparr>URL_Scheme = ''postgres'', URL_Host = ''db'', URL_Query = (\<lambda>k. if HasSuffix rest (k @ ''=require'') then ''require'' else [])\<rparr>
     | None \<Rightarrow> None))"

definition demo_parsers :: parsers where
  "demo_parsers = \<lparr>url_Parse = demo_url, ParsePrefix = (\<lambda>s. if s = ''10.0.0.0/8'' then Some \<lparr>Prefix_Bits = 8, Prefix_Contains = (\<lambda>a. take 3 a = ''10.'')\<rparr> else None),
     Sum256 = demo_hash\<rparr>"

definition admin_digest :: "8 word list" where
  "admin_digest = replicate 32 0xA7"

definition production_vars :: "string \<Rightarrow> string" where
  "production_vars = (\<lambda>_. [])(''APP_ENV'' := '' production '', ''PUBLIC_BASE_URL'' := ''https://shop'', ''DATABASE_URL'' := ''postgres://db?sslmode=require'',
     ''CORS_ALLOWED_ORIGINS'' := ''https://shop, https://www'', ''ADMIN_API_KEY_HASH'' := EncodeToString admin_digest, ''TRUSTED_PROXY_CIDRS'' := ''10.0.0.0/8'',
     ''RUN_MIGRATIONS'' := ''true'')"

definition local_vars :: "string \<Rightarrow> string" where
  "local_vars = (\<lambda>_. [])(''DATABASE_URL'' := ''postgres://local'', ''DEMO_TOKEN'' := ''token'', ''RUN_WORKER'' := ''true'', ''PUBLIC_DEMO_SEED_ENABLED'' := ''1'')"

definition demo_pool :: pool_config where
  "demo_pool = \<lparr>Pool_MaxConns = 4, Pool_MinConns = 0, Pool_MaxConnLifetime = 3600 * 1000000000, Pool_RuntimeParams = Map.empty\<rparr>"

definition demo_process :: "(string \<Rightarrow> string) \<Rightarrow> process" where
  "demo_process vars = \<lparr>Proc_getenv = vars, Proc_parsers = demo_parsers, Proc_ParseConfig = (\<lambda>_. Some demo_pool), Proc_connects = True, Proc_pings = True,
     Proc_dir = Some [\<lparr>Entry_Name = ''001_init.sql'', Entry_IsDir = False, Entry_Contents = Some ''CREATE''\<rparr>],
     Proc_script = (\<lambda>sql m. Some m), Proc_net = (\<lambda>_. NoFault), Proc_env = demo_env 0 1000\<rparr>"

definition loaded :: "(string \<Rightarrow> string) \<Rightarrow> Config" where
  "loaded vars = (case Load demo_parsers vars of Inr cfg \<Rightarrow> cfg | Inl err \<Rightarrow> undefined)"

lemma trimmed:
  "TrimSpace [] = []" "TrimSpace '' production '' = ''production''" "TrimSpace ''https://shop'' = ''https://shop''" "TrimSpace ''true'' = ''true''"
  "TrimSpace ''1'' = ''1''" "TrimSpace ''token'' = ''token''" "TrimSpace (EncodeToString admin_digest) = EncodeToString admin_digest"
  "TrimSpace ''https://shop, https://www'' = ''https://shop, https://www''"
  by code_simp+

lemma listed:
  "split ''https://shop, https://www'' = [''https://shop'', ''https://www'']" "split ''http://localhost:5173'' = [''http://localhost:5173'']"
  "split [] = []" "split ''10.0.0.0/8'' = [''10.0.0.0/8'']"
  by code_simp+

lemmas load_simps = Load_def Let_def intValue_def durationValue_def boolValue_def env_value_def trimmed listed and_then_simps
  Load_checked_def Production_def ParseBool_def

lemma Load_local:
  "Load demo_parsers local_vars = Inr (loaded local_vars)"
  "AppEnv (loaded local_vars) = ''development''" "DemoToken (loaded local_vars) = ''token''"
  "ReservationTTL (loaded local_vars) = 120 * 1000000000" "RunWorker (loaded local_vars)" "PublicDemoSeedEnabled (loaded local_vars)"
  by (simp_all add: loaded_def local_vars_def load_simps prefixes_def)

lemma production_valid:
  "validateProduction demo_parsers production_vars c = Inr (c\<lparr>AdminAPIKeyHash := admin_digest\<rparr>)"
  if "PublicBaseURL c = ''https://shop''" "DatabaseURL c = ''postgres://db?sslmode=require''" "CORSAllowedOrigins c = [''https://shop'', ''https://www'']"
    "LogLevel c \<noteq> ''debug''" "\<not> DemoMode c" "\<not> DemoResetEnabled c"
proof -
  have "https demo_parsers ''https://shop''" "https demo_parsers ''https://www''" "requires_tls demo_parsers ''postgres://db?sslmode=require''"
    by code_simp+
  moreover have "\<forall>weak \<in> set weak_keys. length admin_digest \<noteq> length (Sum256 demo_parsers weak)"
    by (simp add: weak_keys_def demo_parsers_def demo_hash_def admin_digest_def)
  then have "\<forall>weak \<in> set weak_keys. admin_digest \<noteq> Sum256 demo_parsers weak" by fastforce
  moreover have "production_vars ''ADMIN_API_KEY_HASH'' = EncodeToString admin_digest" by (simp add: production_vars_def)
  moreover have "length admin_digest = 32" by (simp add: admin_digest_def)
  ultimately show ?thesis using that by (simp add: validateProduction_def trimmed DecodeString_Encode)
qed

lemma Load_production:
  "Load demo_parsers production_vars = Inr (loaded production_vars)"
  "AppEnv (loaded production_vars) = ''production''" "\<not> PublicMutationsEnabled (loaded production_vars)"
  "CORSAllowedOrigins (loaded production_vars) = [''https://shop'', ''https://www'']"
  "RunMigrations (loaded production_vars)" "AdminAPIKeyHash (loaded production_vars) = admin_digest"
proof -
  have v: "production_vars ''APP_ENV'' = '' production ''" "production_vars ''PUBLIC_BASE_URL'' = ''https://shop''"
    "production_vars ''DATABASE_URL'' = ''postgres://db?sslmode=require''" "production_vars ''CORS_ALLOWED_ORIGINS'' = ''https://shop, https://www''"
    "production_vars ''TRUSTED_PROXY_CIDRS'' = ''10.0.0.0/8''" "production_vars ''RUN_MIGRATIONS'' = ''true''"
    "\<And>name. name \<notin> {''APP_ENV'', ''PUBLIC_BASE_URL'', ''DATABASE_URL'', ''CORS_ALLOWED_ORIGINS'', ''ADMIN_API_KEY_HASH'', ''TRUSTED_PROXY_CIDRS'', ''RUN_MIGRATIONS''}
      \<Longrightarrow> production_vars name = []"
    by (simp_all add: production_vars_def)
  have "\<exists>ps. prefixes demo_parsers ''10.0.0.0/8'' = Inr ps" by (simp add: prefixes_def listed demo_parsers_def)
  then obtain ps where ps: "prefixes demo_parsers ''10.0.0.0/8'' = Inr ps" by blast
  show "Load demo_parsers production_vars = Inr (loaded production_vars)"
  "AppEnv (loaded production_vars) = ''production''" "\<not> PublicMutationsEnabled (loaded production_vars)"
  "CORSAllowedOrigins (loaded production_vars) = [''https://shop'', ''https://www'']"
  "RunMigrations (loaded production_vars)" "AdminAPIKeyHash (loaded production_vars) = admin_digest"
    by (simp_all add: loaded_def load_simps v ps production_valid)
qed

lemma demo_process_start:
  "start (demo_process local_vars) = Inr (loaded local_vars)" "start (demo_process production_vars) = Inr (loaded production_vars)"
  by (simp_all add: start_def demo_process_def Load_local(1) Load_production(1) OpenWithOptions_def PoolConfig_def Let_def)

lemma demo_version: "Cut ''001_init.sql'' (CHR ''_'') = (''001'', ''init.sql'', True)" "Atoi ''001'' = Some 1" "HasSuffix ''001_init.sql'' ''.sql''"
  by code_simp+

section \<open>Requests\<close>

definition demo_weblib :: weblib where
  "demo_weblib = \<lparr>ParseMediaType = (\<lambda>s. Some s), SplitHostPort = (\<lambda>s. Some (fst (Cut s (CHR '':'')))), ParseAddr = (\<lambda>s. if s = [] then None else Some s),
     web_Sum256 = demo_hash, build_Version = ''dev'', build_Commit = ''none'', build_Time = ''never''\<rparr>"

definition empty_body :: body where
  "empty_body = \<lparr>Body_CreateProduct = None, Body_UpdateProduct = None, Body_CreateSale = None, Body_Reservation = None, Body_Payment = None,
     Body_Empty = Some (), Body_Inventory = None, Body_Attempts = Some 10, Body_AtEOF = True\<rparr>"

definition demo_call_to :: "endpoint \<Rightarrow> Request" where
  "demo_call_to ep = \<lparr>Req_Method = ''POST'', Req_Endpoint = Inr ep,
     Req_Header = (\<lambda>_. [])(''Content-Type'' := ''application/json'', ''X-Demo-Token'' := ''token'', ''Idempotency-Key'' := ''visitor''),
     Req_RemoteAddr = ''192.0.2.7:4711'', Req_Body = empty_body, Req_ID = ''r-1''\<rparr>"

definition demo_schedule :: "nat \<Rightarrow> (nat \<times> env \<times> int) list" where
  "demo_schedule n = map (\<lambda>i. (i, demo_env (int i) 2000, 1000000 * int i)) [0..<n]"

definition demo_web :: web_env where
  "demo_web = \<lparr>Web_env = demo_env 200 1000, Web_env2 = demo_env 201 1500, Web_now = 0, Web_rand = Some (replicate 16 1), Web_ping = True,
     Web_elapsed = 3, Web_schedule = demo_schedule 10, Web_env3 = demo_env 202 3000\<rparr>"

definition demo_platform :: platform where
  "demo_platform = \<lparr>Format_RFC3339 = fmt_d, Sprintf_2f = (\<lambda>x. fmt_d \<lfloor>x\<rfloor>), MarshalIndent = (\<lambda>r. Inr ''{}''), MkdirAll = (\<lambda>_. None),
     WriteFile = (\<lambda>_ _. None)\<rparr>"

lemma demo_platform_ok: "platform_ok demo_platform"
  by (simp add: platform_ok_def demo_platform_def)

definition demo_run :: run_env where
  "demo_run = \<lparr>Run_reset = demo_env 200 1000, Run_proofs = replicate 100 (demo_env 201 1500), Run_get = demo_env 202 1600,
     Run_expire = demo_env 203 1700, Run_reset2 = demo_env 204 1800, Run_schedule = demo_schedule 150, Run_status = demo_env 205 3000, Run_stamp = 1800000,
     Run_now = 1800000, Run_version = ''go1.25''\<rparr>"

lemma demo_schedule_ok: "n \<le> 200 \<Longrightarrow> lo \<le> 2000 \<Longrightarrow> 2000 < hi \<Longrightarrow> schedule_ok n lo hi (demo_schedule n)"
proof -
  assume n: "n \<le> 200" and t: "lo \<le> 2000" "2000 < hi"
  have "distinct (map (\<lambda>i. demo_id (int i) k) [0..<n])" if "k \<in> {0, 1, 2}" for k :: int
    using n that by (auto simp: distinct_map inj_on_def)
  then show ?thesis
    using t by (auto simp: schedule_ok_def demo_schedule_def comp_def image_image)
qed

lemma demo_run_ok: "run_ok demo_run 150"
proof -
  have "hd (replicate 100 (demo_env 201 1500)) = demo_env 201 1500" by (simp add: hd_replicate)
  then show ?thesis
    using demo_schedule_ok [of 150 1800 "1800 + 365 * 24 * 3600 * 1000000"] by (simp add: run_ok_def demo_run_def int8_def)
qed

section \<open>Unusual sales\<close>

definition opened :: "string \<Rightarrow> int \<Rightarrow> db \<Rightarrow> db" where
  "opened pid n d = perform demo_store (demo_env 6 2200) (demo_env 6 2200) (perform demo_store (demo_env 5 2100) (demo_env 5 2100) d
     (Call_CreateSale \<lparr>CreateSale_ProductID = pid, CreateSale_StartsAt = 2000, CreateSale_EndsAt = 9000, CreateSale_AllocatedStock = n,
        CreateSale_MaxQuantityPerUser = n\<rparr>)) (Call_SetSaleState (demo_id 5 0) SaleActive)"

definition opened_sale :: "string \<Rightarrow> int \<Rightarrow> flash_sales_row" where
  "opened_sale pid n = \<lparr>flash_sales_id = demo_id 5 0, flash_sales_product_id = pid, flash_sales_starts_at = 2000, flash_sales_ends_at = 9000,
     flash_sales_allocated_stock = n, flash_sales_remaining_stock = n, flash_sales_max_quantity_per_user = n, flash_sales_state = SaleActive,
     flash_sales_created_at = 2100, flash_sales_updated_at = 2200\<rparr>"

lemma opened_eq:
  assumes "demo_id 5 0 \<notin> flash_sales_id ` set (flash_sales d)" "pid \<in> products_id ` set (products d)" "pid \<noteq> []" "n \<in> {1..100}"
  shows "opened pid n d = d\<lparr>flash_sales := flash_sales d @ [opened_sale pid n]\<rparr>"
proof -
  let ?d1 = "d\<lparr>flash_sales := flash_sales d @ [(opened_sale pid n)\<lparr>flash_sales_state := SaleDraft, flash_sales_updated_at := 2100\<rparr>]\<rparr>"
  have other: "\<forall>x \<in> set (flash_sales d). flash_sales_id x \<noteq> demo_id 5 0" using assms(1) by (metis imageI)
  have "perform demo_store (demo_env 5 2100) (demo_env 5 2100) d (Call_CreateSale \<lparr>CreateSale_ProductID = pid, CreateSale_StartsAt = 2000,
      CreateSale_EndsAt = 9000, CreateSale_AllocatedStock = n, CreateSale_MaxQuantityPerUser = n\<rparr>) = ?d1"
    using assms by (simp add: CreateSale_def autocommit_def commit_def insert_flash_sales_def flash_sales_check_def int4_def opened_sale_def Let_def)
  moreover have "update_flash_sales ?d1 (\<lambda>r. flash_sales_id r = demo_id 5 0) (\<lambda>r. r\<lparr>flash_sales_state := SaleActive, flash_sales_updated_at := 2200\<rparr>)
      = Inr (d\<lparr>flash_sales := flash_sales d @ [opened_sale pid n]\<rparr>, rows_where (\<lambda>r. flash_sales_id r = demo_id 5 0) (flash_sales ?d1))"
    using other assms(4) by (simp add: update_flash_sales_def checked_update_def list_all_iff update_where_def opened_sale_def flash_sales_check_def int4_def
      cong: map_cong)
  moreover have "perform demo_store (demo_env 6 2200) (demo_env 6 2200) ?d1 (Call_SetSaleState (demo_id 5 0) SaleActive)
      = snd (autocommit (demo_env 6 2200) 0 ?d1 (sql_set_sale_state (demo_env 6 2200) ?d1 (demo_id 5 0) SaleActive))"
    by (simp add: SetSaleState_def split: prod.split sum.split)
  ultimately show ?thesis by (simp add: opened_def sql_set_sale_state_def autocommit_def commit_def)
qed

text \<open>A second sale of the only unit, opened after alice reserved it through the first one.\<close>

definition rival_db :: db where
  "rival_db = opened (demo_id 0 0) 1 booked_db"

text \<open>A product for 4611686018427387905 minor units; eight of them cost 8 modulo 2 to the 64.\<close>

definition pricey_db :: db where
  "pricey_db = opened (demo_id 4 0) 8 (perform demo_store (demo_env 4 2000) (demo_env 4 2000) empty_db
       (Call_CreateProduct \<lparr>CreateProduct_SKU = ''X'', CreateProduct_Name = ''X'', CreateProduct_Description = ''X'', CreateProduct_PriceMinor = 4611686018427387905,
          CreateProduct_Currency = ''THB'', CreateProduct_Inventory = 8, CreateProduct_Active = True\<rparr>))"

lemma unusual_reachable: "reachable demo_store rival_db" "reachable demo_store pricey_db"
  unfolding rival_db_def pricey_db_def opened_def by (intro reachable_perform booked_db_reachable reachable.start)+

lemma rival_db_eq: "rival_db = booked_db\<lparr>flash_sales := flash_sales booked_db @ [opened_sale (demo_id 0 0) 1]\<rparr>"
  unfolding rival_db_def by (rule opened_eq) (simp_all add: demo_reserve(2) update_where_def demo_sale_def demo_product_def)

lemma rival_facts:
  "verdict (demo_env 7 2500) rival_db (demo_id 5 0) ''bob'' 1 = Some sold_out"
  "''key-2'' \<notin> idempotency_keys_key ` set (idempotency_keys rival_db)"
  "opened_sale (demo_id 0 0) 1 \<in> set (flash_sales rival_db)"
proof -
  have "sql_sale_product rival_db (demo_id 5 0) = Some (opened_sale (demo_id 0 0) 1, demo_product (demo_env 0 1000) (demo_id 0 0))"
    by (simp add: rival_db_eq demo_reserve(2) sql_sale_product_def update_where_def demo_sale_def demo_product_def opened_sale_def)
  then show "verdict (demo_env 7 2500) rival_db (demo_id 5 0) ''bob'' 1 = Some sold_out"
    by (simp add: verdict_def sale_open_def user_units_def available_units_def rival_db_eq demo_reserve(2) update_where_def)
      (simp add: opened_sale_def demo_product_def demo_inventory_def)
  show "''key-2'' \<notin> idempotency_keys_key ` set (idempotency_keys rival_db)" "opened_sale (demo_id 0 0) 1 \<in> set (flash_sales rival_db)"
    by (simp_all add: rival_db_eq demo_reserve(2))
qed

definition pricey_product :: products_row where
  "pricey_product = \<lparr>products_id = demo_id 4 0, products_sku = ''X'', products_name = ''X'', products_description = ''X'',
     products_price_minor = 4611686018427387905, products_currency = ''THB'', products_active = True, products_created_at = 2000, products_updated_at = 2000\<rparr>"

lemma pricey_db_eq:
  "pricey_db = empty_db\<lparr>products := [pricey_product], inventory := [\<lparr>inventory_product_id = demo_id 4 0, inventory_available = 8, inventory_reserved = 0,
     inventory_sold = 0, inventory_expected_total = 8, inventory_updated_at = 2000\<rparr>], flash_sales := [opened_sale (demo_id 4 0) 8]\<rparr>"
proof -
  have t: "TrimSpace ''X'' = ''X''" "TrimSpace ''THB'' = ''THB''" "ToUpper ''THB'' = ''THB''" "char_length ''X'' = 1" "char_length ''THB'' = 3" by code_simp+
  have "perform demo_store (demo_env 4 2000) (demo_env 4 2000) empty_db (Call_CreateProduct \<lparr>CreateProduct_SKU = ''X'', CreateProduct_Name = ''X'',
      CreateProduct_Description = ''X'', CreateProduct_PriceMinor = 4611686018427387905, CreateProduct_Currency = ''THB'', CreateProduct_Inventory = 8,
      CreateProduct_Active = True\<rparr>) = empty_db\<lparr>products := [pricey_product], inventory := [\<lparr>inventory_product_id = demo_id 4 0, inventory_available = 8,
      inventory_reserved = 0, inventory_sold = 0, inventory_expected_total = 8, inventory_updated_at = 2000\<rparr>]\<rparr>"
    by (simp add: CreateProduct_def create_invalid_def t insert_products_def insert_inventory_def products_check_def inventory_check_def
      int4_def int8_def commit_def pricey_product_def empty_db_def Let_def)
  moreover have "products_id pricey_product = demo_id 4 0" by (simp add: pricey_product_def)
  ultimately show ?thesis by (simp add: pricey_db_def opened_eq empty_db_def)
qed

lemma pricey_facts:
  "verdict (demo_env 7 2500) pricey_db (demo_id 5 0) ''bob'' 8 = None"
  "sql_sale_product pricey_db (demo_id 5 0) = Some (opened_sale (demo_id 4 0) 8, pricey_product)"
  "fresh_ids (demo_env 7 2500) pricey_db (demo_id 7 0) (demo_id 7 1) (demo_id 7 2)" "idempotency_keys pricey_db = []"
proof -
  show sp: "sql_sale_product pricey_db (demo_id 5 0) = Some (opened_sale (demo_id 4 0) 8, pricey_product)"
    by (simp add: pricey_db_eq empty_db_def sql_sale_product_def pricey_product_def opened_sale_def)
  show "verdict (demo_env 7 2500) pricey_db (demo_id 5 0) ''bob'' 8 = None"
    unfolding verdict_def sp
    by (simp add: sale_open_def user_units_def available_units_def pricey_db_eq empty_db_def) (simp add: opened_sale_def pricey_product_def)
  show "fresh_ids (demo_env 7 2500) pricey_db (demo_id 7 0) (demo_id 7 1) (demo_id 7 2)" "idempotency_keys pricey_db = []"
    by (simp_all add: fresh_ids_def pricey_db_eq empty_db_def)
qed

end
