(* ===== verification/PublicDemo.thy ===== *)
theory PublicDemo
  imports ReserveEffect Demo
begin

text \<open>
  The action budget of the anonymous demo (\<open>ReservePublicDemo\<close> in \<open>src/internal/store/demo.go\<close>): how many actions of the last
  minute an admission, and the reservation that follows it, can leave behind.
\<close>


lemma recent_delete_eq: "sql_recent_actions e (sql_delete_expired e d) = sql_recent_actions e d"
proof -
  have "filter (\<lambda>a. db_now e - 60 * 1000000 < public_demo_actions_created_at a)
      (filter (\<lambda>a. \<not> public_demo_actions_created_at a < db_now e - 24 * 3600 * 1000000) xs)
    = filter (\<lambda>a. db_now e - 60 * 1000000 < public_demo_actions_created_at a) xs" for xs
    by (induction xs) auto
  from this [of "public_demo_actions d"] show ?thesis by (simp add: sql_recent_actions_def sql_delete_expired_def)
qed

lemma demo_admit_recent: "sql_recent_actions e (snd (demo_admit e d key m)) \<le> max m (sql_recent_actions e d)"
proof -
  have "sql_recent_actions e d1 \<le> m" if "insert_public_demo_actions (sql_delete_expired e d) a = Inr d1"
      "sql_recent_actions e (sql_delete_expired e d) < m" for a d1
    using that by (auto simp: insert_public_demo_actions_def sql_recent_actions_def split: if_splits)
  then show ?thesis
    unfolding demo_admit_def by (auto simp: snd_commit recent_delete_eq le_max_iff_disj not_le split: sum.split)
qed

lemma demo_admit_refused:
  assumes "all_ok e" "m \<le> sql_recent_actions e d" "key \<notin> public_demo_actions_idempotency_key ` set (public_demo_actions d)"
  shows "demo_admit e d key m = (Inl (domain_error ''PUBLIC_DEMO_LIMIT_REACHED''
         ''The public demo action budget is exhausted; retry later'' 429), d)"
proof -
  have "key \<notin> public_demo_actions_idempotency_key ` set (public_demo_actions (sql_delete_expired e d))"
    using assms(3) by (auto simp: sql_delete_expired_def)
  then show ?thesis using assms(1,2) by (simp add: demo_admit_def recent_delete_eq)
qed

lemma Reserve_actions:
  assumes "good d"
  shows "public_demo_actions (snd (Reserve s e d sid req)) = public_demo_actions d"
proof (cases "Reserve s e d sid req")
  case (Pair res d')
  have sc: "schema_ok d" using assms by (simp add: good_def ledger_def)
  show ?thesis by (rule Reserve_cases [OF Pair sc]) (use Pair in simp_all)
qed

lemma public_reserve_recent:
  assumes g: "good d"
  shows "sql_recent_actions e (snd (ReservePublicDemo s e e' d key m)) \<le> max m (sql_recent_actions e d)"
proof -
  have "sql_recent_actions e (snd (Reserve s e' d1 sid req)) = sql_recent_actions e d1"
    if "demo_admit e d (TrimSpace key) m = (res, d1)" for res d1 sid req
    using Reserve_actions [of d1 s e' sid req] demo_admit_good [OF g, of e "TrimSpace key" m] that
    by (simp add: sql_recent_actions_def)
  then show ?thesis
    using demo_admit_recent [of e d "TrimSpace key" m]
    unfolding ReservePublicDemo_def Let_def by (auto split: prod.split sum.split)
qed

end
