(* ===== verification/Guardrails.thy ===== *)
theory Guardrails
  imports GoLib
begin

text \<open>
  The repository guardrails (\<open>src/cmd/guardrails/main.go\<close>): a walk over the working tree that looks for missing files, secrets and
  oversized files.

  A file carries its size, \<open>None\<close> when \<open>Info\<close> fails, and its contents, \<open>None\<close> when reading it fails (a link to a directory, for instance, is
  a file that cannot be read). A directory carries whether it can be listed and its entries in the order in which \<open>os.ReadDir\<close> lists them. \<open>walk\<close> is
  \<open>filepath.WalkDir\<close> with the program's callback: an error of the callback ends the walk, \<open>SkipDir\<close> prunes a directory.

  The lemmas show that the verdict is the one of a plain specification over the list of files outside the pruned directories.
\<close>

datatype node =
    Node_File "int option" "string option"
  | Node_Dir bool "(string \<times> node) list"

definition maxFileSize :: int where
  "maxFileSize = 5 * 2 ^ 20"

definition required :: "string list" where
  "required = [''README.md'', ''.env.example'', ''Dockerfile'', ''docker-compose.yml'', ''go.mod'',
     ''db/migrations/001_init.sql'', ''internal/store/reservation.go'', ''loadtest/flash-sale.js'',
     ''web/package-lock.json'', ''docs/portfolio-review.md'', ''reports/local_portfolio_report.md'']"

definition secretMarkers :: "string list" where
  "secretMarkers = [''-----BEGIN '' @ ''PRIVATE KEY-----'', ''-----BEGIN RSA '' @ ''PRIVATE KEY-----'', ''ghp'' @ ''_'',
     ''github'' @ ''_pat_'', ''sk'' @ ''_live_'', ''AK'' @ ''IA'']"

fun Contains :: "string \<Rightarrow> string \<Rightarrow> bool" where
  "Contains [] m \<longleftrightarrow> m = []"
| "Contains (c # body) m \<longleftrightarrow> take (length m) (c # body) = m \<or> Contains body m"

definition Join_path :: "string \<Rightarrow> string \<Rightarrow> string" where
  "Join_path path name = (if path = ''.'' then name else path @ ''/'' @ name)"

definition pruned :: "string \<Rightarrow> string \<Rightarrow> bool" where
  "pruned path name \<longleftrightarrow> path \<noteq> ''.'' \<and> name \<in> {''.git'', ''node_modules'', ''dist'', ''.playwright-cli'', ''tmp''}"

definition secret_name :: "string \<Rightarrow> bool" where
  "secret_name name \<longleftrightarrow> name = ''.env'' \<or> HasSuffix name ''.pem'' \<or> HasSuffix name ''.key''"

definition scan_file :: "string \<Rightarrow> string \<Rightarrow> int option \<Rightarrow> string option \<Rightarrow> go_error + string list" where
  "scan_file path name info body =
    (if secret_name name then Inr [''forbidden secret file: '' @ path]
     else case info of None \<Rightarrow> Inl (OtherError ''fs'') | Some size' \<Rightarrow>
       if maxFileSize < size' then Inr [''file exceeds 5 MiB: '' @ path @ '' ('' @ fmt_d size' @ '' bytes)'']
       else (case body of None \<Rightarrow> Inl (OtherError ''fs'') | Some b \<Rightarrow>
         Inr (map (\<lambda>marker. ''possible secret marker '' @ [CHR 0x22] @ marker @ [CHR 0x22] @ '' in '' @ path)
           (filter (Contains b) secretMarkers))))"

text \<open>The walk returns what it appended to \<open>failures\<close>, and the error that ended it, if any.\<close>

fun walk :: "string \<Rightarrow> string \<Rightarrow> node \<Rightarrow> string list \<times> go_error option"
  and walk_entries :: "string \<Rightarrow> (string \<times> node) list \<Rightarrow> string list \<times> go_error option" where
  "walk path name (Node_File info body) = (case scan_file path name info body of Inl err \<Rightarrow> ([], Some err) | Inr fs \<Rightarrow> (fs, None))"
| "walk path name (Node_Dir readable entries) =
    (if pruned path name then ([], None)
     else if \<not> readable then ([], Some (OtherError ''fs'')) else walk_entries path entries)"
| "walk_entries path [] = ([], None)"
| "walk_entries path ((name, x) # rest) = (case walk (Join_path path name) name x of
     (fs, Some err) \<Rightarrow> (fs, Some err)
   | (fs, None) \<Rightarrow> (case walk_entries path rest of (fs', res) \<Rightarrow> (fs @ fs', res)))"

text \<open>\<open>exists_path\<close> is \<open>os.Stat\<close>; the result is the exit status and the lines on standard error or output.\<close>

definition guardrails_main :: "(string \<Rightarrow> bool) \<Rightarrow> node \<Rightarrow> nat \<times> string list" where
  "guardrails_main exists_path root =
    (let missing = map (\<lambda>path. ''missing required file: '' @ path) (filter (\<lambda>path. \<not> exists_path path) required) in
     case walk ''.'' ''.'' root of
       (fs, Some err) \<Rightarrow> (1, [''guardrail scan failed''])
     | (fs, None) \<Rightarrow> if missing @ fs \<noteq> [] then (1, missing @ fs) else (0, [''repository guardrails: PASS'']))"

section \<open>The verdict\<close>

text \<open>All files outside pruned directories, with their paths, and whether every directory on the way can be listed.\<close>

fun visible :: "string \<Rightarrow> string \<Rightarrow> node \<Rightarrow> (string \<times> string \<times> int option \<times> string option) list"
  and visible_entries :: "string \<Rightarrow> (string \<times> node) list \<Rightarrow> (string \<times> string \<times> int option \<times> string option) list" where
  "visible path name (Node_File info body) = [(path, name, info, body)]"
| "visible path name (Node_Dir readable entries) = (if pruned path name then [] else visible_entries path entries)"
| "visible_entries path [] = []"
| "visible_entries path ((name, x) # rest) = visible (Join_path path name) name x @ visible_entries path rest"

fun listable :: "string \<Rightarrow> string \<Rightarrow> node \<Rightarrow> bool" and listable_entries :: "string \<Rightarrow> (string \<times> node) list \<Rightarrow> bool" where
  "listable path name (Node_File info body) \<longleftrightarrow> True"
| "listable path name (Node_Dir readable entries) \<longleftrightarrow> pruned path name \<or> readable \<and> listable_entries path entries"
| "listable_entries path [] \<longleftrightarrow> True"
| "listable_entries path ((name, x) # rest) \<longleftrightarrow> listable (Join_path path name) name x \<and> listable_entries path rest"

definition harmless :: "string \<times> string \<times> int option \<times> string option \<Rightarrow> bool" where
  "harmless f \<longleftrightarrow> (case f of (path, name, info, body) \<Rightarrow> \<not> secret_name name
     \<and> (\<exists>n b. info = Some n \<and> body = Some b \<and> n \<le> maxFileSize \<and> (\<forall>m \<in> set secretMarkers. \<nexists>u v. b = u @ m @ v)))"

lemma Contains_iff: "Contains b m \<longleftrightarrow> (\<exists>u v. b = u @ m @ v)"
proof (induction b)
  case (Cons c b)
  have "(\<exists>u v. c # b = u @ m @ v) \<longleftrightarrow> (\<exists>v. c # b = m @ v) \<or> (\<exists>u v. b = u @ m @ v)"
    by (metis append_Cons append_Nil list.exhaust list.inject)
  moreover have "(\<exists>v. c # b = m @ v) \<longleftrightarrow> take (length m) (c # b) = m"
    by (metis append_eq_conv_conj)
  ultimately show ?case using Cons by auto
qed auto

lemma scan_file_clean: "scan_file path name info body = Inr [] \<longleftrightarrow> harmless (path, name, info, body)"
  by (auto simp: scan_file_def harmless_def Contains_iff filter_empty_conv split: option.split)

lemma walk_clean:
  "walk path name x = ([], None) \<longleftrightarrow> listable path name x \<and> list_all harmless (visible path name x)"
  "walk_entries path xs = ([], None) \<longleftrightarrow> listable_entries path xs \<and> list_all harmless (visible_entries path xs)"
proof (induction path name x and path xs rule: walk_walk_entries.induct)
  case (1 path name info body)
  then show ?case using scan_file_clean [of path name info body] by (auto split: sum.split)
next
  case (4 path name x rest)
  then show ?case by (auto split: prod.split option.split)
qed auto

end
