(* ===== verification/Interleave.thy ===== *)
theory Interleave
  imports Prelude
begin

text \<open>
  Transactions that run side by side, as a library of its own. A \<open>world\<close> is the committed state of a server, the transactions clients have open and the order in
  which they came to a result. A schedule is any list of occurrences: the next statement of some transaction, or the loss
  of its client. \<open>serially\<close> makes whole calls one after the other.

  The locale \<open>serialisable\<close> states what the statements of one transaction must guarantee to the others and may rely on
  from them; every run then has the results and the committed state of the calls made one after
  the other in the order in which they ended. \<open>progressing\<close> adds that a statement waits only for a transaction that is further on: then nobody waits forever.
\<close>

section \<open>Worlds and schedules\<close>

record ('c, 't) world =
  committed :: 'c
  txns :: "'t list"
  finish_order :: "nat list"

datatype occurrence = Turn nat | Crash nat

fun subject :: "occurrence \<Rightarrow> nat" where
  "subject (Turn i) = i"
| "subject (Crash i) = i"

definition others :: "'t list \<Rightarrow> nat \<Rightarrow> 't list" where
  "others ts i = map ((!) ts) (filter (\<lambda>j. j \<noteq> i) [0..<length ts])"

definition world_step :: "('c \<Rightarrow> 't list \<Rightarrow> 't \<Rightarrow> ('c \<times> 't) option) \<Rightarrow> ('t \<Rightarrow> 'r option) \<Rightarrow> ('t \<Rightarrow> 't)
    \<Rightarrow> ('c, 't) world \<Rightarrow> occurrence \<Rightarrow> ('c, 't) world" where
  "world_step step fin crash W oc =
    (if length (txns W) \<le> subject oc then W
     else case oc of
       Turn i \<Rightarrow> (case step (committed W) (others (txns W) i) (txns W ! i) of
           None \<Rightarrow> W
         | Some (c, t) \<Rightarrow> \<lparr>committed = c, txns = (txns W)[i := t], finish_order = finish_order W @ (if fin t = None then [] else [i])\<rparr>)
     | Crash i \<Rightarrow> \<lparr>committed = committed W, txns = (txns W)[i := crash (txns W ! i)], finish_order = finish_order W\<rparr>)"

definition run_world :: "('c \<Rightarrow> 't list \<Rightarrow> 't \<Rightarrow> ('c \<times> 't) option) \<Rightarrow> ('t \<Rightarrow> 'r option) \<Rightarrow> ('t \<Rightarrow> 't)
    \<Rightarrow> 'c \<Rightarrow> 't list \<Rightarrow> occurrence list \<Rightarrow> ('c, 't) world" where
  "run_world step fin crash c ts ocs = foldl (world_step step fin crash) \<lparr>committed = c, txns = ts, finish_order = []\<rparr> ocs"

fun serially :: "('t \<Rightarrow> 'c \<Rightarrow> 'r \<times> 'c) \<Rightarrow> 't list \<Rightarrow> 'c \<Rightarrow> nat list \<Rightarrow> 'r list \<times> 'c" where
  "serially call ts c [] = ([], c)"
| "serially call ts c (i # is) = (let (r, c') = call (ts ! i) c; (rs, c'') = serially call ts c' is in (r # rs, c''))"

lemma serially_snoc:
  "serially call ts c (is @ [i]) = (let (rs, c') = serially call ts c is; (r, c'') = call (ts ! i) c' in (rs @ [r], c''))"
  by (induction "is" arbitrary: c) (simp_all add: case_prod_beta Let_def)

lemma set_others: "set (others ts i) = {ts ! j |j. j < length ts \<and> j \<noteq> i}"
  by (auto simp: others_def)

lemma length_world_step [simp]: "length (txns (world_step step fin crash W oc)) = length (txns W)"
  by (simp add: world_step_def split: occurrence.split option.split)

definition world_ok :: "('c \<Rightarrow> bool) \<Rightarrow> ('c \<Rightarrow> 't \<Rightarrow> bool) \<Rightarrow> ('t \<Rightarrow> 't \<Rightarrow> bool) \<Rightarrow> ('c, 't) world \<Rightarrow> bool" where
  "world_ok good ok apart W \<longleftrightarrow> good (committed W) \<and> (\<forall>t \<in> set (txns W). ok (committed W) t)
     \<and> (\<forall>i < length (txns W). \<forall>u \<in> set (others (txns W) i). apart (txns W ! i) u)"

definition in_order :: "('t \<Rightarrow> 'r option) \<Rightarrow> ('t \<Rightarrow> 'c \<Rightarrow> 'r \<times> 'c) \<Rightarrow> 't list \<Rightarrow> 'c \<Rightarrow> ('c, 't) world \<Rightarrow> bool" where
  "in_order fin call ts c W \<longleftrightarrow> map call (txns W) = map call ts \<and> distinct (finish_order W)
     \<and> set (finish_order W) = {i. i < length ts \<and> fin (txns W ! i) \<noteq> None}
     \<and> serially call ts c (finish_order W) = (map (\<lambda>i. the (fin (txns W ! i))) (finish_order W), committed W)"

section \<open>Serialisability\<close>

locale serialisable =
  fixes step :: "'c \<Rightarrow> 't list \<Rightarrow> 't \<Rightarrow> ('c \<times> 't) option" and fin :: "'t \<Rightarrow> 'r option" and crash :: "'t \<Rightarrow> 't"
    and call :: "'t \<Rightarrow> 'c \<Rightarrow> 'r \<times> 'c" and good :: "'c \<Rightarrow> bool" and ok :: "'c \<Rightarrow> 't \<Rightarrow> bool" and apart :: "'t \<Rightarrow> 't \<Rightarrow> bool"
  assumes step_own: "good c \<Longrightarrow> ok c t \<Longrightarrow> step c rest t = Some (c', t') \<Longrightarrow> ok c' t' \<and> call t' = call t"
    and step_others: "good c \<Longrightarrow> ok c t \<Longrightarrow> step c rest t = Some (c', t') \<Longrightarrow> u \<in> set rest \<Longrightarrow> ok c u \<Longrightarrow> apart t u
      \<Longrightarrow> ok c' u \<and> apart t' u"
    and step_silent: "step c rest t = Some (c', t') \<Longrightarrow> fin t' = None \<Longrightarrow> c' = c"
    and step_result: "good c \<Longrightarrow> ok c t \<Longrightarrow> step c rest t = Some (c', t') \<Longrightarrow> fin t' = Some r \<Longrightarrow> call t c = (r, c')"
    and step_ended: "fin t = Some r \<Longrightarrow> step c rest t = None"
    and call_good: "good c \<Longrightarrow> ok c t \<Longrightarrow> good (snd (call t c))"
    and crash_own: "ok c t \<Longrightarrow> ok c (crash t) \<and> call (crash t) = call t \<and> fin (crash t) = fin t"
    and crash_others: "apart t u \<Longrightarrow> apart (crash t) u"
    and apart_sym: "apart t u \<Longrightarrow> apart u t"
begin

lemma step_good:
  assumes "good c" "ok c t" "step c rest t = Some (c', t')"
  shows "good c'"
proof (cases "fin t'")
  case None
  with step_silent [OF assms(3)] assms(1) show ?thesis by simp
next
  case (Some r)
  with step_result [OF assms] call_good [OF assms(1,2)] show ?thesis by simp
qed

lemma replaced_ok:
  assumes W: "world_ok good ok apart W" and i: "i < length (txns W)" and c: "good c" "ok c t"
    and u: "\<And>u. u \<in> set (others (txns W) i) \<Longrightarrow> ok c u \<and> apart t u"
  shows "world_ok good ok apart \<lparr>committed = c, txns = (txns W)[i := t], finish_order = h\<rparr>"
proof -
  let ?ts = "(txns W)[i := t]"
  have at: "?ts ! j = (if j = i then t else txns W ! j)" if "j < length (txns W)" for j using that by simp
  have old: "apart (txns W ! j) (txns W ! k)" if "j < length (txns W)" "k < length (txns W)" "j \<noteq> k" for j k
    using W that by (auto simp: world_ok_def set_others)
  have oth: "ok c (txns W ! j)" "apart t (txns W ! j)" if "j < length (txns W)" "j \<noteq> i" for j
    using u that i by (auto simp: set_others)
  have "ok c (?ts ! j)" if "j < length (txns W)" for j using that c oth by (simp add: at)
  moreover have "apart (?ts ! j) (?ts ! k)" if "j < length (txns W)" "k < length (txns W)" "j \<noteq> k" for j k
    using that old oth(2) apart_sym by (simp add: at)
  ultimately show ?thesis
    using c by (auto simp: world_ok_def set_others in_set_conv_nth)
qed

lemma world_step_ok: "world_ok good ok apart W \<Longrightarrow> world_ok good ok apart (world_step step fin crash W oc)"
proof (cases "length (txns W) \<le> subject oc")
  case False
  assume W: "world_ok good ok apart W"
  have i: "subject oc < length (txns W)" and now: "good (committed W)" "ok (committed W) (txns W ! subject oc)"
    using False W by (auto simp: world_ok_def)
  have rest: "ok (committed W) u \<and> apart (txns W ! subject oc) u" if "u \<in> set (others (txns W) (subject oc))" for u
    using W that i by (auto simp: world_ok_def set_others)
  show ?thesis
  proof (cases oc)
    case (Crash j)
    have "world_ok good ok apart \<lparr>committed = committed W, txns = (txns W)[j := crash (txns W ! j)], finish_order = finish_order W\<rparr>"
      using replaced_ok [OF W i now(1)] crash_own [OF now(2)] crash_others rest Crash by simp
    with Crash False show ?thesis by (simp add: world_step_def)
  next
    case (Turn j)
    show ?thesis
    proof (cases "step (committed W) (others (txns W) j) (txns W ! j)")
      case None
      with W Turn False show ?thesis by (simp add: world_step_def)
    next
      case (Some x)
      obtain c t where x: "x = (c, t)" by (cases x)
      note st = now(2) [unfolded Turn subject.simps] Some [unfolded x]
      have "good c" "ok c t" using step_good [OF now(1) st] step_own [OF now(1) st] by simp_all
      moreover have "ok c u \<and> apart t u" if "u \<in> set (others (txns W) j)" for u
        using step_others [OF now(1) st that] rest that Turn by simp
      ultimately show ?thesis
        using replaced_ok [OF W i, of c t] Turn Some x False by (simp add: world_step_def)
    qed
  qed
qed (simp add: world_step_def)

lemma world_step_in_order:
  assumes W: "world_ok good ok apart W" and r: "in_order fin call ts c0 W"
  shows "in_order fin call ts c0 (world_step step fin crash W oc)"
proof (cases "length (txns W) \<le> subject oc")
  case False
  have len: "length (txns W) = length ts" using r by (metis in_order_def length_map)
  have ends: "set (finish_order W) = {k. k < length ts \<and> fin (txns W ! k) \<noteq> None}" using r by (simp add: in_order_def)
  have calls: "call (txns W ! j) = call (ts ! j)" if "j < length ts" for j
    using r that len nth_map [of j "txns W" call] nth_map [of j ts call] by (simp add: in_order_def)
  have i: "subject oc < length (txns W)" and now: "good (committed W)" "ok (committed W) (txns W ! subject oc)"
    using False W by (auto simp: world_ok_def)
  have upd: "map call ((txns W)[j := t]) = map call ts" if "call t = call (txns W ! j)" for j t
    using r list_update_id [of "map call ts" j] list_update_beyond [of "map call ts" j] calls [of j] that len
    by (cases "j < length ts") (simp_all add: in_order_def map_update)
  show ?thesis
  proof (cases oc)
    case (Crash j)
    let ?ts = "(txns W)[j := crash (txns W ! j)]"
    have same: "fin (?ts ! k) = fin (txns W ! k)" for k
      using i crash_own [OF now(2)] Crash by (cases "k = j") simp_all
    have "map call ?ts = map call ts" by (rule upd) (use crash_own [OF now(2)] Crash in simp)
    then have "in_order fin call ts c0 \<lparr>committed = committed W, txns = ?ts, finish_order = finish_order W\<rparr>"
      using r unfolding in_order_def by (simp only: world.simps same)
    then show ?thesis using Crash False by (simp add: world_step_def)
  next
    case (Turn j)
    show ?thesis
    proof (cases "step (committed W) (others (txns W) j) (txns W ! j)")
      case None
      with r Turn False show ?thesis by (simp add: world_step_def)
    next
      case (Some x)
      obtain c t where x: "x = (c, t)" by (cases x)
      note st = now [unfolded Turn subject.simps] Some [unfolded x]
      have j: "j < length ts" "j < length (txns W)" using i Turn len by simp_all
      have was: "fin (txns W ! j) = None" using step_ended Some by (cases "fin (txns W ! j)") auto
      then have out: "j \<notin> set (finish_order W)" using r by (simp add: in_order_def)
      have hist: "map (\<lambda>k. the (fin ((txns W)[j := t] ! k))) (finish_order W) = map (\<lambda>k. the (fin (txns W ! k))) (finish_order W)"
        using out by (intro map_cong refl) (metis nth_list_update_neq)
      have W': "world_step step fin crash W oc = \<lparr>committed = c, txns = (txns W)[j := t],
          finish_order = finish_order W @ (if fin t = None then [] else [j])\<rparr>"
        using Turn Some x False by (simp add: world_step_def)
      show ?thesis
      proof (cases "fin t")
        case None
        have "set (finish_order W) = {k. k < length ts \<and> fin ((txns W)[j := t] ! k) \<noteq> None}"
          unfolding ends using None was j by (auto simp: nth_list_update)
        then show ?thesis using r None upd step_own [OF st] step_silent [OF st(3) None] hist by (simp add: in_order_def W')
      next
        case (Some res)
        have "insert j (set (finish_order W)) = {k. k < length ts \<and> fin ((txns W)[j := t] ! k) \<noteq> None}"
          unfolding ends using Some was j by (auto simp: nth_list_update)
        moreover have "call (ts ! j) (committed W) = (res, c)" using step_result [OF st Some] calls [OF j(1)] by simp
        ultimately show ?thesis
          using r Some upd step_own [OF st] hist out j by (simp add: in_order_def W' serially_snoc)
      qed
    qed
  qed
qed (use r in \<open>simp add: world_step_def\<close>)

lemma steps_ok: "world_ok good ok apart W \<Longrightarrow> world_ok good ok apart (foldl (world_step step fin crash) W ocs)"
  by (induction ocs arbitrary: W) (simp_all add: world_step_ok)

lemma run_serialisable:
  assumes "world_ok good ok apart \<lparr>committed = c, txns = ts, finish_order = []\<rparr>" and "\<forall>t \<in> set ts. fin t = None"
  shows "world_ok good ok apart (run_world step fin crash c ts ocs)"
    "in_order fin call ts c (run_world step fin crash c ts ocs)"
proof -
  have "world_ok good ok apart W \<Longrightarrow> in_order fin call ts c W \<Longrightarrow>
      world_ok good ok apart (foldl (world_step step fin crash) W ocs) \<and> in_order fin call ts c (foldl (world_step step fin crash) W ocs)" for W
    by (induction ocs arbitrary: W) (simp_all add: world_step_ok world_step_in_order)
  moreover have "in_order fin call ts c \<lparr>committed = c, txns = ts, finish_order = []\<rparr>"
    using assms(2) by (auto simp: in_order_def)
  ultimately show "world_ok good ok apart (run_world step fin crash c ts ocs)"
    "in_order fin call ts c (run_world step fin crash c ts ocs)"
    using assms(1) by (simp_all add: run_world_def)
qed

end

section \<open>Progress\<close>

definition total :: "('t \<Rightarrow> nat) \<Rightarrow> ('c, 't) world \<Rightarrow> nat" where
  "total rank W = sum_list (map rank (txns W))"

lemma length_run [simp]: "length (txns (foldl (world_step step fin crash) W ocs)) = length (txns W)"
  by (induction ocs arbitrary: W) simp_all

lemma total_update:
  assumes "i < length (txns W)"
  shows "total rank \<lparr>committed = c, txns = (txns W)[i := t], finish_order = h\<rparr> + rank (txns W ! i) = total rank W + rank t"
proof -
  have "rank (txns W ! i) \<le> sum_list (map rank (txns W))" using assms by (intro member_le_sum_list) auto
  then show ?thesis using assms sum_list_update [of i "map rank (txns W)" "rank t"] by (simp add: total_def map_update)
qed

lemma total_bound:
  assumes "\<And>t. rank t \<le> bound"
  shows "total rank W \<le> bound * length (txns W)"
    "total rank W = bound * length (txns W) \<Longrightarrow> t \<in> set (txns W) \<Longrightarrow> rank t = bound"
proof -
  have le: "sum_list (map rank ts) \<le> bound * length ts" for ts
    by (induction ts) (use assms in \<open>auto intro: add_mono\<close>)
  show "total rank W \<le> bound * length (txns W)" using le by (simp add: total_def)
  have "sum_list (map rank ts) = bound * length ts \<Longrightarrow> t \<in> set ts \<Longrightarrow> rank t = bound" for ts
  proof (induction ts)
    case (Cons a ts)
    then show ?case using le [of ts] assms [of a] by auto
  qed simp
  then show "total rank W = bound * length (txns W) \<Longrightarrow> t \<in> set (txns W) \<Longrightarrow> rank t = bound" by (simp add: total_def)
qed

locale progressing = serialisable step fin crash call good ok apart
  for step :: "'c \<Rightarrow> 't list \<Rightarrow> 't \<Rightarrow> ('c \<times> 't) option" and fin :: "'t \<Rightarrow> 'r option" and crash call good ok apart +
  fixes rank :: "'t \<Rightarrow> nat" and bound :: nat
  assumes rank_step: "step c rest t = Some (c', t') \<Longrightarrow> rank t < rank t'"
    and rank_top: "rank t \<le> bound"
    and rank_crash: "crash t = t \<or> rank t < rank (crash t)"
    and waits: "good c \<Longrightarrow> ok c t \<Longrightarrow> \<forall>u \<in> set rest. ok c u \<Longrightarrow> rank t < bound \<Longrightarrow> step c rest t = None
      \<Longrightarrow> \<exists>u \<in> set rest. rank t < rank u \<and> rank u < bound"
begin

lemma someone_moves:
  assumes W: "world_ok good ok apart W" and "\<exists>t \<in> set (txns W). rank t < bound"
  obtains i where "i < length (txns W)" "step (committed W) (others (txns W) i) (txns W ! i) \<noteq> None"
proof -
  let ?I = "{i. i < length (txns W) \<and> rank (txns W ! i) < bound}"
  have "finite ?I" "?I \<noteq> {}" using assms(2) by (auto simp: in_set_conv_nth)
  then have "Max ((\<lambda>i. rank (txns W ! i)) ` ?I) \<in> (\<lambda>i. rank (txns W ! i)) ` ?I" by (intro Max_in) simp_all
  then obtain i where i: "i \<in> ?I" "Max ((\<lambda>i. rank (txns W ! i)) ` ?I) = rank (txns W ! i)" by blast
  have best: "rank (txns W ! j) \<le> rank (txns W ! i)" if "j \<in> ?I" for j
    using Max_ge [of "(\<lambda>i. rank (txns W ! i)) ` ?I"] that unfolding i(2) by simp
  have "step (committed W) (others (txns W) i) (txns W ! i) \<noteq> None"
  proof
    assume "step (committed W) (others (txns W) i) (txns W ! i) = None"
    then have "\<exists>u \<in> set (others (txns W) i). rank (txns W ! i) < rank u \<and> rank u < bound"
      using W i by (intro waits [of "committed W"]) (auto simp: world_ok_def set_others)
    then show False using best i by (fastforce simp: set_others)
  qed
  with that i show thesis by blast
qed

lemma run_total:
  assumes "i < length (txns W)" "step (committed W) (others (txns W) i) (txns W ! i) = Some x"
  shows "total rank W < total rank (world_step step fin crash W (Turn i))"
proof -
  obtain c t where x: "x = (c, t)" by (cases x)
  let ?h = "finish_order W @ (if fin t = None then [] else [i])"
  have "rank (txns W ! i) < rank t" using assms(2) x by (auto intro: rank_step)
  with total_update [OF assms(1), of rank c t ?h] have "total rank W < total rank \<lparr>committed = c, txns = (txns W)[i := t], finish_order = ?h\<rparr>"
    by linarith
  then show ?thesis using assms x by (simp add: world_step_def)
qed

lemma step_total:
  "world_step step fin crash W oc = W \<or> (committed (world_step step fin crash W oc) = committed W \<and> txns (world_step step fin crash W oc) = txns W)
     \<or> total rank W < total rank (world_step step fin crash W oc)"
proof (cases "length (txns W) \<le> subject oc")
  case False
  then have i: "subject oc < length (txns W)" by simp
  show ?thesis
  proof (cases oc)
    case (Crash j)
    with i rank_crash [of "txns W ! j"] total_update [of j W rank "committed W" "crash (txns W ! j)" "finish_order W"] show ?thesis
      by (auto simp: world_step_def)
  next
    case (Turn j)
    with i run_total [of j W] show ?thesis by (cases "step (committed W) (others (txns W) j) (txns W ! j)") (auto simp: world_step_def)
  qed
qed (simp add: world_step_def)

lemma steps_total: "total rank W \<le> total rank (foldl (world_step step fin crash) W ocs)"
proof (induction ocs arbitrary: W)
  case (Cons oc ocs)
  have "total rank W \<le> total rank (world_step step fin crash W oc)" using step_total [of W oc] by (auto simp: total_def)
  with Cons [of "world_step step fin crash W oc"] show ?case by simp
qed simp

lemma enabled_total:
  assumes "i < length (txns W)" "step (committed W) (others (txns W) i) (txns W ! i) \<noteq> None" "Turn i \<in> set ocs"
  shows "total rank W < total rank (foldl (world_step step fin crash) W ocs)"
  using assms
proof (induction ocs arbitrary: W)
  case (Cons oc ocs)
  let ?W = "world_step step fin crash W oc"
  note later = steps_total [of ?W ocs]
  show ?case
  proof (cases "total rank W < total rank ?W")
    case True
    with later show ?thesis by simp
  next
    case False
    then have same: "committed ?W = committed W" "txns ?W = txns W" using step_total [of W oc] by auto
    have "oc \<noteq> Turn i"
    proof
      assume "oc = Turn i"
      with Cons.prems have "total rank W < total rank ?W" using run_total [of i W] by auto
      with False show False by simp
    qed
    then have "total rank ?W < total rank (foldl (world_step step fin crash) ?W ocs)"
      using Cons.prems by (intro Cons.IH) (simp_all add: same)
    then show ?thesis by (simp add: total_def same)
  qed
qed simp

lemma rounds_total:
  assumes "world_ok good ok apart W" "\<And>r i. r \<in> set rounds \<Longrightarrow> i < length (txns W) \<Longrightarrow> Turn i \<in> set r"
  shows "length rounds \<le> total rank (foldl (world_step step fin crash) W (concat rounds))
     \<or> (\<forall>t \<in> set (txns (foldl (world_step step fin crash) W (concat rounds))). rank t = bound)"
  using assms
proof (induction rounds rule: rev_induct)
  case (snoc r rounds)
  let ?W = "foldl (world_step step fin crash) W (concat rounds)"
  have ok: "world_ok good ok apart ?W" by (rule steps_ok [OF snoc.prems(1)])
  have len: "length (txns ?W) = length (txns W)" by simp
  have ended: "total rank V = bound * length (txns V)" if "\<forall>t \<in> set (txns V). rank t = bound" for V
    using that by (simp add: total_def map_replicate_const sum_list_replicate cong: map_cong)
  show ?case
  proof (cases "\<exists>t \<in> set (txns ?W). rank t < bound")
    case True
    then obtain i where "i < length (txns ?W)" "step (committed ?W) (others (txns ?W) i) (txns ?W ! i) \<noteq> None"
      by (rule someone_moves [OF ok])
    then have "total rank ?W < total rank (foldl (world_step step fin crash) ?W r)"
      using snoc.prems(2) [of r] len by (intro enabled_total) auto
    with snoc.IH snoc.prems True show ?thesis by fastforce
  next
    case False
    then have "\<forall>t \<in> set (txns ?W). rank t = bound" using rank_top by (meson le_neq_implies_less)
    then have "total rank (foldl (world_step step fin crash) ?W r) = bound * length (txns (foldl (world_step step fin crash) ?W r))"
      using ended [of ?W] steps_total [of ?W r] total_bound(1) [where rank = rank, OF rank_top, where W = "foldl (world_step step fin crash) ?W r"] by simp
    then show ?thesis using total_bound(2) [where rank = rank, OF rank_top, where W = "foldl (world_step step fin crash) ?W r"] by simp
  qed
qed simp

lemma all_end:
  assumes "world_ok good ok apart \<lparr>committed = c, txns = ts, finish_order = []\<rparr>"
    and "\<And>r i. r \<in> set rounds \<Longrightarrow> i < length ts \<Longrightarrow> Turn i \<in> set r" and "bound * length ts \<le> length rounds"
    and "t \<in> set (txns (run_world step fin crash c ts (concat rounds)))"
  shows "rank t = bound"
proof -
  let ?V = "run_world step fin crash c ts (concat rounds)"
  have "length (txns ?V) = length ts" by (simp add: run_world_def)
  then have "total rank ?V = bound * length (txns ?V)" if "length rounds \<le> total rank ?V"
    using that assms(3) total_bound(1) [where rank = rank, OF rank_top, where W = ?V] by simp
  then show ?thesis
    using rounds_total [OF assms(1), of rounds] assms(2,4) total_bound(2) [where rank = rank, OF rank_top, where W = ?V] by (auto simp: run_world_def)
qed

end

end
