(* ===== verification/Concurrent.thy ===== *)
theory Concurrent
  imports FlashSale Interleave
begin

text \<open>
  Concurrent calls of \<open>Reserve\<close> (\<open>src/internal/store/reservation.go\<close>), statement by statement.

  The other theories treat a transaction as one step. Here the transactions of many buyers interleave at every statement, under the rules of PostgreSQL's READ COMMITTED
  level that the code relies on. The server keeps the committed rows; a transaction's own row versions are its private \<open>writes\<close> until COMMIT installs them. A statement sees the committed
  rows of the moment, overlaid with the transaction's own versions. An UPDATE whose WHERE clause holds for a row another transaction has
  written waits for that transaction, and is evaluated again on the row it finds then; an INSERT of a unique key another transaction has inserted waits too; an advisory
  lock is held until the transaction ends. Waiting is \<open>None\<close>. Foreign key checks take key-share locks, which do not conflict with these updates.

  A round trip that fails, or a client that dies, is the occurrence \<open>Crash\<close>: the server drops the transaction. A statement the server rejects ends
  the call with its error. The advisory lock's number \<open>hashtextextended\<close> is the parameter \<open>H\<close>; collisions only make more transactions wait.
\<close>

section \<open>Private row versions\<close>

record writes =
  w_key :: "idempotency_keys_row option"
  w_sale :: "flash_sales_row option"
  w_stock :: "inventory_row option"
  w_reservation :: "reservations_row option"
  w_order :: "orders_row option"
  w_event :: "domain_events_row option"

definition no_writes :: writes where
  "no_writes = \<lparr>w_key = None, w_sale = None, w_stock = None, w_reservation = None, w_order = None, w_event = None\<rparr>"

definition put :: "('r \<Rightarrow> string) \<Rightarrow> 'r option \<Rightarrow> 'r list \<Rightarrow> 'r list" where
  "put key x rows = (case x of None \<Rightarrow> rows
     | Some v \<Rightarrow> if key v \<in> key ` set rows then map (\<lambda>r. if key r = key v then v else r) rows else rows @ [v])"

definition overlay :: "db \<Rightarrow> writes \<Rightarrow> db" where
  "overlay d w = d\<lparr>inventory := put inventory_product_id (w_stock w) (inventory d),
     flash_sales := put flash_sales_id (w_sale w) (flash_sales d),
     reservations := put reservations_id (w_reservation w) (reservations d),
     orders := put orders_id (w_order w) (orders d),
     idempotency_keys := put idempotency_keys_key (w_key w) (idempotency_keys d),
     domain_events := put domain_events_id (w_event w) (domain_events d)\<rparr>"

section \<open>A transaction in progress\<close>

datatype phase =
    Begin
  | Claimed
  | Locked
  | Opened int products_row
  | Checked products_row
  | SaleTaken products_row
  | StockTaken products_row
  | Inserted products_row string string
  | Ordered products_row string string
  | Logged products_row string string
  | Stored ReservationResult
  | Refusing Error
  | Refused Error
  | Replaying
  | Replayed "go_error + ReservationResult"
  | Finished "go_error + ReservationResult"
  | Crashed

record txn =
  Txn_env :: env
  Txn_sale :: string
  Txn_request :: ReservationRequest
  Txn_phase :: phase
  Txn_writes :: writes

abbreviation Txn_user :: "txn \<Rightarrow> string" where
  "Txn_user t \<equiv> TrimSpace (Request_UserID (Txn_request t))"

abbreviation Txn_key :: "txn \<Rightarrow> string" where
  "Txn_key t \<equiv> TrimSpace (Request_IdempotencyKey (Txn_request t))"

abbreviation Txn_units :: "txn \<Rightarrow> int" where
  "Txn_units t \<equiv> Request_Quantity (Txn_request t)"

abbreviation Txn_print :: "txn \<Rightarrow> string" where
  "Txn_print t \<equiv> fingerprint (Txn_env t) (Txn_sale t) (Txn_user t) (Txn_units t)"

fun holds_lock :: "phase \<Rightarrow> bool" where
  "holds_lock Begin = False"
| "holds_lock Claimed = False"
| "holds_lock Replaying = False"
| "holds_lock (Replayed r) = False"
| "holds_lock (Finished r) = False"
| "holds_lock Crashed = False"
| "holds_lock _ = True"

definition advisory :: "(string \<Rightarrow> int) \<Rightarrow> txn \<Rightarrow> int option" where
  "advisory H t = (if holds_lock (Txn_phase t) then Some (H (Txn_sale t @ '':'' @ Txn_user t)) else None)"

abbreviation pending :: "(writes \<Rightarrow> 'r option) \<Rightarrow> ('r \<Rightarrow> string) \<Rightarrow> txn list \<Rightarrow> string \<Rightarrow> bool" where
  "pending sel key rest k \<equiv> \<exists>t \<in> set rest. map_option key (sel (Txn_writes t)) = Some k"

definition goto :: "db \<Rightarrow> txn \<Rightarrow> phase \<Rightarrow> writes \<Rightarrow> (db \<times> txn) option" where
  "goto d t ph w = Some (d, t\<lparr>Txn_phase := ph, Txn_writes := w\<rparr>)"

section \<open>One statement\<close>

text \<open>The claim of the key and the replay of a stored response.\<close>

definition step_claim :: "db \<Rightarrow> txn list \<Rightarrow> txn \<Rightarrow> (db \<times> txn) option" where
  "step_claim d rest t =
    (if request_invalid (Txn_sale t) (Txn_user t) (Txn_units t) (Txn_key t)
     then goto d t (Finished (Inl (domain_error ''VALIDATION_ERROR''
             ''sale, user, quantity, and Idempotency-Key are required'' 400))) no_writes
     else case sql_claim_key (Txn_env t) (overlay d (Txn_writes t)) (Txn_key t) (Txn_user t) (Txn_print t) of
       Inl err \<Rightarrow> goto d t (Finished (Inl (WrapError ''claim idempotency key'' err))) no_writes
     | Inr None \<Rightarrow> goto d t Replaying no_writes
     | Inr (Some d1) \<Rightarrow> if pending w_key idempotency_keys_key rest (Txn_key t) then None
         else goto d t Claimed ((Txn_writes t)\<lparr>w_key := Some (new_key (Txn_env t) (Txn_key t) (Txn_user t) (Txn_print t))\<rparr>))"

definition step_replay :: "db \<Rightarrow> txn \<Rightarrow> (db \<times> txn) option" where
  "step_replay d t =
    (case query_row (find (\<lambda>k. idempotency_keys_key k = Txn_key t \<and> idempotency_keys_scope k = ''reservation'')
         (idempotency_keys (overlay d (Txn_writes t)))) of
       Inl err \<Rightarrow> goto d t (Finished (Inl err)) no_writes
     | Inr k \<Rightarrow>
        if idempotency_keys_user_id k \<noteq> Txn_user t \<or> idempotency_keys_request_fingerprint k \<noteq> Txn_print t
        then goto d t (Finished (Inl (domain_error ''IDEMPOTENCY_CONFLICT''
               ''Idempotency-Key was already used with a different request'' 409))) no_writes
        else (case (idempotency_keys_response_status k, idempotency_keys_response_body k) of
             (Some status, Some response) \<Rightarrow> goto d t (Replayed (decode_response status response)) no_writes
           | _ \<Rightarrow> goto d t (Finished (Inl (domain_error ''IDEMPOTENCY_IN_PROGRESS''
               ''The original request is still processing'' 409))) no_writes))"

text \<open>The lock, the sale and the limit.\<close>

definition step_lock :: "(string \<Rightarrow> int) \<Rightarrow> db \<Rightarrow> txn list \<Rightarrow> txn \<Rightarrow> (db \<times> txn) option" where
  "step_lock H d rest t = (if \<exists>t' \<in> set rest. advisory H t' = Some (H (Txn_sale t @ '':'' @ Txn_user t)) then None
     else goto d t Locked (Txn_writes t))"

definition step_sale :: "db \<Rightarrow> txn \<Rightarrow> (db \<times> txn) option" where
  "step_sale d t =
    (case sql_sale_product (overlay d (Txn_writes t)) (Txn_sale t) of
       None \<Rightarrow> goto d t (Refusing (domainError (notFound ErrNoRows) ''SALE_NOT_FOUND'' ''Flash sale was not found'' 404)) (Txn_writes t)
     | Some (sale, p) \<Rightarrow>
       let now = go_now (Txn_env t) in
       if flash_sales_state sale \<noteq> SaleActive \<or> now < flash_sales_starts_at sale \<or> \<not> now < flash_sales_ends_at sale
       then goto d t (Refusing \<lparr>Error_Code = ''SALE_NOT_ACTIVE'', Error_Message = ''The flash sale is not active'', Error_HTTPStatus = 409\<rparr>) (Txn_writes t)
       else if \<not> products_active p
       then goto d t (Refusing \<lparr>Error_Code = ''PRODUCT_INACTIVE'', Error_Message = ''The product is inactive'', Error_HTTPStatus = 409\<rparr>) (Txn_writes t)
       else goto d t (Opened (flash_sales_max_quantity_per_user sale) p) (Txn_writes t))"

definition step_limit :: "db \<Rightarrow> txn \<Rightarrow> int \<Rightarrow> products_row \<Rightarrow> (db \<times> txn) option" where
  "step_limit d t maxQuantity p =
    (if maxQuantity < wrap64 (sql_existing_quantity (overlay d (Txn_writes t)) (Txn_sale t) (Txn_user t) + Txn_units t)
     then goto d t (Refusing \<lparr>Error_Code = ''PURCHASE_LIMIT_EXCEEDED'', Error_Message = ''The per-user purchase limit would be exceeded'',
       Error_HTTPStatus = 409\<rparr>) (Txn_writes t)
     else goto d t (Checked p) (Txn_writes t))"

text \<open>The two conditional updates. The new version of the row is the one the statement leaves.\<close>

definition step_take_sale :: "db \<Rightarrow> txn list \<Rightarrow> txn \<Rightarrow> products_row \<Rightarrow> (db \<times> txn) option" where
  "step_take_sale d rest t p =
    (case sql_take_sale_stock (Txn_env t) (overlay d (Txn_writes t)) (Txn_sale t) (Txn_units t) of
       Inl err \<Rightarrow> if pending w_sale flash_sales_id rest (Txn_sale t) then None else goto d t (Finished (Inl err)) no_writes
     | Inr (d1, n) \<Rightarrow>
       if n = 0
       then goto d t (Refusing \<lparr>Error_Code = ''INVENTORY_SOLD_OUT'', Error_Message = ''The flash sale allocation is sold out'', Error_HTTPStatus = 409\<rparr>) (Txn_writes t)
       else if pending w_sale flash_sales_id rest (Txn_sale t) then None
       else goto d t (SaleTaken p) ((Txn_writes t)\<lparr>w_sale := find (\<lambda>r. flash_sales_id r = Txn_sale t) (flash_sales d1)\<rparr>))"

definition step_take_stock :: "db \<Rightarrow> txn list \<Rightarrow> txn \<Rightarrow> products_row \<Rightarrow> (db \<times> txn) option" where
  "step_take_stock d rest t p =
    (case sql_take_inventory (Txn_env t) (overlay d (Txn_writes t)) (products_id p) (Txn_units t) of
       Inl err \<Rightarrow> if pending w_stock inventory_product_id rest (products_id p) then None else goto d t (Finished (Inl err)) no_writes
     | Inr (d1, n) \<Rightarrow>
       if n = 0
       then goto d t (Refusing \<lparr>Error_Code = ''INVENTORY_SOLD_OUT'', Error_Message = ''The requested product is sold out'', Error_HTTPStatus = 409\<rparr>) (Txn_writes t)
       else if pending w_stock inventory_product_id rest (products_id p) then None
       else goto d t (StockTaken p) ((Txn_writes t)\<lparr>w_stock := find (\<lambda>r. inventory_product_id r = products_id p) (inventory d1)\<rparr>))"

text \<open>Recording the reservation.\<close>

definition step_insert :: "Store \<Rightarrow> db \<Rightarrow> txn list \<Rightarrow> txn \<Rightarrow> products_row \<Rightarrow> (db \<times> txn) option" where
  "step_insert s d rest t p =
    (case NewID (rand (Txn_env t) 0) of Inl err \<Rightarrow> goto d t (Finished (Inl err)) no_writes | Inr rid \<Rightarrow>
    (case NewID (rand (Txn_env t) 1) of Inl err \<Rightarrow> goto d t (Finished (Inl err)) no_writes | Inr oid \<Rightarrow>
     let r = new_reservation (Txn_env t) rid (Txn_sale t) (products_id p) (Txn_user t) (Txn_units t) (go_now (Txn_env t) + ttl s) in
     (case insert_reservations (overlay d (Txn_writes t)) r of
        Inl err \<Rightarrow> goto d t (Finished (Inl (WrapError ''insert reservation'' err))) no_writes
      | Inr d1 \<Rightarrow> if pending w_reservation reservations_id rest rid then None
          else goto d t (Inserted p rid oid) ((Txn_writes t)\<lparr>w_reservation := Some r\<rparr>))))"

definition step_order :: "db \<Rightarrow> txn list \<Rightarrow> txn \<Rightarrow> products_row \<Rightarrow> string \<Rightarrow> string \<Rightarrow> (db \<times> txn) option" where
  "step_order d rest t p rid oid =
    (let x = new_order (Txn_env t) oid rid (Txn_sale t) (products_id p) (Txn_user t) (Txn_units t)
        (wrap64 (products_price_minor p * Txn_units t)) (products_currency p) in
     case insert_orders (overlay d (Txn_writes t)) x of
        Inl err \<Rightarrow> goto d t (Finished (Inl (WrapError ''insert order'' err))) no_writes
      | Inr d1 \<Rightarrow> if pending w_order orders_id rest oid \<or> pending w_order orders_reservation_id rest rid then None
          else goto d t (Ordered p rid oid) ((Txn_writes t)\<lparr>w_order := Some x\<rparr>))"

definition step_event :: "db \<Rightarrow> txn list \<Rightarrow> txn \<Rightarrow> products_row \<Rightarrow> string \<Rightarrow> string \<Rightarrow> (db \<times> txn) option" where
  "step_event d rest t p rid oid =
    (case event (Txn_env t) 9 2 (overlay d (Txn_writes t)) ''reservation'' rid ''reservation.created'' '''' ''pending'' (MetaInt ''quantity'' (Txn_units t)) of
       Inl err \<Rightarrow> goto d t (Finished (Inl err)) no_writes
     | Inr d1 \<Rightarrow> let v = last (domain_events d1) in
         if pending w_event domain_events_id rest (domain_events_id v) then None
         else goto d t (Logged p rid oid) ((Txn_writes t)\<lparr>w_event := Some v\<rparr>))"

definition step_store :: "Store \<Rightarrow> db \<Rightarrow> txn \<Rightarrow> products_row \<Rightarrow> string \<Rightarrow> string \<Rightarrow> (db \<times> txn) option" where
  "step_store s d t p rid oid =
    (let r = new_reservation (Txn_env t) rid (Txn_sale t) (products_id p) (Txn_user t) (Txn_units t) (go_now (Txn_env t) + ttl s);
         result = \<lparr>Result_Reservation = reservation_of_row oid r, Result_Duplicate = False\<rparr> in
     case sql_store_success (overlay d (Txn_writes t)) (Txn_key t) rid
         \<lparr>Response_ErrorCode = '''', Response_Message = '''', Response_Result = Some result\<rparr> of
       Inl err \<Rightarrow> goto d t (Finished (Inl err)) no_writes
     | Inr (d1, n) \<Rightarrow> goto d t (Stored result) ((Txn_writes t)\<lparr>w_key := find (\<lambda>k. idempotency_keys_key k = Txn_key t) (idempotency_keys d1)\<rparr>))"

definition step_refuse :: "db \<Rightarrow> txn \<Rightarrow> Error \<Rightarrow> (db \<times> txn) option" where
  "step_refuse d t de =
    (case sql_store_error (overlay d (Txn_writes t)) (Txn_key t) (Error_HTTPStatus de)
         \<lparr>Response_ErrorCode = Error_Code de, Response_Message = Error_Message de, Response_Result = None\<rparr> of
       Inl err \<Rightarrow> goto d t (Finished (Inl err)) no_writes
     | Inr (d1, n) \<Rightarrow> goto d t (Refused de) ((Txn_writes t)\<lparr>w_key := find (\<lambda>k. idempotency_keys_key k = Txn_key t) (idempotency_keys d1)\<rparr>))"

text \<open>The next statement of a transaction among the others \<open>rest\<close>; COMMIT installs the row versions.\<close>

definition txn_step :: "Store \<Rightarrow> (string \<Rightarrow> int) \<Rightarrow> db \<Rightarrow> txn list \<Rightarrow> txn \<Rightarrow> (db \<times> txn) option" where
  "txn_step s H d rest t = (case Txn_phase t of
     Begin \<Rightarrow> step_claim d rest t
   | Claimed \<Rightarrow> step_lock H d rest t
   | Locked \<Rightarrow> step_sale d t
   | Opened maxQuantity p \<Rightarrow> step_limit d t maxQuantity p
   | Checked p \<Rightarrow> step_take_sale d rest t p
   | SaleTaken p \<Rightarrow> step_take_stock d rest t p
   | StockTaken p \<Rightarrow> step_insert s d rest t p
   | Inserted p rid oid \<Rightarrow> step_order d rest t p rid oid
   | Ordered p rid oid \<Rightarrow> step_event d rest t p rid oid
   | Logged p rid oid \<Rightarrow> step_store s d t p rid oid
   | Stored result \<Rightarrow> goto (overlay d (Txn_writes t)) t (Finished (Inr result)) no_writes
   | Refusing de \<Rightarrow> step_refuse d t de
   | Refused de \<Rightarrow> goto (overlay d (Txn_writes t)) t (Finished (Inl (DomainError de))) no_writes
   | Replaying \<Rightarrow> step_replay d t
   | Replayed res \<Rightarrow> goto d t (Finished res) no_writes
   | Finished res \<Rightarrow> None
   | Crashed \<Rightarrow> None)"

section \<open>Many calls at once\<close>

text \<open>A call that has just begun, the result it came to, the loss of its client, and the same call made alone.\<close>

definition begin_txn :: "env \<Rightarrow> string \<Rightarrow> ReservationRequest \<Rightarrow> txn" where
  "begin_txn e saleID request = \<lparr>Txn_env = e, Txn_sale = saleID, Txn_request = request, Txn_phase = Begin, Txn_writes = no_writes\<rparr>"

definition txn_result :: "txn \<Rightarrow> (go_error + ReservationResult) option" where
  "txn_result t = (case Txn_phase t of Finished res \<Rightarrow> Some res | _ \<Rightarrow> None)"

definition txn_crash :: "txn \<Rightarrow> txn" where
  "txn_crash t = (case Txn_phase t of Finished res \<Rightarrow> t | Crashed \<Rightarrow> t | _ \<Rightarrow> t\<lparr>Txn_phase := Crashed, Txn_writes := no_writes\<rparr>)"

definition txn_call :: "Store \<Rightarrow> txn \<Rightarrow> db \<Rightarrow> ReservationResult outcome" where
  "txn_call s t d = Reserve s (Txn_env t) d (Txn_sale t) (Txn_request t)"

definition run_calls :: "Store \<Rightarrow> (string \<Rightarrow> int) \<Rightarrow> db \<Rightarrow> txn list \<Rightarrow> occurrence list \<Rightarrow> (db, txn) world" where
  "run_calls s H = run_world (txn_step s H) txn_result txn_crash"

fun phase_rank :: "phase \<Rightarrow> nat" where
  "phase_rank Begin = 0"
| "phase_rank Claimed = 1"
| "phase_rank Locked = 2"
| "phase_rank (Opened m p) = 3"
| "phase_rank (Checked p) = 4"
| "phase_rank (SaleTaken p) = 5"
| "phase_rank (StockTaken p) = 6"
| "phase_rank (Inserted p rid oid) = 7"
| "phase_rank (Ordered p rid oid) = 8"
| "phase_rank (Logged p rid oid) = 9"
| "phase_rank (Stored result) = 10"
| "phase_rank (Refusing de) = 9"
| "phase_rank (Refused de) = 10"
| "phase_rank Replaying = 9"
| "phase_rank (Replayed res) = 10"
| "phase_rank (Finished res) = 11"
| "phase_rank Crashed = 11"

end
