(* ===== verification/Statements.thy ===== *)
theory Statements
  imports Concurrent
begin

text \<open>
  The statements of \<open>Reserve\<close> before COMMIT, among other transactions.

  \<open>txn_ok\<close> says, for each phase of a transaction, what its private row versions are and which facts about the committed rows it has established;
  \<open>apart\<close> says that two transactions do not hold the same row or lock. Each statement keeps both (\<open>txn_step_quiet\<close>), changes no committed row, and a call that
  ends here ends as the call made alone would on the committed rows of this moment.
\<close>

section \<open>Row versions and the rows a statement sees\<close>

abbreviation claim_row :: "txn \<Rightarrow> idempotency_keys_row" where
  "claim_row t \<equiv> new_key (Txn_env t) (Txn_key t) (Txn_user t) (Txn_print t)"

abbreviation sale_less :: "txn \<Rightarrow> flash_sales_row \<Rightarrow> flash_sales_row" where
  "sale_less t sale \<equiv> sale\<lparr>flash_sales_remaining_stock := flash_sales_remaining_stock sale - Txn_units t,
     flash_sales_updated_at := db_now (Txn_env t)\<rparr>"

abbreviation stock_less :: "txn \<Rightarrow> inventory_row \<Rightarrow> inventory_row" where
  "stock_less t i \<equiv> i\<lparr>inventory_available := inventory_available i - Txn_units t,
     inventory_reserved := inventory_reserved i + Txn_units t, inventory_updated_at := db_now (Txn_env t)\<rparr>"

abbreviation held_key :: "txn \<Rightarrow> writes" where
  "held_key t \<equiv> no_writes\<lparr>w_key := Some (claim_row t)\<rparr>"

abbreviation held_sale :: "txn \<Rightarrow> flash_sales_row \<Rightarrow> writes" where
  "held_sale t sale \<equiv> (held_key t)\<lparr>w_sale := Some (sale_less t sale)\<rparr>"

abbreviation held_stock :: "txn \<Rightarrow> flash_sales_row \<Rightarrow> inventory_row \<Rightarrow> writes" where
  "held_stock t sale i \<equiv> (held_sale t sale)\<lparr>w_stock := Some (stock_less t i)\<rparr>"

abbreviation txn_row :: "Store \<Rightarrow> txn \<Rightarrow> products_row \<Rightarrow> string \<Rightarrow> reservations_row" where
  "txn_row s t p rid \<equiv> reserved_row s (Txn_env t) (Txn_sale t) (Txn_user t) (Txn_units t) p rid"

abbreviation txn_order :: "txn \<Rightarrow> products_row \<Rightarrow> string \<Rightarrow> string \<Rightarrow> orders_row" where
  "txn_order t p rid oid \<equiv> reserved_order (Txn_env t) (Txn_sale t) (Txn_user t) (Txn_units t) p rid oid"

abbreviation txn_event :: "txn \<Rightarrow> string \<Rightarrow> string \<Rightarrow> domain_events_row" where
  "txn_event t eid rid \<equiv> created_event (Txn_env t) eid rid (Txn_units t)"

abbreviation txn_booking :: "Store \<Rightarrow> txn \<Rightarrow> products_row \<Rightarrow> string \<Rightarrow> string \<Rightarrow> ReservationResult" where
  "txn_booking s t p rid oid \<equiv> reserved_result s (Txn_env t) (Txn_sale t) (Txn_user t) (Txn_units t) p rid oid"

lemma put_None [simp]: "put key None rows = rows"
  by (simp add: put_def)

lemma put_new: "key v \<notin> key ` set rows \<Longrightarrow> put key (Some v) rows = rows @ [v]"
  by (simp add: put_def)

lemma put_version:
  assumes "distinct (map key rows)" "r \<in> set rows" "key (f r) = key r" "key r = k"
  shows "put key (Some (f r)) rows = update_where (\<lambda>x. key x = k) f rows"
proof -
  have "x = r" if "x \<in> set rows" "key x = key r" for x using distinct_key_eq [OF assms(1) that(1) assms(2)] that(2) by simp
  then have "map (\<lambda>x. if key x = k then f r else x) rows = map (\<lambda>x. if key x = k then f x else x) rows"
    using assms(4) by (intro map_cong) auto
  moreover have "key (f r) = k" "k \<in> key ` set rows" using assms(3,4) imageI [OF assms(2), of key] by simp_all
  ultimately show ?thesis by (simp add: put_def update_where_def)
qed

lemma overlay_none [simp]: "overlay d no_writes = d"
  by (simp add: overlay_def no_writes_def)

lemma no_writes_sel [simp]:
  "w_key no_writes = None" "w_sale no_writes = None" "w_stock no_writes = None" "w_reservation no_writes = None"
  "w_order no_writes = None" "w_event no_writes = None"
  by (simp_all add: no_writes_def)

section \<open>What a transaction has established\<close>

definition entered :: "db \<Rightarrow> txn \<Rightarrow> bool" where
  "entered d t \<longleftrightarrow> \<not> request_invalid (Txn_sale t) (Txn_user t) (Txn_units t) (Txn_key t)
     \<and> Txn_key t \<notin> idempotency_keys_key ` set (idempotency_keys d)"

definition opened :: "db \<Rightarrow> txn \<Rightarrow> flash_sales_row \<Rightarrow> products_row \<Rightarrow> bool" where
  "opened d t sale p \<longleftrightarrow> entered d t \<and> sql_sale_product d (Txn_sale t) = Some (sale, p) \<and> sale_open (Txn_env t) sale \<and> products_active p"

definition allowed :: "db \<Rightarrow> txn \<Rightarrow> flash_sales_row \<Rightarrow> products_row \<Rightarrow> bool" where
  "allowed d t sale p \<longleftrightarrow> opened d t sale p
     \<and> user_units (reservations d) (Txn_sale t) (Txn_user t) + Txn_units t \<le> flash_sales_max_quantity_per_user sale"

definition drawn :: "db \<Rightarrow> txn \<Rightarrow> flash_sales_row \<Rightarrow> products_row \<Rightarrow> inventory_row \<Rightarrow> bool" where
  "drawn d t sale p i \<longleftrightarrow> allowed d t sale p \<and> Txn_units t \<le> flash_sales_remaining_stock sale
     \<and> i \<in> set (inventory d) \<and> inventory_product_id i = products_id p \<and> Txn_units t \<le> inventory_available i"

definition listed :: "Store \<Rightarrow> db \<Rightarrow> txn \<Rightarrow> products_row \<Rightarrow> string \<Rightarrow> string \<Rightarrow> bool" where
  "listed s d t p rid oid \<longleftrightarrow> NewID (rand (Txn_env t) 0) = Inr rid \<and> NewID (rand (Txn_env t) 1) = Inr oid
     \<and> rid \<notin> reservations_id ` set (reservations d) \<and> reservations_check (txn_row s t p rid)"

definition invoiced :: "db \<Rightarrow> txn \<Rightarrow> products_row \<Rightarrow> string \<Rightarrow> string \<Rightarrow> bool" where
  "invoiced d t p rid oid \<longleftrightarrow> oid \<notin> orders_id ` set (orders d) \<and> orders_check (txn_order t p rid oid)"

definition noted :: "db \<Rightarrow> txn \<Rightarrow> string \<Rightarrow> bool" where
  "noted d t eid \<longleftrightarrow> NewID (rand (Txn_env t) 2) = Inr eid \<and> eid \<notin> domain_events_id ` set (domain_events d)"

definition declined :: "db \<Rightarrow> txn \<Rightarrow> Error \<Rightarrow> writes \<Rightarrow> bool" where
  "declined d t de w \<longleftrightarrow> entered d t \<and> verdict (Txn_env t) d (Txn_sale t) (Txn_user t) (Txn_units t) = Some de
     \<and> (if de = sold_out then \<exists>sale p. sql_sale_product d (Txn_sale t) = Some (sale, p) \<and> Txn_units t \<le> flash_sales_remaining_stock sale
            \<and> w = held_sale t sale
        else w = held_key t)"

definition stored_key :: "db \<Rightarrow> txn \<Rightarrow> idempotency_keys_row option" where
  "stored_key d t = find (\<lambda>k. idempotency_keys_key k = Txn_key t \<and> idempotency_keys_scope k = ''reservation'') (idempotency_keys d)"

definition txn_ok :: "Store \<Rightarrow> db \<Rightarrow> txn \<Rightarrow> bool" where
  "txn_ok s d t \<longleftrightarrow> all_ok (Txn_env t) \<and> (case Txn_phase t of
     Begin \<Rightarrow> Txn_writes t = no_writes
   | Claimed \<Rightarrow> entered d t \<and> Txn_writes t = held_key t
   | Locked \<Rightarrow> entered d t \<and> Txn_writes t = held_key t
   | Opened m p \<Rightarrow> Txn_writes t = held_key t \<and> (\<exists>sale. opened d t sale p \<and> m = flash_sales_max_quantity_per_user sale)
   | Checked p \<Rightarrow> Txn_writes t = held_key t \<and> (\<exists>sale. allowed d t sale p)
   | SaleTaken p \<Rightarrow> (\<exists>sale. allowed d t sale p \<and> Txn_units t \<le> flash_sales_remaining_stock sale \<and> Txn_writes t = held_sale t sale)
   | StockTaken p \<Rightarrow> (\<exists>sale i. drawn d t sale p i \<and> Txn_writes t = held_stock t sale i)
   | Inserted p rid oid \<Rightarrow> (\<exists>sale i. drawn d t sale p i \<and> listed s d t p rid oid
       \<and> Txn_writes t = (held_stock t sale i)\<lparr>w_reservation := Some (txn_row s t p rid)\<rparr>)
   | Ordered p rid oid \<Rightarrow> (\<exists>sale i. drawn d t sale p i \<and> listed s d t p rid oid \<and> invoiced d t p rid oid
       \<and> Txn_writes t = (held_stock t sale i)\<lparr>w_reservation := Some (txn_row s t p rid), w_order := Some (txn_order t p rid oid)\<rparr>)
   | Logged p rid oid \<Rightarrow> (\<exists>sale i eid. drawn d t sale p i \<and> listed s d t p rid oid \<and> invoiced d t p rid oid \<and> noted d t eid
       \<and> Txn_writes t = (held_stock t sale i)\<lparr>w_reservation := Some (txn_row s t p rid), w_order := Some (txn_order t p rid oid),
           w_event := Some (txn_event t eid rid)\<rparr>)
   | Stored result \<Rightarrow> (\<exists>sale p i rid oid eid. drawn d t sale p i \<and> listed s d t p rid oid \<and> invoiced d t p rid oid \<and> noted d t eid
       \<and> result = txn_booking s t p rid oid
       \<and> Txn_writes t = (held_stock t sale i)\<lparr>w_reservation := Some (txn_row s t p rid), w_order := Some (txn_order t p rid oid),
           w_event := Some (txn_event t eid rid), w_key := Some (success_key (claim_row t) result)\<rparr>)
   | Refusing de \<Rightarrow> declined d t de (Txn_writes t)
   | Refused de \<Rightarrow> (\<exists>w. declined d t de w \<and> Txn_writes t = w\<lparr>w_key := Some (error_key (claim_row t) de)\<rparr>)
   | Replaying \<Rightarrow> \<not> request_invalid (Txn_sale t) (Txn_user t) (Txn_units t) (Txn_key t)
       \<and> Txn_key t \<in> idempotency_keys_key ` set (idempotency_keys d) \<and> Txn_writes t = no_writes
   | Replayed res \<Rightarrow> \<not> request_invalid (Txn_sale t) (Txn_user t) (Txn_units t) (Txn_key t) \<and> Txn_writes t = no_writes
       \<and> (\<exists>k status response. stored_key d t = Some k \<and> idempotency_keys_user_id k = Txn_user t
            \<and> idempotency_keys_request_fingerprint k = Txn_print t \<and> idempotency_keys_response_status k = Some status
            \<and> idempotency_keys_response_body k = Some response \<and> res = decode_response status response)
   | Finished res \<Rightarrow> Txn_writes t = no_writes
   | Crashed \<Rightarrow> Txn_writes t = no_writes)"

definition disjoint :: "'k option \<Rightarrow> 'k option \<Rightarrow> bool" where
  "disjoint x y \<longleftrightarrow> x = None \<or> x \<noteq> y"

definition apart :: "(string \<Rightarrow> int) \<Rightarrow> txn \<Rightarrow> txn \<Rightarrow> bool" where
  "apart H t u \<longleftrightarrow> disjoint (advisory H t) (advisory H u)
     \<and> disjoint (map_option idempotency_keys_key (w_key (Txn_writes t))) (map_option idempotency_keys_key (w_key (Txn_writes u)))
     \<and> disjoint (map_option flash_sales_id (w_sale (Txn_writes t))) (map_option flash_sales_id (w_sale (Txn_writes u)))
     \<and> disjoint (map_option inventory_product_id (w_stock (Txn_writes t))) (map_option inventory_product_id (w_stock (Txn_writes u)))
     \<and> disjoint (map_option reservations_id (w_reservation (Txn_writes t))) (map_option reservations_id (w_reservation (Txn_writes u)))
     \<and> disjoint (map_option orders_id (w_order (Txn_writes t))) (map_option orders_id (w_order (Txn_writes u)))
     \<and> disjoint (map_option domain_events_id (w_event (Txn_writes t))) (map_option domain_events_id (w_event (Txn_writes u)))"

lemma disjoint_commute: "disjoint x y = disjoint y x"
  by (auto simp: disjoint_def)

lemma not_pending: "\<not> pending sel key rest k \<Longrightarrow> u \<in> set rest \<Longrightarrow> disjoint (Some k) (map_option key (sel (Txn_writes u)))"
  by (metis disjoint_def)

lemma apart_commute: "apart H t u \<Longrightarrow> apart H u t"
  by (simp add: apart_def disjoint_commute)

lemma schema_good: "good d \<Longrightarrow> schema_ok d"
  by (simp add: good_def ledger_def)

section \<open>The rows each phase sees\<close>

lemma view_key: "entered d t \<Longrightarrow> overlay d (held_key t) = d\<lparr>idempotency_keys := idempotency_keys d @ [claim_row t]\<rparr>"
  by (simp add: overlay_def entered_def put_new no_writes_def)

lemma put_sale:
  assumes "good d" "sql_sale_product d (Txn_sale t) = Some (sale, p)"
  shows "put flash_sales_id (Some (sale_less t sale)) (flash_sales d) = taken_sales (Txn_env t) (Txn_sale t) (Txn_units t) (flash_sales d)"
  using sale_product_Some [OF schema_good [OF assms(1)] assms(2)]
  by (intro put_version [where f = "sale_less t"] keysD(3) schema_good assms(1)) simp_all

lemma put_stock:
  assumes "good d" "i \<in> set (inventory d)" "inventory_product_id i = pid"
  shows "put inventory_product_id (Some (stock_less t i)) (inventory d) = taken_inventory (Txn_env t) pid (Txn_units t) (inventory d)"
  using assms by (intro put_version [where f = "stock_less t"] keysD(2) schema_good) simp_all

lemma view_sale:
  assumes "good d" "allowed d t sale p"
  shows "overlay d (held_sale t sale) = d\<lparr>idempotency_keys := idempotency_keys d @ [claim_row t],
     flash_sales := taken_sales (Txn_env t) (Txn_sale t) (Txn_units t) (flash_sales d)\<rparr>"
  using assms put_sale [of d t sale p] by (simp add: overlay_def entered_def opened_def allowed_def put_new no_writes_def)

abbreviation drawn_db :: "db \<Rightarrow> txn \<Rightarrow> products_row \<Rightarrow> db" where
  "drawn_db d t p \<equiv> d\<lparr>inventory := taken_inventory (Txn_env t) (products_id p) (Txn_units t) (inventory d),
     flash_sales := taken_sales (Txn_env t) (Txn_sale t) (Txn_units t) (flash_sales d),
     idempotency_keys := idempotency_keys d @ [claim_row t]\<rparr>"

lemma view_stock:
  assumes "good d" "drawn d t sale p i"
  shows "overlay d (held_stock t sale i) = drawn_db d t p"
  using assms put_sale [of d t sale p] put_stock [of d i "products_id p" t]
  by (simp add: overlay_def entered_def opened_def allowed_def drawn_def put_new no_writes_def)

lemma view_row:
  assumes "good d" "drawn d t sale p i" "listed s d t p rid oid"
  shows "overlay d ((held_stock t sale i)\<lparr>w_reservation := Some (txn_row s t p rid)\<rparr>)
    = (drawn_db d t p)\<lparr>reservations := reservations d @ [txn_row s t p rid]\<rparr>"
  using assms put_sale [of d t sale p] put_stock [of d i "products_id p" t]
  by (simp add: overlay_def entered_def opened_def allowed_def drawn_def listed_def put_new no_writes_def)

lemma view_order:
  assumes "good d" "drawn d t sale p i" "listed s d t p rid oid" "invoiced d t p rid oid"
  shows "overlay d ((held_stock t sale i)\<lparr>w_reservation := Some (txn_row s t p rid), w_order := Some (txn_order t p rid oid)\<rparr>)
    = (drawn_db d t p)\<lparr>reservations := reservations d @ [txn_row s t p rid], orders := orders d @ [txn_order t p rid oid]\<rparr>"
  using assms put_sale [of d t sale p] put_stock [of d i "products_id p" t]
  by (simp add: overlay_def entered_def opened_def allowed_def drawn_def listed_def invoiced_def put_new no_writes_def)

abbreviation recorded_db :: "Store \<Rightarrow> db \<Rightarrow> txn \<Rightarrow> products_row \<Rightarrow> string \<Rightarrow> string \<Rightarrow> string \<Rightarrow> idempotency_keys_row \<Rightarrow> db" where
  "recorded_db s d t p rid oid eid k \<equiv> d\<lparr>inventory := taken_inventory (Txn_env t) (products_id p) (Txn_units t) (inventory d),
     flash_sales := taken_sales (Txn_env t) (Txn_sale t) (Txn_units t) (flash_sales d),
     reservations := reservations d @ [txn_row s t p rid], orders := orders d @ [txn_order t p rid oid],
     domain_events := domain_events d @ [txn_event t eid rid], idempotency_keys := idempotency_keys d @ [k]\<rparr>"

lemma view_recorded:
  assumes "good d" "drawn d t sale p i" "listed s d t p rid oid" "invoiced d t p rid oid" "noted d t eid" "idempotency_keys_key k = Txn_key t"
  shows "overlay d ((held_stock t sale i)\<lparr>w_reservation := Some (txn_row s t p rid), w_order := Some (txn_order t p rid oid),
      w_event := Some (txn_event t eid rid), w_key := Some k\<rparr>) = recorded_db s d t p rid oid eid k"
  using assms put_sale [of d t sale p] put_stock [of d i "products_id p" t]
  by (simp add: overlay_def entered_def opened_def allowed_def drawn_def listed_def invoiced_def noted_def put_new no_writes_def)

section \<open>Statements before COMMIT\<close>

definition quiet :: "Store \<Rightarrow> (string \<Rightarrow> int) \<Rightarrow> db \<Rightarrow> txn list \<Rightarrow> txn \<Rightarrow> db \<Rightarrow> txn \<Rightarrow> bool" where
  "quiet s H d rest t d' t' \<longleftrightarrow> d' = d \<and> txn_ok s d t' \<and> (\<forall>u \<in> set rest. apart H t u \<longrightarrow> apart H t' u)
     \<and> (\<forall>r. txn_result t' = Some r \<longrightarrow> txn_call s t d = (r, d))"

lemma facts_goto [simp]:
  "entered d (t\<lparr>Txn_phase := ph, Txn_writes := w\<rparr>) = entered d t"
  "opened d (t\<lparr>Txn_phase := ph, Txn_writes := w\<rparr>) sale p = opened d t sale p"
  "allowed d (t\<lparr>Txn_phase := ph, Txn_writes := w\<rparr>) sale p = allowed d t sale p"
  "drawn d (t\<lparr>Txn_phase := ph, Txn_writes := w\<rparr>) sale p i = drawn d t sale p i"
  "listed s d (t\<lparr>Txn_phase := ph, Txn_writes := w\<rparr>) p rid oid = listed s d t p rid oid"
  "invoiced d (t\<lparr>Txn_phase := ph, Txn_writes := w\<rparr>) p rid oid = invoiced d t p rid oid"
  "noted d (t\<lparr>Txn_phase := ph, Txn_writes := w\<rparr>) eid = noted d t eid"
  "declined d (t\<lparr>Txn_phase := ph, Txn_writes := w\<rparr>) de v = declined d t de v"
  "stored_key d (t\<lparr>Txn_phase := ph, Txn_writes := w\<rparr>) = stored_key d t"
  by (simp_all add: entered_def opened_def allowed_def drawn_def listed_def invoiced_def noted_def declined_def stored_key_def)

lemma facts_phase [simp]:
  "entered d (t\<lparr>Txn_phase := ph\<rparr>) = entered d t"
  "opened d (t\<lparr>Txn_phase := ph\<rparr>) sale p = opened d t sale p"
  "allowed d (t\<lparr>Txn_phase := ph\<rparr>) sale p = allowed d t sale p"
  "drawn d (t\<lparr>Txn_phase := ph\<rparr>) sale p i = drawn d t sale p i"
  "listed s d (t\<lparr>Txn_phase := ph\<rparr>) p rid oid = listed s d t p rid oid"
  "invoiced d (t\<lparr>Txn_phase := ph\<rparr>) p rid oid = invoiced d t p rid oid"
  "noted d (t\<lparr>Txn_phase := ph\<rparr>) eid = noted d t eid"
  "declined d (t\<lparr>Txn_phase := ph\<rparr>) de v = declined d t de v"
  "stored_key d (t\<lparr>Txn_phase := ph\<rparr>) = stored_key d t"
  by (simp_all add: entered_def opened_def allowed_def drawn_def listed_def invoiced_def noted_def declined_def stored_key_def)

text \<open>A statement takes at most one new row or lock, and has seen that nobody else has it.\<close>

lemma apart_goto:
  assumes "apart H t u" "holds_lock ph \<Longrightarrow> holds_lock (Txn_phase t) \<or> advisory H u \<noteq> Some (H (Txn_sale t @ '':'' @ Txn_user t))"
    and "map_option idempotency_keys_key (w_key w) = map_option idempotency_keys_key (w_key (Txn_writes t))
      \<or> disjoint (map_option idempotency_keys_key (w_key w)) (map_option idempotency_keys_key (w_key (Txn_writes u)))"
    and "w_sale w = w_sale (Txn_writes t) \<or> disjoint (map_option flash_sales_id (w_sale w)) (map_option flash_sales_id (w_sale (Txn_writes u)))"
    and "w_stock w = w_stock (Txn_writes t) \<or> disjoint (map_option inventory_product_id (w_stock w)) (map_option inventory_product_id (w_stock (Txn_writes u)))"
    and "w_reservation w = w_reservation (Txn_writes t)
      \<or> disjoint (map_option reservations_id (w_reservation w)) (map_option reservations_id (w_reservation (Txn_writes u)))"
    and "w_order w = w_order (Txn_writes t) \<or> disjoint (map_option orders_id (w_order w)) (map_option orders_id (w_order (Txn_writes u)))"
    and "w_event w = w_event (Txn_writes t) \<or> disjoint (map_option domain_events_id (w_event w)) (map_option domain_events_id (w_event (Txn_writes u)))"
  shows "apart H (t\<lparr>Txn_phase := ph, Txn_writes := w\<rparr>) u"
proof -
  have "disjoint (advisory H (t\<lparr>Txn_phase := ph, Txn_writes := w\<rparr>)) (advisory H u)"
    using assms(1,2) by (auto simp: apart_def advisory_def disjoint_def)
  moreover have "disjoint (map_option idempotency_keys_key (w_key w)) (map_option idempotency_keys_key (w_key (Txn_writes u)))"
    using assms(1,3) by (auto simp: apart_def)
  moreover have "disjoint (map_option flash_sales_id (w_sale w)) (map_option flash_sales_id (w_sale (Txn_writes u)))"
    using assms(1,4) by (auto simp: apart_def)
  moreover have "disjoint (map_option inventory_product_id (w_stock w)) (map_option inventory_product_id (w_stock (Txn_writes u)))"
    using assms(1,5) by (auto simp: apart_def)
  moreover have "disjoint (map_option reservations_id (w_reservation w)) (map_option reservations_id (w_reservation (Txn_writes u)))"
    using assms(1,6) by (auto simp: apart_def)
  moreover have "disjoint (map_option orders_id (w_order w)) (map_option orders_id (w_order (Txn_writes u)))"
    using assms(1,7) by (auto simp: apart_def)
  moreover have "disjoint (map_option domain_events_id (w_event w)) (map_option domain_events_id (w_event (Txn_writes u)))"
    using assms(1,8) by (auto simp: apart_def)
  ultimately show ?thesis by (simp add: apart_def)
qed

lemma apart_ended: "apart H (t\<lparr>Txn_phase := Finished r, Txn_writes := no_writes\<rparr>) u"
  by (simp add: apart_def disjoint_def advisory_def)

lemma quiet_end:
  assumes "goto d t (Finished r) no_writes = Some (d', t')" "all_ok (Txn_env t)" "txn_call s t d = (r, d)"
  shows "quiet s H d rest t d' t'"
  using assms apart_ended by (auto simp: quiet_def goto_def txn_ok_def txn_result_def)

lemma quiet_take:
  assumes "goto d t ph w = Some (d', t')" "txn_ok s d (t\<lparr>Txn_phase := ph, Txn_writes := w\<rparr>)" "\<And>r. ph \<noteq> Finished r"
    and "\<And>u. u \<in> set rest \<Longrightarrow> holds_lock ph \<Longrightarrow> holds_lock (Txn_phase t) \<or> advisory H u \<noteq> Some (H (Txn_sale t @ '':'' @ Txn_user t))"
    and "\<And>u. u \<in> set rest \<Longrightarrow> map_option idempotency_keys_key (w_key w) = map_option idempotency_keys_key (w_key (Txn_writes t))
      \<or> disjoint (map_option idempotency_keys_key (w_key w)) (map_option idempotency_keys_key (w_key (Txn_writes u)))"
    and "\<And>u. u \<in> set rest \<Longrightarrow> w_sale w = w_sale (Txn_writes t)
      \<or> disjoint (map_option flash_sales_id (w_sale w)) (map_option flash_sales_id (w_sale (Txn_writes u)))"
    and "\<And>u. u \<in> set rest \<Longrightarrow> w_stock w = w_stock (Txn_writes t)
      \<or> disjoint (map_option inventory_product_id (w_stock w)) (map_option inventory_product_id (w_stock (Txn_writes u)))"
    and "\<And>u. u \<in> set rest \<Longrightarrow> w_reservation w = w_reservation (Txn_writes t)
      \<or> disjoint (map_option reservations_id (w_reservation w)) (map_option reservations_id (w_reservation (Txn_writes u)))"
    and "\<And>u. u \<in> set rest \<Longrightarrow> w_order w = w_order (Txn_writes t)
      \<or> disjoint (map_option orders_id (w_order w)) (map_option orders_id (w_order (Txn_writes u)))"
    and "\<And>u. u \<in> set rest \<Longrightarrow> w_event w = w_event (Txn_writes t)
      \<or> disjoint (map_option domain_events_id (w_event w)) (map_option domain_events_id (w_event (Txn_writes u)))"
  shows "quiet s H d rest t d' t'"
proof -
  have "apart H (t\<lparr>Txn_phase := ph, Txn_writes := w\<rparr>) u" if "u \<in> set rest" "apart H t u" for u
    by (rule apart_goto [OF that(2)]) (use assms(4-) that(1) in blast)+
  then show ?thesis using assms(1-3) by (auto simp: quiet_def goto_def txn_result_def split: phase.splits)
qed

text \<open>Moving on with the same rows and locks.\<close>

lemma quiet_keep:
  assumes "goto d t ph w = Some (d', t')" "txn_ok s d (t\<lparr>Txn_phase := ph, Txn_writes := w\<rparr>)" "\<And>r. ph \<noteq> Finished r"
    and "holds_lock ph \<Longrightarrow> holds_lock (Txn_phase t)" "w = Txn_writes t"
  shows "quiet s H d rest t d' t'"
  by (rule quiet_take [OF assms(1-3)]) (use assms(4,5) in simp_all)

lemma step_claim_quiet:
  assumes "txn_ok s d t" "Txn_phase t = Begin" "step_claim d rest t = Some (d', t')"
  shows "quiet s H d rest t d' t'"
proof -
  have ok: "all_ok (Txn_env t)" "Txn_writes t = no_writes" using assms(1,2) by (simp_all add: txn_ok_def)
  consider (invalid) "request_invalid (Txn_sale t) (Txn_user t) (Txn_units t) (Txn_key t)"
    | (known) "\<not> request_invalid (Txn_sale t) (Txn_user t) (Txn_units t) (Txn_key t)" "Txn_key t \<in> idempotency_keys_key ` set (idempotency_keys d)"
    | (fresh) "entered d t" by (auto simp: entered_def)
  then show ?thesis
  proof cases
    case invalid
    with assms(3) ok show ?thesis by (intro quiet_end) (auto simp: step_claim_def txn_call_def Reserve_def Let_def)
  next
    case known
    then have g: "goto d t Replaying no_writes = Some (d', t')"
      using assms(3) ok by (simp add: step_claim_def sql_claim_key_def insert_idempotency_keys_def)
    show ?thesis by (rule quiet_keep [OF g]) (use known ok in \<open>simp_all add: txn_ok_def\<close>)
  next
    case fresh
    then have g: "goto d t Claimed (held_key t) = Some (d', t')"
      and free: "\<not> pending w_key idempotency_keys_key rest (Txn_key t)"
      using assms(3) ok by (auto simp: step_claim_def sql_claim_key_def insert_idempotency_keys_def entered_def split: if_splits)
    show ?thesis
      by (rule quiet_take [OF g]) (use fresh ok not_pending [OF free] in \<open>simp_all add: txn_ok_def\<close>)
  qed
qed

lemma call_replay:
  assumes "all_ok (Txn_env t)" "\<not> request_invalid (Txn_sale t) (Txn_user t) (Txn_units t) (Txn_key t)"
    "Txn_key t \<in> idempotency_keys_key ` set (idempotency_keys d)"
  shows "txn_call s t d = replayReservation (Txn_env t) d (Txn_key t) (Txn_user t) (Txn_print t)"
  using assms by (simp add: txn_call_def Reserve_def Let_def sql_claim_key_def insert_idempotency_keys_def)

lemma step_replay_quiet:
  assumes "txn_ok s d t" "Txn_phase t = Replaying" "step_replay d t = Some (d', t')"
  shows "quiet s H d rest t d' t'"
proof -
  have ok: "all_ok (Txn_env t)" "Txn_writes t = no_writes" and v: "\<not> request_invalid (Txn_sale t) (Txn_user t) (Txn_units t) (Txn_key t)"
    and key: "Txn_key t \<in> idempotency_keys_key ` set (idempotency_keys d)" using assms(1,2) by (simp_all add: txn_ok_def)
  note call = call_replay [OF ok(1) v key, of s] replayReservation_def
  show ?thesis
  proof (cases "stored_key d t")
    case None
    with assms(3) ok show ?thesis by (intro quiet_end) (auto simp: step_replay_def call stored_key_def)
  next
    case (Some k)
    let ?fits = "idempotency_keys_user_id k = Txn_user t \<and> idempotency_keys_request_fingerprint k = Txn_print t"
    show ?thesis
    proof (cases "?fits \<and> idempotency_keys_response_status k \<noteq> None \<and> idempotency_keys_response_body k \<noteq> None")
      case True
      then obtain status response where st: "idempotency_keys_response_status k = Some status"
        "idempotency_keys_response_body k = Some response" by blast
      with True Some assms(3) ok have g: "goto d t (Replayed (decode_response status response)) no_writes = Some (d', t')"
        by (simp add: step_replay_def stored_key_def)
      show ?thesis by (rule quiet_keep [OF g]) (use ok v st True Some in \<open>auto simp: txn_ok_def\<close>)
    next
      case False
      with Some assms(3) ok show ?thesis
        by (intro quiet_end [where r = "fst (txn_call s t d)"]) (auto simp: step_replay_def call stored_key_def split: option.splits if_splits)
    qed
  qed
qed

lemma step_replayed_quiet:
  assumes "txn_ok s d t" "Txn_phase t = Replayed res" "goto d t (Finished res) no_writes = Some (d', t')"
  shows "quiet s H d rest t d' t'"
proof -
  obtain k status response where ok: "all_ok (Txn_env t)" "\<not> request_invalid (Txn_sale t) (Txn_user t) (Txn_units t) (Txn_key t)"
    and k: "stored_key d t = Some k" "idempotency_keys_user_id k = Txn_user t" "idempotency_keys_request_fingerprint k = Txn_print t"
      "idempotency_keys_response_status k = Some status" "idempotency_keys_response_body k = Some response"
      "res = decode_response status response"
    using assms(1,2) by (auto simp: txn_ok_def)
  have "k \<in> set (idempotency_keys d)" "idempotency_keys_key k = Txn_key t"
    using k(1) by (auto simp: stored_key_def find_Some_iff)
  then have "Txn_key t \<in> idempotency_keys_key ` set (idempotency_keys d)" by force
  from call_replay [OF ok this, of s] k have "txn_call s t d = (res, d)"
    using ok(1) by (simp add: replayReservation_def stored_key_def)
  with assms(3) ok(1) show ?thesis by (rule_tac quiet_end)
qed

text \<open>The lock, the terms of the sale and the limit.\<close>

lemma step_lock_quiet:
  assumes "txn_ok s d t" "Txn_phase t = Claimed" "step_lock H d rest t = Some (d', t')"
  shows "quiet s H d rest t d' t'"
proof -
  have free: "advisory H u \<noteq> Some (H (Txn_sale t @ '':'' @ Txn_user t))" if "u \<in> set rest" for u
    using assms(3) that by (auto simp: step_lock_def split: if_splits)
  from assms(3) have "goto d t Locked (Txn_writes t) = Some (d', t')" by (simp add: step_lock_def split: if_splits)
  then show ?thesis by (rule quiet_take) (use assms(1,2) free in \<open>simp_all add: txn_ok_def\<close>)
qed

lemma sale_closed_iff:
  "(flash_sales_state sale \<noteq> SaleActive \<or> go_now e < flash_sales_starts_at sale \<or> \<not> go_now e < flash_sales_ends_at sale) = (\<not> sale_open e sale)"
  by (auto simp: sale_open_def)

lemma quiet_refuse:
  assumes "goto d t (Refusing de) w = Some (d', t')" "all_ok (Txn_env t)" "declined d t de w" "w = Txn_writes t" "holds_lock (Txn_phase t)"
  shows "quiet s H d rest t d' t'"
  by (rule quiet_keep [OF assms(1)]) (use assms(2-) in \<open>simp_all add: txn_ok_def\<close>)

lemma step_sale_quiet:
  assumes "txn_ok s d t" "Txn_phase t = Locked" "step_sale d t = Some (d', t')"
  shows "quiet s H d rest t d' t'"
proof -
  have ok: "all_ok (Txn_env t)" "entered d t" "Txn_writes t = held_key t" "holds_lock (Txn_phase t)"
    using assms(1,2) by (simp_all add: txn_ok_def)
  have nf: "domainError ErrNotFound a b h = \<lparr>Error_Code = a, Error_Message = b, Error_HTTPStatus = h\<rparr>" for a b h
    by (simp add: domainError_def ErrNotFound_def)
  note step = assms(3) [unfolded step_sale_def ok(3) view_key [OF ok(2)] sale_product_keys Let_def sale_closed_iff notFound_NoRows nf]
  show ?thesis
  proof (cases "sql_sale_product d (Txn_sale t)")
    case None
    with step ok show ?thesis by (intro quiet_refuse) (auto simp: declined_def verdict_def)
  next
    case (Some x)
    obtain sale p where x: "x = (sale, p)" by (cases x)
    consider (closed) "\<not> sale_open (Txn_env t) sale" | (inactive) "sale_open (Txn_env t) sale" "\<not> products_active p"
      | (ready) "opened d t sale p" using Some x ok(2) by (auto simp: opened_def)
    then show ?thesis
    proof cases
      case ready
      with step Some x have g: "goto d t (Opened (flash_sales_max_quantity_per_user sale) p) (held_key t) = Some (d', t')"
        by (simp add: opened_def)
      show ?thesis by (rule quiet_keep [OF g]) (use ready ok in \<open>auto simp: txn_ok_def\<close>)
    next
      case closed
      with step Some x ok show ?thesis by (intro quiet_refuse) (auto simp: declined_def verdict_def)
    next
      case inactive
      with step Some x ok show ?thesis by (intro quiet_refuse) (auto simp: declined_def verdict_def)
    qed
  qed
qed

lemma entered_units: "entered d t \<Longrightarrow> 0 < Txn_units t \<and> Txn_units t \<le> 100"
  by (simp add: entered_def request_invalid_def)

lemma step_limit_quiet:
  assumes "good d" "txn_ok s d t" "Txn_phase t = Opened m p" "step_limit d t m p = Some (d', t')"
  shows "quiet s H d rest t d' t'"
proof -
  obtain sale where ok: "all_ok (Txn_env t)" "Txn_writes t = held_key t" "holds_lock (Txn_phase t)"
    and o: "opened d t sale p" "m = flash_sales_max_quantity_per_user sale" using assms(2,3) by (auto simp: txn_ok_def)
  have en: "entered d t" and sp: "sql_sale_product d (Txn_sale t) = Some (sale, p)" using o(1) by (simp_all add: opened_def)
  have l: "ledger [] [] [] [] d" using assms(1) by (simp add: good_def)
  note sale = sale_product_Some [OF ledgerD(1) [OF l] sp]
  have "sql_existing_quantity (overlay d (Txn_writes t)) (Txn_sale t) (Txn_user t) = sql_existing_quantity d (Txn_sale t) (Txn_user t)"
    by (simp add: ok(2) view_key [OF en] sql_existing_quantity_def)
  then have ex: "wrap64 (sql_existing_quantity (overlay d (Txn_writes t)) (Txn_sale t) (Txn_user t) + Txn_units t)
      = user_units (reservations d) (Txn_sale t) (Txn_user t) + Txn_units t"
    using existing_no_wrap [OF l sale(1,2)] entered_units [OF en] by simp
  note step = assms(4) [unfolded step_limit_def ex o(2)]
  show ?thesis
  proof (cases "flash_sales_max_quantity_per_user sale < user_units (reservations d) (Txn_sale t) (Txn_user t) + Txn_units t")
    case True
    with step ok o(1) show ?thesis by (intro quiet_refuse) (auto simp: declined_def verdict_def opened_def)
  next
    case False
    with step have g: "goto d t (Checked p) (Txn_writes t) = Some (d', t')" by simp
    show ?thesis by (rule quiet_keep [OF g]) (use False ok o in \<open>auto simp: txn_ok_def allowed_def\<close>)
  qed
qed

text \<open>The two counters.\<close>

lemma view_key_ledger:
  assumes "good d" "entered d t"
  shows "ledger [] [] [] [] (overlay d (held_key t))"
  using claim_good(1) [OF assms(1), of "Txn_env t" "Txn_key t" "Txn_user t" "Txn_print t"] assms(2)
  by (simp add: view_key claim_Some entered_def)

lemma take_sale_view:
  assumes g: "good d" and a: "allowed d t sale p" and q: "Txn_units t \<le> flash_sales_remaining_stock sale"
  shows "sql_take_sale_stock (Txn_env t) (overlay d (held_key t)) (Txn_sale t) (Txn_units t) = Inr (overlay d (held_sale t sale), 1)"
proof -
  have en: "entered d t" and sp: "sql_sale_product d (Txn_sale t) = Some (sale, p)" and act: "flash_sales_state sale = SaleActive"
    using a by (simp_all add: allowed_def opened_def sale_open_def)
  note sale = sale_product_Some [OF schema_good [OF g] sp]
  have "sale \<in> set (flash_sales (overlay d (held_key t)))" using sale(1) by (simp add: view_key [OF en])
  from take_sale_ok [OF ledgerD(1) [OF view_key_ledger [OF g en]] this sale(2) act q, of "Txn_env t"] entered_units [OF en]
  show ?thesis by (simp add: view_key [OF en] view_sale [OF g a])
qed

lemma step_take_sale_quiet:
  assumes "good d" "txn_ok s d t" "Txn_phase t = Checked p" "step_take_sale d rest t p = Some (d', t')"
  shows "quiet s H d rest t d' t'"
proof -
  obtain sale where ok: "all_ok (Txn_env t)" "Txn_writes t = held_key t" "holds_lock (Txn_phase t)"
    and a: "allowed d t sale p" using assms(2,3) by (auto simp: txn_ok_def)
  have en: "entered d t" and sp: "sql_sale_product d (Txn_sale t) = Some (sale, p)" and act: "flash_sales_state sale = SaleActive"
    using a by (simp_all add: allowed_def opened_def sale_open_def)
  note sale = sale_product_Some [OF schema_good [OF assms(1)] sp]
  note sc = ledgerD(1) [OF view_key_ledger [OF assms(1) en]]
  have in_view: "sale \<in> set (flash_sales (overlay d (held_key t)))" using sale(1) by (simp add: view_key [OF en])
  show ?thesis
  proof (cases "flash_sales_remaining_stock sale < Txn_units t")
    case True
    with assms(4) ok take_sale_too_much [OF sc in_view sale(2)]
    have g: "goto d t (Refusing allocation_sold_out) (Txn_writes t) = Some (d', t')" by (simp add: step_take_sale_def)
    show ?thesis by (rule quiet_refuse [OF g]) (use ok a True in \<open>simp_all add: declined_def verdict_def allowed_def opened_def\<close>)
  next
    case False
    then have ts: "sql_take_sale_stock (Txn_env t) (overlay d (held_key t)) (Txn_sale t) (Txn_units t) = Inr (overlay d (held_sale t sale), 1)"
      by (intro take_sale_view [OF assms(1) a]) simp
    have "find (\<lambda>r. flash_sales_id r = Txn_sale t) (flash_sales d) = Some sale"
      using sp by (auto simp: sql_sale_product_def split: option.splits)
    then have new: "find (\<lambda>r. flash_sales_id r = Txn_sale t) (taken_sales (Txn_env t) (Txn_sale t) (Txn_units t) (flash_sales d)) = Some (sale_less t sale)"
      using sale(2) by (simp add: sale_taken.find_update)
    have free: "\<not> pending w_sale flash_sales_id rest (Txn_sale t)" and g: "goto d t (SaleTaken p) (held_sale t sale) = Some (d', t')"
      using assms(4) ok(2) ts new by (auto simp: step_take_sale_def view_sale [OF assms(1) a] split: if_splits)
    show ?thesis
      by (rule quiet_take [OF g]) (use ok a False not_pending [OF free] sale(2) in \<open>auto simp: txn_ok_def\<close>)
  qed
qed

lemma view_sale_ledger:
  assumes "good d" "allowed d t sale p" "Txn_units t \<le> flash_sales_remaining_stock sale"
  shows "ledger [] [txn_row s t p rid] [] [] (overlay d (held_sale t sale))"
proof -
  have "entered d t" using assms(2) by (simp add: allowed_def opened_def)
  from view_key_ledger [OF assms(1) this] show ?thesis
    by (rule take_sale_ledger [where n = 1]) (use take_sale_view [OF assms] in simp_all)
qed

lemma step_take_stock_quiet:
  assumes "good d" "txn_ok s d t" "Txn_phase t = SaleTaken p" "step_take_stock d rest t p = Some (d', t')"
  shows "quiet s H d rest t d' t'"
proof -
  obtain sale where ok: "all_ok (Txn_env t)" "Txn_writes t = held_sale t sale" "holds_lock (Txn_phase t)"
    and a: "allowed d t sale p" "Txn_units t \<le> flash_sales_remaining_stock sale" using assms(2,3) by (auto simp: txn_ok_def)
  have en: "entered d t" and sp: "sql_sale_product d (Txn_sale t) = Some (sale, p)"
    using a(1) by (simp_all add: allowed_def opened_def)
  have l: "ledger [] [] [] [] d" using assms(1) by (simp add: good_def)
  have "products_id p \<in> products_id ` set (products d)" using sale_product_Some(3) [OF ledgerD(1) [OF l] sp] by simp
  then obtain i where i: "i \<in> set (inventory d)" "inventory_product_id i = products_id p"
      "available_units d (products_id p) = inventory_available i" "\<forall>j \<in> set (inventory d). inventory_product_id j = products_id p \<longrightarrow> j = i"
    by (rule available_unique [OF l])
  note view = view_sale [OF assms(1) a(1)]
  show ?thesis
  proof (cases "inventory_available i < Txn_units t")
    case True
    have "sql_take_inventory (Txn_env t) (overlay d (held_sale t sale)) (products_id p) (Txn_units t) = Inr (overlay d (held_sale t sale), 0)"
      by (rule take_inventory_too_much) (use True i(4) in \<open>simp add: view\<close>)
    with assms(4) ok have g: "goto d t (Refusing sold_out) (Txn_writes t) = Some (d', t')" by (simp add: step_take_stock_def)
    show ?thesis
      by (rule quiet_refuse [OF g]) (use ok a True i(3) in \<open>simp_all add: declined_def verdict_def allowed_def opened_def\<close>)
  next
    case False
    then have q: "Txn_units t \<le> inventory_available i" "0 < Txn_units t" using entered_units [OF en] by simp_all
    have ti: "sql_take_inventory (Txn_env t) (overlay d (held_sale t sale)) (products_id p) (Txn_units t) = Inr ((overlay d (held_sale t sale))
        \<lparr>inventory := taken_inventory (Txn_env t) (products_id p) (Txn_units t) (inventory d)\<rparr>, 1)"
      using take_inventory_ok [OF view_sale_ledger [OF assms(1) a], of i "products_id p" "Txn_units t"] i(1,2) q by (simp add: view)
    have "find (\<lambda>r. inventory_product_id r = products_id p) (inventory d) = Some i"
      using find_Some_iff_key [OF keysD(2) [OF ledgerD(1) [OF l]]] i(1,2) by blast
    then have new: "find (\<lambda>r. inventory_product_id r = products_id p) (taken_inventory (Txn_env t) (products_id p) (Txn_units t) (inventory d))
        = Some (stock_less t i)" using i(2) by (simp add: inventory_taken.find_update)
    have free: "\<not> pending w_stock inventory_product_id rest (products_id p)" and g: "goto d t (StockTaken p) (held_stock t sale i) = Some (d', t')"
      using assms(4) ok(2) ti new by (auto simp: step_take_stock_def split: if_splits)
    have "drawn d t sale p i" using a i(1,2) q by (simp add: drawn_def)
    then show ?thesis
      by (intro quiet_take [OF g]) (use ok not_pending [OF free] i(2) in \<open>auto simp: txn_ok_def\<close>)
  qed
qed

text \<open>Recording the reservation. A statement the server rejects is rejected in the call made alone, too.\<close>

lemma call_recording:
  assumes "good d" "all_ok (Txn_env t)" "drawn d t sale p i"
  shows "txn_call s t d = reserve_record s (Txn_env t) d (drawn_db d t p) (Txn_sale t) (Txn_user t) (Txn_units t) (Txn_key t) p"
    "schema_ok (drawn_db d t p)"
proof -
  note facts = assms(3) [unfolded drawn_def allowed_def opened_def entered_def sale_open_def]
  show "txn_call s t d = reserve_record s (Txn_env t) d (drawn_db d t p) (Txn_sale t) (Txn_user t) (Txn_units t) (Txn_key t) p"
    unfolding txn_call_def by (rule Reserve_recording(1) [OF assms(1,2)]) (use facts in auto)
  show "schema_ok (drawn_db d t p)"
    by (rule Reserve_recording(2) [OF assms(1,2)]) (use facts in auto)
qed

lemma drawn_refs:
  assumes "good d" "drawn d t sale p i"
  shows "Txn_sale t \<in> flash_sales_id ` set (flash_sales (drawn_db d t p))" "products_id p \<in> products_id ` set (products d)"
proof -
  have "sql_sale_product d (Txn_sale t) = Some (sale, p)" using assms(2) by (simp add: drawn_def allowed_def opened_def)
  note sale = sale_product_Some [OF schema_good [OF assms(1)] this]
  show "Txn_sale t \<in> flash_sales_id ` set (flash_sales (drawn_db d t p))" "products_id p \<in> products_id ` set (products d)"
    using sale(2,3) imageI [OF sale(1), of flash_sales_id] by (simp_all add: image_update_kept)
qed

lemma step_insert_quiet:
  assumes "good d" "txn_ok s d t" "Txn_phase t = StockTaken p" "step_insert s d rest t p = Some (d', t')"
  shows "quiet s H d rest t d' t'"
proof -
  obtain sale i where ok: "all_ok (Txn_env t)" "Txn_writes t = held_stock t sale i" "holds_lock (Txn_phase t)"
    and dr: "drawn d t sale p i" using assms(2,3) by (auto simp: txn_ok_def)
  note call = call_recording(1) [OF assms(1) ok(1) dr, of s] and step = assms(4) [unfolded step_insert_def ok(2) view_stock [OF assms(1) dr] Let_def]
  consider (norid) err where "NewID (rand (Txn_env t) 0) = Inl err"
    | (nooid) rid err where "NewID (rand (Txn_env t) 0) = Inr rid" "NewID (rand (Txn_env t) 1) = Inl err"
    | (ids) rid oid where "NewID (rand (Txn_env t) 0) = Inr rid" "NewID (rand (Txn_env t) 1) = Inr oid"
    by (cases "NewID (rand (Txn_env t) 0)"; cases "NewID (rand (Txn_env t) 1)") auto
  then show ?thesis
  proof cases
    case norid
    with step ok(1) call show ?thesis by (intro quiet_end) (auto simp: reserve_record_def)
  next
    case nooid
    with step ok(1) call show ?thesis by (intro quiet_end) (auto simp: reserve_record_def)
  next
    case ids
    show ?thesis
    proof (cases "listed s d t p rid oid")
      case False
      then have "insert_reservations (drawn_db d t p) (txn_row s t p rid) = Inl constraint_error"
        using ids by (auto simp: insert_reservations_def listed_def)
      with step ids ok(1) call show ?thesis by (intro quiet_end) (auto simp: reserve_record_def)
    next
      case True
      then have "insert_reservations (drawn_db d t p) (txn_row s t p rid) = Inr ((drawn_db d t p)\<lparr>reservations := reservations d @ [txn_row s t p rid]\<rparr>)"
        using drawn_refs [OF assms(1) dr] by (simp add: insert_reservations_def listed_def)
      with step ids have free: "\<not> pending w_reservation reservations_id rest rid"
        and g: "goto d t (Inserted p rid oid) ((held_stock t sale i)\<lparr>w_reservation := Some (txn_row s t p rid)\<rparr>) = Some (d', t')"
        by (auto split: if_splits)
      show ?thesis
        by (rule quiet_take [OF g]) (use ok dr True not_pending [OF free] in \<open>auto simp: txn_ok_def\<close>)
    qed
  qed
qed

lemma insert_row_ok:
  assumes "good d" "drawn d t sale p i" "listed s d t p rid oid"
  shows "insert_reservations (drawn_db d t p) (txn_row s t p rid) = Inr ((drawn_db d t p)\<lparr>reservations := reservations d @ [txn_row s t p rid]\<rparr>)"
  using drawn_refs [OF assms(1,2)] assms(3) by (simp add: insert_reservations_def listed_def)

lemma unordered:
  assumes "good d" "rid \<notin> reservations_id ` set (reservations d)"
  shows "rid \<notin> orders_reservation_id ` set (orders d)"
  using refsD(5) [OF schema_good [OF assms(1)]] assms(2) by auto

abbreviation row_db :: "Store \<Rightarrow> db \<Rightarrow> txn \<Rightarrow> products_row \<Rightarrow> string \<Rightarrow> db" where
  "row_db s d t p rid \<equiv> (drawn_db d t p)\<lparr>reservations := reservations d @ [txn_row s t p rid]\<rparr>"

abbreviation order_db :: "Store \<Rightarrow> db \<Rightarrow> txn \<Rightarrow> products_row \<Rightarrow> string \<Rightarrow> string \<Rightarrow> db" where
  "order_db s d t p rid oid \<equiv> (row_db s d t p rid)\<lparr>orders := orders d @ [txn_order t p rid oid]\<rparr>"

lemma insert_order_ok:
  assumes "good d" "drawn d t sale p i" "listed s d t p rid oid"
  shows "insert_orders (row_db s d t p rid) (txn_order t p rid oid)
    = (if invoiced d t p rid oid then Inr (order_db s d t p rid oid) else Inl constraint_error)"
proof -
  have "rid \<notin> orders_reservation_id ` set (orders d)" using unordered [OF assms(1)] assms(3) by (simp add: listed_def)
  then show ?thesis
    using drawn_refs [OF assms(1,2)] by (simp add: insert_orders_def invoiced_def new_order_def)
qed

lemma step_order_quiet:
  assumes "good d" "txn_ok s d t" "Txn_phase t = Inserted p rid oid" "step_order d rest t p rid oid = Some (d', t')"
  shows "quiet s H d rest t d' t'"
proof -
  obtain sale i where ok: "all_ok (Txn_env t)" "Txn_writes t = (held_stock t sale i)\<lparr>w_reservation := Some (txn_row s t p rid)\<rparr>"
      "holds_lock (Txn_phase t)" and dr: "drawn d t sale p i" "listed s d t p rid oid" using assms(2,3) by (auto simp: txn_ok_def)
  note step = assms(4) [unfolded step_order_def ok(2) view_row [OF assms(1) dr] Let_def insert_order_ok [OF assms(1) dr]]
  have ids: "NewID (rand (Txn_env t) 0) = Inr rid" "NewID (rand (Txn_env t) 1) = Inr oid" using dr(2) by (simp_all add: listed_def)
  show ?thesis
  proof (cases "invoiced d t p rid oid")
    case False
    with ok(1) have "txn_call s t d = (Inl (WrapError ''insert order'' constraint_error), d)"
      unfolding call_recording(1) [OF assms(1) ok(1) dr(1)] reserve_record_def Let_def
      by (simp add: ids insert_row_ok [OF assms(1) dr] insert_order_ok [OF assms(1) dr] del: One_nat_def)
    with False step ok(1) show ?thesis by (intro quiet_end) auto
  next
    case True
    with step have free: "\<not> pending w_order orders_id rest oid"
      and g: "goto d t (Ordered p rid oid) ((held_stock t sale i)\<lparr>w_reservation := Some (txn_row s t p rid), w_order := Some (txn_order t p rid oid)\<rparr>) = Some (d', t')"
      by (auto split: if_splits)
    show ?thesis
      by (rule quiet_take [OF g]) (use ok dr True not_pending [OF free] in \<open>auto simp: txn_ok_def\<close>)
  qed
qed

lemma event_ok:
  assumes "all_ok (Txn_env t)"
  shows "event (Txn_env t) 9 2 (order_db s d t p rid oid) ''reservation'' rid ''reservation.created'' '''' ''pending''
      (MetaInt ''quantity'' (Txn_units t))
    = (case NewID (rand (Txn_env t) 2) of Inl err \<Rightarrow> Inl err
       | Inr eid \<Rightarrow> if noted d t eid then Inr ((order_db s d t p rid oid)\<lparr>domain_events := domain_events d @ [txn_event t eid rid]\<rparr>)
           else Inl constraint_error)"
  using assms by (simp add: event_def insert_domain_events_def noted_def NULLIF_empty_def split: sum.split)

lemma step_event_quiet:
  assumes "good d" "txn_ok s d t" "Txn_phase t = Ordered p rid oid" "step_event d rest t p rid oid = Some (d', t')"
  shows "quiet s H d rest t d' t'"
proof -
  obtain sale i where ok: "all_ok (Txn_env t)" "holds_lock (Txn_phase t)"
      "Txn_writes t = (held_stock t sale i)\<lparr>w_reservation := Some (txn_row s t p rid), w_order := Some (txn_order t p rid oid)\<rparr>"
    and dr: "drawn d t sale p i" "listed s d t p rid oid" and inv: "invoiced d t p rid oid" using assms(2,3) by (auto simp: txn_ok_def)
  note step = assms(4) [unfolded step_event_def ok(3) view_order [OF assms(1) dr inv] event_ok [OF ok(1)] Let_def]
  have ids: "NewID (rand (Txn_env t) 0) = Inr rid" "NewID (rand (Txn_env t) 1) = Inr oid" using dr(2) by (simp_all add: listed_def)
  have fails: "quiet s H d rest t d' t'" if "(case NewID (rand (Txn_env t) 2) of Inl err \<Rightarrow> Inl err
       | Inr eid \<Rightarrow> if noted d t eid then Inr ((order_db s d t p rid oid)\<lparr>domain_events := domain_events d @ [txn_event t eid rid]\<rparr>)
           else Inl constraint_error) = Inl err" for err
  proof -
    have "txn_call s t d = (Inl err, d)"
      unfolding call_recording(1) [OF assms(1) ok(1) dr(1)] reserve_record_def Let_def
      using ok(1) inv that by (simp add: ids insert_row_ok [OF assms(1) dr] insert_order_ok [OF assms(1) dr] event_ok del: One_nat_def)
    with step that ok(1) show ?thesis by (intro quiet_end [where r = "Inl err"]) simp_all
  qed
  show ?thesis
  proof (cases "NewID (rand (Txn_env t) 2)")
    case (Inl err)
    then show ?thesis by (intro fails) simp
  next
    case (Inr eid)
    show ?thesis
    proof (cases "noted d t eid")
      case False
      with Inr show ?thesis by (intro fails) simp
    next
      case True
      with step Inr have free: "\<not> pending w_event domain_events_id rest eid"
        and g: "goto d t (Logged p rid oid) ((held_stock t sale i)\<lparr>w_reservation := Some (txn_row s t p rid), w_order := Some (txn_order t p rid oid),
           w_event := Some (txn_event t eid rid)\<rparr>) = Some (d', t')"
        by (auto split: if_splits)
      show ?thesis
        by (rule quiet_take [OF g]) (use ok dr inv True not_pending [OF free] in \<open>auto simp: txn_ok_def\<close>)
    qed
  qed
qed

text \<open>Storing the response under the key.\<close>

lemma find_stored:
  assumes "entered d t" "idempotency_keys_key k = Txn_key t"
  shows "find (\<lambda>k. idempotency_keys_key k = Txn_key t) (idempotency_keys d @ [k]) = Some k"
proof -
  have "find (\<lambda>k. idempotency_keys_key k = Txn_key t) (ks @ [k]) = Some k" if "Txn_key t \<notin> idempotency_keys_key ` set ks" for ks
    using that assms(2) by (induction ks) auto
  then show ?thesis using assms(1) by (simp add: entered_def)
qed

lemma txn_ok_Stored:
  assumes "Txn_phase t = Stored result" "all_ok (Txn_env t)" "drawn d t sale p i" "listed s d t p rid oid" "invoiced d t p rid oid" "noted d t eid"
    "result = txn_booking s t p rid oid"
    "Txn_writes t = (held_stock t sale i)\<lparr>w_reservation := Some (txn_row s t p rid), w_order := Some (txn_order t p rid oid),
       w_event := Some (txn_event t eid rid), w_key := Some (success_key (claim_row t) result)\<rparr>"
  shows "txn_ok s d t"
  using assms(2-) unfolding txn_ok_def assms(1) phase.case by blast

lemma step_store_quiet:
  assumes "good d" "txn_ok s d t" "Txn_phase t = Logged p rid oid" "step_store s d t p rid oid = Some (d', t')"
  shows "quiet s H d rest t d' t'"
proof -
  obtain sale i eid where ok: "all_ok (Txn_env t)" "holds_lock (Txn_phase t)"
      "Txn_writes t = (held_stock t sale i)\<lparr>w_reservation := Some (txn_row s t p rid), w_order := Some (txn_order t p rid oid),
           w_event := Some (txn_event t eid rid)\<rparr>"
    and dr: "drawn d t sale p i" "listed s d t p rid oid" "invoiced d t p rid oid" "noted d t eid" using assms(2,3) by (auto simp: txn_ok_def)
  have en: "entered d t" and key: "Txn_key t \<notin> idempotency_keys_key ` set (idempotency_keys d)"
    using dr(1) by (simp_all add: drawn_def allowed_def opened_def entered_def)
  let ?k = "success_key (claim_row t) (txn_booking s t p rid oid)"
  have view: "overlay d (Txn_writes t) = recorded_db s d t p rid oid eid (claim_row t)"
    using view_recorded [OF assms(1) dr, of "claim_row t"] by (simp add: ok(3) no_writes_def)
  have g: "goto d t (Stored (txn_booking s t p rid oid)) ((Txn_writes t)\<lparr>w_key := Some ?k\<rparr>) = Some (d', t')"
    using assms(4) find_stored [OF en, of ?k]
    by (simp add: step_store_def Let_def view sql_store_success_def update_idempotency_keys_eq update_key_last [OF key])
  have "txn_ok s d (t\<lparr>Txn_phase := Stored (txn_booking s t p rid oid), Txn_writes := (Txn_writes t)\<lparr>w_key := Some ?k\<rparr>\<rparr>)"
    by (rule txn_ok_Stored [where sale = sale and p = p and i = i and rid = rid and oid = oid and eid = eid and result = "txn_booking s t p rid oid"])
      (use ok dr in simp_all)
  then show ?thesis by (intro quiet_take [OF g]) (use ok in simp_all)
qed

lemma view_declined:
  assumes "good d" "declined d t de w" "idempotency_keys_key k = Txn_key t"
  shows "overlay d (w\<lparr>w_key := Some k\<rparr>) = (if de = sold_out then d\<lparr>flash_sales := taken_sales (Txn_env t) (Txn_sale t) (Txn_units t) (flash_sales d)\<rparr> else d)
     \<lparr>idempotency_keys := idempotency_keys d @ [k]\<rparr>"
proof (cases "de = sold_out")
  case True
  with assms(2) obtain sale p where "sql_sale_product d (Txn_sale t) = Some (sale, p)" "w = held_sale t sale" by (auto simp: declined_def)
  with True assms put_sale [of d t sale p] show ?thesis by (simp add: overlay_def declined_def entered_def put_new no_writes_def)
next
  case False
  with assms show ?thesis by (simp add: overlay_def declined_def entered_def put_new no_writes_def)
qed

lemma declined_key: "declined d t de w \<Longrightarrow> w\<lparr>w_key := Some (claim_row t)\<rparr> = w"
  by (auto simp: declined_def split: if_splits)

lemma step_refuse_quiet:
  assumes "good d" "txn_ok s d t" "Txn_phase t = Refusing de" "step_refuse d t de = Some (d', t')"
  shows "quiet s H d rest t d' t'"
proof -
  have ok: "all_ok (Txn_env t)" "holds_lock (Txn_phase t)" and de: "declined d t de (Txn_writes t)" using assms(2,3) by (simp_all add: txn_ok_def)
  let ?w = "Txn_writes t" and ?k = "error_key (claim_row t) de"
  have en: "entered d t" and key: "Txn_key t \<notin> idempotency_keys_key ` set (idempotency_keys d)"
    using de by (simp_all add: declined_def entered_def)
  have "idempotency_keys (overlay d ?w) = idempotency_keys d @ [claim_row t]"
    using view_declined [OF assms(1) de, of "claim_row t"] by (simp add: declined_key [OF de])
  then have g: "goto d t (Refused de) (?w\<lparr>w_key := Some ?k\<rparr>) = Some (d', t')"
    using assms(4) find_stored [OF en, of ?k]
    by (simp add: step_refuse_def sql_store_error_def update_idempotency_keys_eq update_key_last [OF key])
  have "txn_ok s d (t\<lparr>Txn_phase := Refused de, Txn_writes := ?w\<lparr>w_key := Some ?k\<rparr>\<rparr>)"
    using ok(1) de unfolding txn_ok_def by auto
  moreover have "w_key ?w = Some (claim_row t)"
    using de by (auto simp: declined_def split: if_splits)
  ultimately show ?thesis by (intro quiet_take [OF g] disjI1) (use ok in simp_all)
qed

section \<open>Every statement before COMMIT\<close>

fun committing :: "phase \<Rightarrow> bool" where
  "committing (Stored result) = True"
| "committing (Refused de) = True"
| "committing _ = False"

lemma txn_step_quiet:
  assumes "good d" "txn_ok s d t" "txn_step s H d rest t = Some (d', t')" "\<not> committing (Txn_phase t)"
  shows "quiet s H d rest t d' t'"
proof (cases "Txn_phase t")
  case Begin
  with step_claim_quiet [OF assms(2)] assms(3) show ?thesis by (simp add: txn_step_def)
next
  case Claimed
  with step_lock_quiet [OF assms(2)] assms(3) show ?thesis by (simp add: txn_step_def)
next
  case Locked
  with step_sale_quiet [OF assms(2)] assms(3) show ?thesis by (simp add: txn_step_def)
next
  case (Opened m p)
  with step_limit_quiet [OF assms(1,2)] assms(3) show ?thesis by (simp add: txn_step_def)
next
  case (Checked p)
  with step_take_sale_quiet [OF assms(1,2)] assms(3) show ?thesis by (simp add: txn_step_def)
next
  case (SaleTaken p)
  with step_take_stock_quiet [OF assms(1,2)] assms(3) show ?thesis by (simp add: txn_step_def)
next
  case (StockTaken p)
  with step_insert_quiet [OF assms(1,2)] assms(3) show ?thesis by (simp add: txn_step_def)
next
  case (Inserted p rid oid)
  with step_order_quiet [OF assms(1,2)] assms(3) show ?thesis by (simp add: txn_step_def)
next
  case (Ordered p rid oid)
  with step_event_quiet [OF assms(1,2)] assms(3) show ?thesis by (simp add: txn_step_def)
next
  case (Logged p rid oid)
  with step_store_quiet [OF assms(1,2)] assms(3) show ?thesis by (simp add: txn_step_def)
next
  case (Refusing de)
  with step_refuse_quiet [OF assms(1,2)] assms(3) show ?thesis by (simp add: txn_step_def)
next
  case Replaying
  with step_replay_quiet [OF assms(2)] assms(3) show ?thesis by (simp add: txn_step_def)
next
  case (Replayed res)
  with step_replayed_quiet [OF assms(2)] assms(3) show ?thesis by (simp add: txn_step_def)
qed (use assms(3,4) in \<open>simp_all add: txn_step_def\<close>)

end
