(* ===== verification/Serial.thy ===== *)
theory Serial
  imports Statements
begin

text \<open>
  Concurrent calls of \<open>Reserve\<close> are serialisable and never block each other for good.

  The facts a transaction still needs at COMMIT are protected: the key by the uniqueness of keys, the buyer's units by the advisory lock, the two counters by the row locks, and the
  terms of the sale and a refusal already decided because \<open>Reserve\<close> never changes the former and only decreases the counters. \<open>kept\<close> is what
  the commit of one transaction guarantees to another.

  With these the statements of \<open>Reserve\<close> are an instance of the locales \<open>serialisable\<close> and \<open>progressing\<close>.
\<close>

section \<open>COMMIT\<close>

lemma StoredE:
  assumes "txn_ok s d t" "Txn_phase t = Stored result"
  obtains sale p i rid oid eid where "all_ok (Txn_env t)" "drawn d t sale p i" "listed s d t p rid oid" "invoiced d t p rid oid" "noted d t eid"
    "result = txn_booking s t p rid oid"
    "Txn_writes t = (held_stock t sale i)\<lparr>w_reservation := Some (txn_row s t p rid), w_order := Some (txn_order t p rid oid),
       w_event := Some (txn_event t eid rid), w_key := Some (success_key (claim_row t) result)\<rparr>"
  using assms(1) unfolding txn_ok_def assms(2) phase.case by blast

lemma RefusedE:
  assumes "txn_ok s d t" "Txn_phase t = Refused de"
  obtains w where "all_ok (Txn_env t)" "declined d t de w" "Txn_writes t = w\<lparr>w_key := Some (error_key (claim_row t) de)\<rparr>"
  using assms(1) unfolding txn_ok_def assms(2) phase.case by blast

lemma call_stored:
  assumes "good d" "txn_ok s d t" "Txn_phase t = Stored result"
  shows "txn_call s t d = (Inr result, overlay d (Txn_writes t))"
  using assms(2,3)
proof (cases rule: StoredE)
  case (1 sale p i rid oid eid)
  note dr = 1(2,3)
  have ids: "NewID (rand (Txn_env t) 0) = Inr rid" "NewID (rand (Txn_env t) 1) = Inr oid" "NewID (rand (Txn_env t) 2) = Inr eid"
    using 1(3,5) by (simp_all add: listed_def noted_def)
  have key: "Txn_key t \<notin> idempotency_keys_key ` set (idempotency_keys d)" using 1(2) by (simp add: drawn_def allowed_def opened_def entered_def)
  have v: "overlay d (Txn_writes t) = recorded_db s d t p rid oid eid (success_key (claim_row t) (txn_booking s t p rid oid))"
    unfolding 1(6,7) by (rule view_recorded [OF assms(1) 1(2-5)]) simp
  show ?thesis
    unfolding call_recording(1) [OF assms(1) 1(1,2)] reserve_record_def Let_def v 1(6)
    using 1(1,4,5) by (simp add: ids insert_row_ok [OF assms(1) dr] insert_order_ok [OF assms(1) dr] event_ok
        sql_store_success_def update_idempotency_keys_eq update_key_last [OF key] del: One_nat_def)
qed

lemma call_refused:
  assumes "good d" "txn_ok s d t" "Txn_phase t = Refused de"
  shows "txn_call s t d = (Inl (DomainError de), overlay d (Txn_writes t))"
  using assms(2,3)
proof (cases rule: RefusedE)
  case (1 w)
  have "txn_call s t d = (Inl (DomainError de), after_refusal (Txn_env t) d (Txn_sale t) (Txn_user t) (Txn_units t) (Txn_key t) de)"
    unfolding txn_call_def by (rule Reserve_refused [OF assms(1) 1(1)]) (use 1(2) in \<open>simp_all add: declined_def entered_def\<close>)
  moreover have "overlay d (Txn_writes t) = after_refusal (Txn_env t) d (Txn_sale t) (Txn_user t) (Txn_units t) (Txn_key t) de"
    unfolding 1(3) using view_declined [OF assms(1) 1(2), of "error_key (claim_row t) de"] by (simp add: after_refusal_def)
  ultimately show ?thesis by simp
qed

text \<open>What the commit of one transaction leaves to another.\<close>

definition kept :: "db \<Rightarrow> db \<Rightarrow> txn \<Rightarrow> bool" where
  "kept d d' u \<longleftrightarrow>
     (\<exists>ks. idempotency_keys d' = idempotency_keys d @ ks \<and> (w_key (Txn_writes u) \<noteq> None \<longrightarrow> Txn_key u \<notin> idempotency_keys_key ` set ks))
     \<and> (case sql_sale_product d (Txn_sale u) of
         None \<Rightarrow> sql_sale_product d' (Txn_sale u) = None
       | Some (sale, p) \<Rightarrow> \<exists>m c. sql_sale_product d' (Txn_sale u) = Some (sale\<lparr>flash_sales_remaining_stock := m, flash_sales_updated_at := c\<rparr>, p)
           \<and> m \<le> flash_sales_remaining_stock sale
           \<and> (w_sale (Txn_writes u) \<noteq> None \<longrightarrow> m = flash_sales_remaining_stock sale \<and> c = flash_sales_updated_at sale))
     \<and> (\<forall>pid. available_units d' pid \<le> available_units d pid)
     \<and> (\<forall>i \<in> set (inventory d). map_option inventory_product_id (w_stock (Txn_writes u)) = Some (inventory_product_id i) \<longrightarrow> i \<in> set (inventory d'))
     \<and> (holds_lock (Txn_phase u) \<longrightarrow> user_units (reservations d') (Txn_sale u) (Txn_user u) = user_units (reservations d) (Txn_sale u) (Txn_user u))
     \<and> (\<forall>r. w_reservation (Txn_writes u) = Some r \<longrightarrow> reservations_id r \<notin> reservations_id ` set (reservations d)
          \<longrightarrow> reservations_id r \<notin> reservations_id ` set (reservations d'))
     \<and> (\<forall>x. w_order (Txn_writes u) = Some x \<longrightarrow> orders_id x \<notin> orders_id ` set (orders d) \<longrightarrow> orders_id x \<notin> orders_id ` set (orders d'))
     \<and> (\<forall>v. w_event (Txn_writes u) = Some v \<longrightarrow> domain_events_id v \<notin> domain_events_id ` set (domain_events d)
          \<longrightarrow> domain_events_id v \<notin> domain_events_id ` set (domain_events d'))"

lemma entered_kept:
  "kept d d' u \<Longrightarrow> entered d u \<Longrightarrow> w_key (Txn_writes u) \<noteq> None \<Longrightarrow> entered d' u"
  by (auto simp: kept_def entered_def)

lemma opened_kept:
  assumes "kept d d' u" "opened d u sale p" "w_key (Txn_writes u) \<noteq> None"
  obtains m c where "opened d' u (sale\<lparr>flash_sales_remaining_stock := m, flash_sales_updated_at := c\<rparr>) p" "m \<le> flash_sales_remaining_stock sale"
    "w_sale (Txn_writes u) \<noteq> None \<Longrightarrow> sale\<lparr>flash_sales_remaining_stock := m, flash_sales_updated_at := c\<rparr> = sale"
proof -
  obtain m c where "sql_sale_product d' (Txn_sale u) = Some (sale\<lparr>flash_sales_remaining_stock := m, flash_sales_updated_at := c\<rparr>, p)"
      "m \<le> flash_sales_remaining_stock sale" "w_sale (Txn_writes u) \<noteq> None \<longrightarrow> m = flash_sales_remaining_stock sale \<and> c = flash_sales_updated_at sale"
    using assms(1,2) by (auto simp: kept_def opened_def)
  then show thesis using that [where m = m and c = c] assms(2) entered_kept [OF assms(1) _ assms(3)] by (simp add: opened_def sale_open_def)
qed

lemma allowed_kept:
  assumes "kept d d' u" "allowed d u sale p" "w_key (Txn_writes u) \<noteq> None" "holds_lock (Txn_phase u)"
  obtains m c where "allowed d' u (sale\<lparr>flash_sales_remaining_stock := m, flash_sales_updated_at := c\<rparr>) p"
    "w_sale (Txn_writes u) \<noteq> None \<Longrightarrow> sale\<lparr>flash_sales_remaining_stock := m, flash_sales_updated_at := c\<rparr> = sale"
proof -
  have "opened d u sale p" using assms(2) by (simp add: allowed_def)
  from opened_kept [OF assms(1) this assms(3)] obtain m c where "opened d' u (sale\<lparr>flash_sales_remaining_stock := m, flash_sales_updated_at := c\<rparr>) p"
    "w_sale (Txn_writes u) \<noteq> None \<Longrightarrow> sale\<lparr>flash_sales_remaining_stock := m, flash_sales_updated_at := c\<rparr> = sale"
    by blast
  then show thesis using that [where m = m and c = c] assms(1,2,4) by (simp add: allowed_def kept_def)
qed

lemma taken_kept:
  assumes "kept d d' u" "allowed d u sale p" "w_key (Txn_writes u) \<noteq> None" "holds_lock (Txn_phase u)" "w_sale (Txn_writes u) \<noteq> None"
  shows "allowed d' u sale p"
  by (rule allowed_kept [OF assms(1-4)]) (use assms(5) in simp)

lemma drawn_kept:
  assumes "kept d d' u" "drawn d u sale p i" "w_key (Txn_writes u) \<noteq> None" "holds_lock (Txn_phase u)" "w_sale (Txn_writes u) \<noteq> None"
    "w_stock (Txn_writes u) = Some (stock_less u i)"
  shows "drawn d' u sale p i"
  using taken_kept [OF assms(1) _ assms(3-5)] assms(1,2,6) by (auto simp: drawn_def kept_def)

lemma listed_kept:
  "kept d d' u \<Longrightarrow> listed s d u p rid oid \<Longrightarrow> w_reservation (Txn_writes u) = Some (txn_row s u p rid) \<Longrightarrow> listed s d' u p rid oid"
  by (auto simp: kept_def listed_def)

lemma invoiced_kept:
  "kept d d' u \<Longrightarrow> invoiced d u p rid oid \<Longrightarrow> w_order (Txn_writes u) = Some (txn_order u p rid oid) \<Longrightarrow> invoiced d' u p rid oid"
  by (auto simp: kept_def invoiced_def)

lemma noted_kept:
  "kept d d' u \<Longrightarrow> noted d u eid \<Longrightarrow> w_event (Txn_writes u) = Some (txn_event u eid rid) \<Longrightarrow> noted d' u eid"
  by (auto simp: kept_def noted_def)

lemma declined_kept:
  assumes "kept d d' u" "declined d u de w" "holds_lock (Txn_phase u)" "w_key (Txn_writes u) \<noteq> None" "w_sale (Txn_writes u) = w_sale w"
  shows "declined d' u de w"
proof (cases "sql_sale_product d (Txn_sale u)")
  case None
  with assms entered_kept [OF assms(1) _ assms(4)] show ?thesis by (auto simp: declined_def verdict_def kept_def)
next
  case (Some x)
  obtain sale p where x: "x = (sale, p)" by (cases x)
  with Some assms(1) obtain m c where m: "sql_sale_product d' (Txn_sale u) = Some (sale\<lparr>flash_sales_remaining_stock := m, flash_sales_updated_at := c\<rparr>, p)"
      "m \<le> flash_sales_remaining_stock sale" "w_sale (Txn_writes u) \<noteq> None \<longrightarrow> m = flash_sales_remaining_stock sale \<and> c = flash_sales_updated_at sale"
    by (auto simp: kept_def)
  have units: "user_units (reservations d') (Txn_sale u) (Txn_user u) = user_units (reservations d) (Txn_sale u) (Txn_user u)"
    and av: "available_units d' (products_id p) \<le> available_units d (products_id p)" using assms(1,3) by (simp_all add: kept_def)
  have de: "entered d' u" "verdict (Txn_env u) d (Txn_sale u) (Txn_user u) (Txn_units u) = Some de"
    using assms(2) entered_kept [OF assms(1) _ assms(4)] by (simp_all add: declined_def)
  show ?thesis
  proof (cases "de = sold_out")
    case True
    with assms(2) Some x have w: "w = held_sale u sale" "Txn_units u \<le> flash_sales_remaining_stock sale" by (auto simp: declined_def)
    with m(3) assms(5) have same: "sale\<lparr>flash_sales_remaining_stock := m, flash_sales_updated_at := c\<rparr> = sale" by simp
    show ?thesis using de True Some x m(1) w units av unfolding declined_def verdict_def same
      by (auto split: if_splits)
  next
    case False
    then show ?thesis using assms(2) de Some x m(1,2) units av unfolding declined_def verdict_def
      by (auto simp: sale_open_def split: if_splits)
  qed
qed

lemma find_prefix: "find P xs = Some k \<Longrightarrow> find P (xs @ ys) = Some k"
  by (induction xs) (auto split: if_splits)

lemma stored_key_kept: "kept d d' u \<Longrightarrow> stored_key d u = Some k \<Longrightarrow> stored_key d' u = Some k"
  by (auto simp: kept_def stored_key_def find_prefix)

lemma kept_ok:
  assumes ok: "txn_ok s d u" and k: "kept d d' u"
  shows "txn_ok s d' u"
proof -
  have keys: "idempotency_keys_key ` set (idempotency_keys d) \<subseteq> idempotency_keys_key ` set (idempotency_keys d')"
    using k by (auto simp: kept_def)
  show ?thesis
  proof (cases "Txn_phase u")
    case (Opened m p)
    with ok obtain sale where w: "all_ok (Txn_env u)" "Txn_writes u = held_key u" and o: "opened d u sale p" "m = flash_sales_max_quantity_per_user sale"
      by (auto simp: txn_ok_def)
    from w(2) have "w_key (Txn_writes u) \<noteq> None" by simp
    from opened_kept [OF k o(1) this] obtain m' c where "opened d' u (sale\<lparr>flash_sales_remaining_stock := m', flash_sales_updated_at := c\<rparr>) p"
      by blast
    then show ?thesis unfolding txn_ok_def Opened phase.case using w o(2)
      by (intro conjI exI [of _ "sale\<lparr>flash_sales_remaining_stock := m', flash_sales_updated_at := c\<rparr>"]) simp_all
  next
    case (Checked p)
    with ok obtain sale where w: "all_ok (Txn_env u)" "Txn_writes u = held_key u" "holds_lock (Txn_phase u)" and a: "allowed d u sale p"
      by (auto simp: txn_ok_def)
    from w(2) have "w_key (Txn_writes u) \<noteq> None" by simp
    from allowed_kept [OF k a this w(3)] w(1,2) show ?thesis unfolding txn_ok_def Checked phase.case by blast
  next
    case (SaleTaken p)
    with ok obtain sale where w: "all_ok (Txn_env u)" "Txn_units u \<le> flash_sales_remaining_stock sale" "Txn_writes u = held_sale u sale"
      and a: "allowed d u sale p" by (auto simp: txn_ok_def)
    have "allowed d' u sale p" by (rule taken_kept [OF k a]) (simp_all add: w(3) SaleTaken)
    with w show ?thesis unfolding txn_ok_def SaleTaken phase.case by blast
  next
    case (StockTaken p)
    with ok obtain sale i where w: "all_ok (Txn_env u)" "Txn_writes u = held_stock u sale i" and f: "drawn d u sale p i" by (auto simp: txn_ok_def)
    have "drawn d' u sale p i" by (rule drawn_kept [OF k f]) (simp_all add: w(2) StockTaken)
    with w show ?thesis unfolding txn_ok_def StockTaken phase.case by blast
  next
    case (Inserted p rid oid)
    with ok obtain sale i where w: "all_ok (Txn_env u)" "Txn_writes u = (held_stock u sale i)\<lparr>w_reservation := Some (txn_row s u p rid)\<rparr>"
      and f: "drawn d u sale p i" "listed s d u p rid oid" by (auto simp: txn_ok_def)
    have "drawn d' u sale p i" "listed s d' u p rid oid"
      by (rule drawn_kept [OF k f(1)] listed_kept [OF k f(2)]; simp add: w(2) Inserted)+
    with w show ?thesis unfolding txn_ok_def Inserted phase.case by blast
  next
    case (Ordered p rid oid)
    with ok obtain sale i where w: "all_ok (Txn_env u)" "Txn_writes u = (held_stock u sale i)\<lparr>w_reservation := Some (txn_row s u p rid),
        w_order := Some (txn_order u p rid oid)\<rparr>"
      and f: "drawn d u sale p i" "listed s d u p rid oid" "invoiced d u p rid oid" by (auto simp: txn_ok_def)
    have "drawn d' u sale p i" "listed s d' u p rid oid" "invoiced d' u p rid oid"
      by (rule drawn_kept [OF k f(1)] listed_kept [OF k f(2)] invoiced_kept [OF k f(3)]; simp add: w(2) Ordered)+
    with w show ?thesis unfolding txn_ok_def Ordered phase.case by blast
  next
    case (Logged p rid oid)
    with ok obtain sale i eid where w: "all_ok (Txn_env u)" "Txn_writes u = (held_stock u sale i)\<lparr>w_reservation := Some (txn_row s u p rid),
        w_order := Some (txn_order u p rid oid), w_event := Some (txn_event u eid rid)\<rparr>"
      and f: "drawn d u sale p i" "listed s d u p rid oid" "invoiced d u p rid oid" "noted d u eid" by (auto simp: txn_ok_def)
    have "drawn d' u sale p i" "listed s d' u p rid oid" "invoiced d' u p rid oid" "noted d' u eid"
      by (rule drawn_kept [OF k f(1)] listed_kept [OF k f(2)] invoiced_kept [OF k f(3)] noted_kept [OF k f(4), where rid = rid];
          simp add: w(2) Logged)+
    with w show ?thesis unfolding txn_ok_def Logged phase.case by blast
  next
    case (Stored result)
    with ok show ?thesis
    proof (cases rule: StoredE)
      case (1 sale p i rid oid eid)
      show ?thesis
      proof (rule txn_ok_Stored [OF Stored 1(1) _ _ _ _ 1(6,7)])
        show "drawn d' u sale p i" by (rule drawn_kept [OF k 1(2)]) (simp_all add: 1(7) Stored)
        show "listed s d' u p rid oid" by (rule listed_kept [OF k 1(3)]) (simp add: 1(7))
        show "invoiced d' u p rid oid" by (rule invoiced_kept [OF k 1(4)]) (simp add: 1(7))
        show "noted d' u eid" by (rule noted_kept [OF k 1(5), where rid = rid]) (simp add: 1(7))
      qed
    qed
  next
    case (Refusing de)
    with ok have de: "declined d u de (Txn_writes u)" and e: "all_ok (Txn_env u)" by (simp_all add: txn_ok_def)
    have "declined d' u de (Txn_writes u)"
      by (rule declined_kept [OF k de]) (use de in \<open>auto simp: Refusing declined_def split: if_splits\<close>)
    with e show ?thesis by (simp add: txn_ok_def Refusing)
  next
    case (Refused de)
    with ok show ?thesis
    proof (cases rule: RefusedE)
      case (1 w)
      have "declined d' u de w" by (rule declined_kept [OF k 1(2)]) (simp_all add: 1(3) Refused)
      with 1 show ?thesis unfolding txn_ok_def Refused phase.case by blast
    qed
  next
    case Claimed
    with ok entered_kept [OF k] show ?thesis by (auto simp: txn_ok_def)
  next
    case Locked
    with ok entered_kept [OF k] show ?thesis by (auto simp: txn_ok_def)
  next
    case Replaying
    with ok keys show ?thesis by (auto simp: txn_ok_def)
  next
    case (Replayed res)
    with ok stored_key_kept [OF k] show ?thesis by (auto simp: txn_ok_def)
  qed (use ok in \<open>simp_all add: txn_ok_def\<close>)
qed

text \<open>Row versions carry the identifiers of the call.\<close>

lemma declined_writes:
  assumes "good d" "declined d t de w"
  shows "\<exists>k. w_key w = Some k \<and> idempotency_keys_key k = Txn_key t" "w_sale w = Some v \<Longrightarrow> flash_sales_id v = Txn_sale t"
    "w_stock w = None" "w_reservation w = None" "w_order w = None" "w_event w = None"
  using assms(2) sale_product_Some(2) [OF schema_good [OF assms(1)], of "Txn_sale t"] by (auto simp: declined_def split: if_splits)

lemma allowed_sale: "good d \<Longrightarrow> allowed d t sale p \<Longrightarrow> flash_sales_id sale = Txn_sale t"
  using sale_product_Some(2) [OF schema_good] by (auto simp: allowed_def opened_def)

lemma drawn_sale: "good d \<Longrightarrow> drawn d t sale p i \<Longrightarrow> flash_sales_id sale = Txn_sale t"
  using allowed_sale by (auto simp: drawn_def)

lemma txn_writes:
  assumes "good d" "txn_ok s d t"
  shows "w_key (Txn_writes t) = Some k \<Longrightarrow> idempotency_keys_key k = Txn_key t" "w_sale (Txn_writes t) = Some v \<Longrightarrow> flash_sales_id v = Txn_sale t"
proof -
  have "(\<forall>k. w_key (Txn_writes t) = Some k \<longrightarrow> idempotency_keys_key k = Txn_key t)
      \<and> (\<forall>v. w_sale (Txn_writes t) = Some v \<longrightarrow> flash_sales_id v = Txn_sale t)"
    using assms(2) allowed_sale [OF assms(1)] drawn_sale [OF assms(1)] declined_writes(1,2) [OF assms(1)]
    unfolding txn_ok_def by (auto split: phase.splits; metis option.inject)
  then show "w_key (Txn_writes t) = Some k \<Longrightarrow> idempotency_keys_key k = Txn_key t"
    "w_sale (Txn_writes t) = Some v \<Longrightarrow> flash_sales_id v = Txn_sale t" by blast+
qed

text \<open>A decrement of the counters, seen by another transaction.\<close>

lemma sale_taken_kept:
  assumes "products d' = products d" "flash_sales d' = taken_sales e sid q (flash_sales d)" "0 \<le> q" "sid = Txn_sale u \<Longrightarrow> w_sale (Txn_writes u) = None"
  shows "case sql_sale_product d (Txn_sale u) of
         None \<Rightarrow> sql_sale_product d' (Txn_sale u) = None
       | Some (sale, p) \<Rightarrow> \<exists>m c. sql_sale_product d' (Txn_sale u) = Some (sale\<lparr>flash_sales_remaining_stock := m, flash_sales_updated_at := c\<rparr>, p)
           \<and> m \<le> flash_sales_remaining_stock sale
           \<and> (w_sale (Txn_writes u) \<noteq> None \<longrightarrow> m = flash_sales_remaining_stock sale \<and> c = flash_sales_updated_at sale)"
proof -
  have here: "sql_sale_product d' (Txn_sale u) = map_option (\<lambda>(sale, p). (if flash_sales_id sale = sid then sale\<lparr>flash_sales_remaining_stock :=
      flash_sales_remaining_stock sale - q, flash_sales_updated_at := db_now e\<rparr> else sale, p)) (sql_sale_product d (Txn_sale u))"
    by (simp add: sql_sale_product_def assms(1,2) sale_taken.find_update split: option.split)
  show ?thesis
  proof (cases "sql_sale_product d (Txn_sale u)")
    case (Some x)
    obtain sale p where x: "x = (sale, p)" by (cases x)
    have id: "flash_sales_id sale = Txn_sale u" using Some x by (auto simp: sql_sale_product_def find_Some_iff split: option.splits)
    let ?m = "if sid = Txn_sale u then flash_sales_remaining_stock sale - q else flash_sales_remaining_stock sale"
    let ?c = "if sid = Txn_sale u then db_now e else flash_sales_updated_at sale"
    have "sql_sale_product d' (Txn_sale u) = Some (sale\<lparr>flash_sales_remaining_stock := ?m, flash_sales_updated_at := ?c\<rparr>, p)"
      using here Some x id by simp
    moreover have "?m \<le> flash_sales_remaining_stock sale" "w_sale (Txn_writes u) \<noteq> None \<longrightarrow> ?m = flash_sales_remaining_stock sale \<and> ?c = flash_sales_updated_at sale"
      using assms(3,4) by auto
    ultimately show ?thesis unfolding Some x option.case prod.case by blast
  qed (simp add: here)
qed

lemma sale_same_kept:
  assumes "products d' = products d" "flash_sales d' = flash_sales d"
  shows "case sql_sale_product d (Txn_sale u) of
         None \<Rightarrow> sql_sale_product d' (Txn_sale u) = None
       | Some (sale, p) \<Rightarrow> \<exists>m c. sql_sale_product d' (Txn_sale u) = Some (sale\<lparr>flash_sales_remaining_stock := m, flash_sales_updated_at := c\<rparr>, p)
           \<and> m \<le> flash_sales_remaining_stock sale
           \<and> (w_sale (Txn_writes u) \<noteq> None \<longrightarrow> m = flash_sales_remaining_stock sale \<and> c = flash_sales_updated_at sale)"
proof -
  have "sql_sale_product d' (Txn_sale u) = sql_sale_product d (Txn_sale u)" unfolding sql_sale_product_def assms ..
  moreover have "\<exists>m c. sale = sale\<lparr>flash_sales_remaining_stock := m, flash_sales_updated_at := c\<rparr> \<and> m \<le> flash_sales_remaining_stock sale
      \<and> (P \<longrightarrow> m = flash_sales_remaining_stock sale \<and> c = flash_sales_updated_at sale)" for sale :: flash_sales_row and P
    by (intro exI [of _ "flash_sales_remaining_stock sale"] exI [of _ "flash_sales_updated_at sale"]) simp
  ultimately show ?thesis by (auto split: option.split)
qed

lemma available_taken:
  assumes "inventory d' = taken_inventory e pid q (inventory d)" "0 \<le> q"
  shows "available_units d' x \<le> available_units d x"
proof -
  have "sum_where inventory_available P (taken_inventory e pid q rows) \<le> sum_where inventory_available P rows"
    if "\<And>i a r c. P (i\<lparr>inventory_available := a, inventory_reserved := r, inventory_updated_at := c\<rparr>) = P i" for P rows
    using assms(2) that by (induction rows) (auto simp: update_where_def sum_where_def)
  then show ?thesis by (simp add: available_units_def assms(1))
qed

lemma stored_kept:
  assumes g: "good d" and ok: "txn_ok s d t" "Txn_phase t = Stored result" and u: "txn_ok s d u" "apart H t u"
  shows "kept d (overlay d (Txn_writes t)) u"
  using ok
proof (cases rule: StoredE)
  case (1 sale p i rid oid eid)
  let ?k = "success_key (claim_row t) (txn_booking s t p rid oid)"
  have v: "overlay d (Txn_writes t) = recorded_db s d t p rid oid eid ?k"
    unfolding 1(6,7) by (rule view_recorded [OF g 1(2-5)]) simp
  have sale: "flash_sales_id sale = Txn_sale t" by (rule drawn_sale [OF g 1(2)])
  have q: "0 \<le> Txn_units t" using 1(2) entered_units [of d t] by (simp add: drawn_def allowed_def opened_def)
  have stock: "inventory_product_id i = products_id p" using 1(2) by (simp add: drawn_def)
  have key: "w_key (Txn_writes u) \<noteq> None \<Longrightarrow> Txn_key u \<noteq> Txn_key t"
    using u(2) txn_writes(1) [OF g u(1)] by (auto simp: apart_def disjoint_def 1(7))
  have take: "Txn_sale t = Txn_sale u \<Longrightarrow> w_sale (Txn_writes u) = None"
    using u(2) txn_writes(2) [OF g u(1)] sale by (cases "w_sale (Txn_writes u)") (auto simp: apart_def disjoint_def 1(7))
  have inv: "j \<in> set (inventory (overlay d (Txn_writes t)))" if "j \<in> set (inventory d)"
    "map_option inventory_product_id (w_stock (Txn_writes u)) = Some (inventory_product_id j)" for j
  proof -
    have "inventory_product_id j \<noteq> products_id p" using u(2) that(2) stock by (auto simp: apart_def disjoint_def 1(7))
    then show ?thesis using that(1) by (auto simp: v set_update_where image_iff)
  qed
  have ids: "w_reservation (Txn_writes u) = Some r \<Longrightarrow> reservations_id r \<noteq> rid" "w_order (Txn_writes u) = Some x \<Longrightarrow> orders_id x \<noteq> oid"
    "w_event (Txn_writes u) = Some e \<Longrightarrow> domain_events_id e \<noteq> eid" for r x e
    using u(2) by (auto simp: apart_def disjoint_def 1(7) new_order_def)
  have lock: "\<not> (Txn_sale t = Txn_sale u \<and> Txn_user t = Txn_user u)" if "holds_lock (Txn_phase u)"
    using u(2) that ok(2) by (auto simp: apart_def disjoint_def advisory_def)
  then have units: "holds_lock (Txn_phase u) \<longrightarrow> user_units (reservations (overlay d (Txn_writes t))) (Txn_sale u) (Txn_user u)
      = user_units (reservations d) (Txn_sale u) (Txn_user u)"
    by (auto simp: v user_units_def)
  show ?thesis
    unfolding kept_def
  proof (intro conjI allI ballI impI)
    show "\<exists>ks. idempotency_keys (overlay d (Txn_writes t)) = idempotency_keys d @ ks
        \<and> (w_key (Txn_writes u) \<noteq> None \<longrightarrow> Txn_key u \<notin> idempotency_keys_key ` set ks)"
      using key by (intro exI [of _ "[?k]"]) (simp add: v)
    show "available_units (overlay d (Txn_writes t)) pid \<le> available_units d pid" for pid
      by (rule available_taken [OF _ q]) (simp add: v)
    show "reservations_id r \<notin> reservations_id ` set (reservations (overlay d (Txn_writes t)))"
      if "w_reservation (Txn_writes u) = Some r" "reservations_id r \<notin> reservations_id ` set (reservations d)" for r
      using that ids unfolding v by auto
    show "orders_id x \<notin> orders_id ` set (orders (overlay d (Txn_writes t)))"
      if "w_order (Txn_writes u) = Some x" "orders_id x \<notin> orders_id ` set (orders d)" for x
      using that ids unfolding v by auto
    show "domain_events_id x \<notin> domain_events_id ` set (domain_events (overlay d (Txn_writes t)))"
      if "w_event (Txn_writes u) = Some x" "domain_events_id x \<notin> domain_events_id ` set (domain_events d)" for x
      using that ids unfolding v by auto
  qed (use inv units sale_taken_kept [OF _ _ q take] in \<open>simp_all add: v\<close>)
qed

lemma refused_kept:
  assumes g: "good d" and ok: "txn_ok s d t" "Txn_phase t = Refused de" and u: "txn_ok s d u" "apart H t u"
  shows "kept d (overlay d (Txn_writes t)) u"
  using ok
proof (cases rule: RefusedE)
  case (1 w)
  let ?k = "error_key (claim_row t) de"
  note v = view_declined [OF g 1(2), of ?k, folded 1(3)]
  have q: "0 \<le> Txn_units t" using 1(2) entered_units [of d t] by (simp add: declined_def)
  have key: "w_key (Txn_writes u) \<noteq> None \<Longrightarrow> Txn_key u \<noteq> Txn_key t"
    using u(2) txn_writes(1) [OF g u(1)] by (auto simp: apart_def disjoint_def 1(3))
  have take: "w_sale (Txn_writes u) = None" if so: "de = sold_out" "Txn_sale t = Txn_sale u"
  proof -
    obtain x where "w_sale w = Some x" using 1(2) so(1) by (auto simp: declined_def)
    then show ?thesis
      using declined_writes(2) [OF g 1(2)] u(2) txn_writes(2) [OF g u(1)] so(2)
      by (cases "w_sale (Txn_writes u)") (auto simp: apart_def disjoint_def 1(3))
  qed
  show ?thesis
    unfolding kept_def
  proof (intro conjI allI ballI impI)
    show "\<exists>ks. idempotency_keys (overlay d (Txn_writes t)) = idempotency_keys d @ ks
        \<and> (w_key (Txn_writes u) \<noteq> None \<longrightarrow> Txn_key u \<notin> idempotency_keys_key ` set ks)"
      using key v by (intro exI [of _ "[?k]"]) simp
    show "available_units (overlay d (Txn_writes t)) pid \<le> available_units d pid" for pid
      using v by (simp add: available_units_def)
    show "case sql_sale_product d (Txn_sale u) of
         None \<Rightarrow> sql_sale_product (overlay d (Txn_writes t)) (Txn_sale u) = None
       | Some (sale, p) \<Rightarrow> \<exists>m c. sql_sale_product (overlay d (Txn_writes t)) (Txn_sale u)
             = Some (sale\<lparr>flash_sales_remaining_stock := m, flash_sales_updated_at := c\<rparr>, p)
           \<and> m \<le> flash_sales_remaining_stock sale
           \<and> (w_sale (Txn_writes u) \<noteq> None \<longrightarrow> m = flash_sales_remaining_stock sale \<and> c = flash_sales_updated_at sale)"
    proof (cases "de = sold_out")
      case True
      with v q take show ?thesis by (intro sale_taken_kept [where e = "Txn_env t" and sid = "Txn_sale t" and q = "Txn_units t"]) simp_all
    next
      case False
      with v show ?thesis by (intro sale_same_kept) simp_all
    qed
  qed (use v in simp_all)
qed

section \<open>Moving on and waiting\<close>

text \<open>Every statement moves its transaction to a later phase; only the last one touches the committed rows.\<close>

definition advances :: "db \<Rightarrow> txn \<Rightarrow> (db \<times> txn) option \<Rightarrow> bool" where
  "advances d t x \<longleftrightarrow> (\<forall>d' t'. x = Some (d', t') \<longrightarrow> (\<exists>ph w. t' = t\<lparr>Txn_phase := ph, Txn_writes := w\<rparr>
     \<and> ph \<noteq> Crashed \<and> phase_rank (Txn_phase t) < phase_rank ph \<and> (txn_result t' = None \<longrightarrow> d' = d)))"

lemma advances_None [simp]: "advances d t None"
  by (simp add: advances_def)

lemma advances_goto: "ph \<noteq> Crashed \<Longrightarrow> phase_rank (Txn_phase t) < phase_rank ph \<Longrightarrow> advances d t (goto d t ph w)"
  by (auto simp: advances_def goto_def)

lemma advances_commit: "phase_rank (Txn_phase t) < 11 \<Longrightarrow> advances d t (goto d' t (Finished r) w)"
  by (auto simp: advances_def goto_def txn_result_def)

lemma txn_step_advances: "advances d t (txn_step s H d rest t)"
proof (cases "Txn_phase t")
  case Begin
  then show ?thesis by (simp add: txn_step_def step_claim_def advances_goto split: sum.split option.split)
next
  case Claimed
  then show ?thesis by (simp add: txn_step_def step_lock_def advances_goto)
next
  case Locked
  then show ?thesis by (simp add: txn_step_def step_sale_def advances_goto Let_def split: option.split)
next
  case (Opened m p)
  then show ?thesis by (simp add: txn_step_def step_limit_def advances_goto)
next
  case (Checked p)
  then show ?thesis by (simp add: txn_step_def step_take_sale_def advances_goto split: sum.split)
next
  case (SaleTaken p)
  then show ?thesis by (simp add: txn_step_def step_take_stock_def advances_goto split: sum.split)
next
  case (StockTaken p)
  then show ?thesis by (simp add: txn_step_def step_insert_def advances_goto Let_def split: sum.split)
next
  case (Inserted p rid oid)
  then show ?thesis by (simp add: txn_step_def step_order_def advances_goto Let_def split: sum.split)
next
  case (Ordered p rid oid)
  then show ?thesis by (simp add: txn_step_def step_event_def advances_goto Let_def split: sum.split)
next
  case (Logged p rid oid)
  then show ?thesis by (simp add: txn_step_def step_store_def advances_goto Let_def split: sum.split)
next
  case (Refusing de)
  then show ?thesis by (simp add: txn_step_def step_refuse_def advances_goto split: sum.split)
next
  case Replaying
  then show ?thesis by (simp add: txn_step_def step_replay_def advances_goto split: sum.split option.split)
qed (simp_all add: txn_step_def advances_goto advances_commit)

lemma txn_step_moves:
  assumes "txn_step s H d rest t = Some (d', t')"
  shows "txn_call s t' = txn_call s t" "phase_rank (Txn_phase t) < phase_rank (Txn_phase t')" "txn_result t' = None \<Longrightarrow> d' = d"
    "Txn_phase t' \<noteq> Crashed"
  using txn_step_advances [of d t s H rest] assms by (auto simp: advances_def txn_call_def)

text \<open>Whoever holds a row or the lock is past the statement that takes it.\<close>

lemma holders:
  assumes "txn_ok s d u"
  shows "w_key (Txn_writes u) \<noteq> None \<Longrightarrow> 0 < phase_rank (Txn_phase u) \<and> phase_rank (Txn_phase u) < 11"
    "holds_lock (Txn_phase u) \<Longrightarrow> 1 < phase_rank (Txn_phase u) \<and> phase_rank (Txn_phase u) < 11"
    "w_sale (Txn_writes u) \<noteq> None \<Longrightarrow> 4 < phase_rank (Txn_phase u) \<and> phase_rank (Txn_phase u) < 11"
    "w_stock (Txn_writes u) \<noteq> None \<Longrightarrow> 5 < phase_rank (Txn_phase u) \<and> phase_rank (Txn_phase u) < 11"
    "w_reservation (Txn_writes u) \<noteq> None \<Longrightarrow> 6 < phase_rank (Txn_phase u) \<and> phase_rank (Txn_phase u) < 11"
    "w_order (Txn_writes u) \<noteq> None \<Longrightarrow> 7 < phase_rank (Txn_phase u) \<and> phase_rank (Txn_phase u) < 11"
    "w_event (Txn_writes u) \<noteq> None \<Longrightarrow> 8 < phase_rank (Txn_phase u) \<and> phase_rank (Txn_phase u) < 11"
  using assms by (cases "Txn_phase u"; force simp: txn_ok_def)+

lemma pending_holder: "pending sel key rest k \<Longrightarrow> \<exists>u \<in> set rest. sel (Txn_writes u) \<noteq> None"
  by auto

lemma txn_waits:
  assumes ok: "\<forall>u \<in> set rest. txn_ok s d u" and "phase_rank (Txn_phase t) < 11" "txn_step s H d rest t = None"
  shows "\<exists>u \<in> set rest. phase_rank (Txn_phase t) < phase_rank (Txn_phase u) \<and> phase_rank (Txn_phase u) < 11"
proof (cases "Txn_phase t")
  case Begin
  with assms(3) have "pending w_key idempotency_keys_key rest (Txn_key t)"
    by (auto simp: txn_step_def step_claim_def goto_def split: sum.splits option.splits if_splits)
  with ok holders(1) Begin show ?thesis by (fastforce dest!: pending_holder)
next
  case Claimed
  with assms(3) obtain u where "u \<in> set rest" "holds_lock (Txn_phase u)"
    by (auto simp: txn_step_def step_lock_def goto_def advisory_def split: if_splits)
  with ok holders(2) Claimed show ?thesis by fastforce
next
  case Locked
  with assms(3) show ?thesis by (auto simp: txn_step_def step_sale_def goto_def Let_def split: option.splits if_splits)
next
  case (Opened m p)
  with assms(3) show ?thesis by (auto simp: txn_step_def step_limit_def goto_def split: if_splits)
next
  case (Checked p)
  with assms(3) have "pending w_sale flash_sales_id rest (Txn_sale t)"
    by (auto simp: txn_step_def step_take_sale_def goto_def split: sum.splits if_splits)
  with ok holders(3) Checked show ?thesis by (fastforce dest!: pending_holder)
next
  case (SaleTaken p)
  with assms(3) have "pending w_stock inventory_product_id rest (products_id p)"
    by (auto simp: txn_step_def step_take_stock_def goto_def split: sum.splits if_splits)
  with ok holders(4) SaleTaken show ?thesis by (fastforce dest!: pending_holder)
next
  case (StockTaken p)
  with assms(3) obtain u where "u \<in> set rest" "w_reservation (Txn_writes u) \<noteq> None"
    by (auto simp: txn_step_def step_insert_def goto_def Let_def split: sum.splits if_splits)
  with ok holders(5) StockTaken show ?thesis by fastforce
next
  case (Inserted p rid oid)
  with assms(3) obtain u where "u \<in> set rest" "w_order (Txn_writes u) \<noteq> None"
    by (auto simp: txn_step_def step_order_def goto_def Let_def split: sum.splits if_splits)
  with ok holders(6) Inserted show ?thesis by fastforce
next
  case (Ordered p rid oid)
  with assms(3) obtain u where "u \<in> set rest" "w_event (Txn_writes u) \<noteq> None"
    by (auto simp: txn_step_def step_event_def goto_def Let_def split: sum.splits if_splits)
  with ok holders(7) Ordered show ?thesis by fastforce
next
  case (Logged p rid oid)
  with assms(3) show ?thesis by (auto simp: txn_step_def step_store_def goto_def Let_def split: sum.splits if_splits)
next
  case (Refusing de)
  with assms(3) show ?thesis by (auto simp: txn_step_def step_refuse_def goto_def split: sum.splits if_splits)
next
  case Replaying
  with assms(3) show ?thesis by (auto simp: txn_step_def step_replay_def goto_def split: sum.splits option.splits if_splits)
qed (use assms(2,3) in \<open>simp_all add: txn_step_def goto_def\<close>)

section \<open>The interfaces, discharged\<close>

lemma txn_step_commits:
  assumes "good d" "txn_ok s d t" "txn_step s H d rest t = Some (d', t')" "committing (Txn_phase t)"
  shows "\<exists>r. t' = t\<lparr>Txn_phase := Finished r, Txn_writes := no_writes\<rparr> \<and> txn_call s t d = (r, d')"
    "txn_ok s d u \<Longrightarrow> apart H t u \<Longrightarrow> kept d d' u"
proof -
  consider (s) res where "Txn_phase t = Stored res" | (r) de where "Txn_phase t = Refused de"
    using assms(4) by (cases "Txn_phase t") auto
  then show "\<exists>r. t' = t\<lparr>Txn_phase := Finished r, Txn_writes := no_writes\<rparr> \<and> txn_call s t d = (r, d')"
    using call_stored [OF assms(1,2)] call_refused [OF assms(1,2)] assms(3) by cases (auto simp: txn_step_def goto_def)
  from \<open>committing (Txn_phase t)\<close> show "txn_ok s d u \<Longrightarrow> apart H t u \<Longrightarrow> kept d d' u"
    using stored_kept [OF assms(1,2)] refused_kept [OF assms(1,2)] assms(3)
    by (cases "Txn_phase t") (auto simp: txn_step_def goto_def)
qed

lemma txn_crash_cases:
  obtains (same) "txn_crash t = t" | (lost) "txn_crash t = t\<lparr>Txn_phase := Crashed, Txn_writes := no_writes\<rparr>" "txn_result t = None" "phase_rank (Txn_phase t) < 11"
  by (cases "Txn_phase t") (auto simp: txn_crash_def txn_result_def)

lemma txn_crash_ok: "txn_ok s d t \<Longrightarrow> txn_ok s d (txn_crash t)"
  by (cases rule: txn_crash_cases [of t]) (simp_all add: txn_ok_def)

lemma txn_crash_same [simp]: "txn_call s (txn_crash t) = txn_call s t" "txn_result (txn_crash t) = txn_result t"
proof -
  show "txn_call s (txn_crash t) = txn_call s t"
    by (rule ext, cases rule: txn_crash_cases [of t]) (simp_all add: txn_call_def)
  have "txn_result (t\<lparr>Txn_phase := Crashed, Txn_writes := no_writes\<rparr>) = None" by (simp add: txn_result_def)
  then show "txn_result (txn_crash t) = txn_result t" by (cases rule: txn_crash_cases [of t]) simp_all
qed

lemma txn_crash_apart: "apart H t u \<Longrightarrow> apart H (txn_crash t) u"
proof (cases rule: txn_crash_cases [of t])
  case lost
  then show ?thesis by (simp add: apart_def advisory_def disjoint_def)
qed simp

lemma txn_crash_rank: "txn_crash t = t \<or> phase_rank (Txn_phase t) < phase_rank (Txn_phase (txn_crash t))"
  by (cases rule: txn_crash_cases [of t]) simp_all

lemma phase_rank_top: "phase_rank ph \<le> 11"
  by (cases ph) simp_all

interpretation calls: progressing "txn_step s H" txn_result txn_crash "txn_call s" good "txn_ok s" "apart H" "\<lambda>t. phase_rank (Txn_phase t)" 11 for s H
proof unfold_locales
  fix d t rest d' t' assume g: "good d" and ok: "txn_ok s d t" and st: "txn_step s H d rest t = Some (d', t')"
  show "txn_ok s d' t' \<and> txn_call s t' = txn_call s t"
  proof (cases "committing (Txn_phase t)")
    case True
    with txn_step_commits(1) [OF g ok st True] ok txn_step_moves(1) [OF st] show ?thesis by (auto simp: txn_ok_def)
  next
    case False
    with txn_step_quiet [OF g ok st False] txn_step_moves(1) [OF st] show ?thesis by (simp add: quiet_def)
  qed
next
  fix d t rest d' t' u assume g: "good d" and ok: "txn_ok s d t" and st: "txn_step s H d rest t = Some (d', t')"
    and u: "u \<in> set rest" "txn_ok s d u" "apart H t u"
  show "txn_ok s d' u \<and> apart H t' u"
  proof (cases "committing (Txn_phase t)")
    case True
    with txn_step_commits [OF g ok st True] u(2,3) apart_ended kept_ok [OF u(2)] show ?thesis by auto
  next
    case False
    with txn_step_quiet [OF g ok st False] u show ?thesis by (simp add: quiet_def)
  qed
next
  fix d t rest d' t' r assume g: "good d" and ok: "txn_ok s d t" and st: "txn_step s H d rest t = Some (d', t')" and r: "txn_result t' = Some r"
  show "txn_call s t d = (r, d')"
  proof (cases "committing (Txn_phase t)")
    case True
    with txn_step_commits(1) [OF g ok st True] r show ?thesis by (auto simp: txn_result_def)
  next
    case False
    with txn_step_quiet [OF g ok st False] r show ?thesis by (simp add: quiet_def)
  qed
next
  fix d t rest assume "good d" "txn_ok s d t" "\<forall>u \<in> set rest. txn_ok s d u" "phase_rank (Txn_phase t) < 11" "txn_step s H d rest t = None"
  then show "\<exists>u \<in> set rest. phase_rank (Txn_phase t) < phase_rank (Txn_phase u) \<and> phase_rank (Txn_phase u) < 11" by (intro txn_waits)
next
  fix d t rest r assume "txn_result t = Some r"
  then show "txn_step s H d rest t = None" by (auto simp: txn_result_def txn_step_def split: phase.splits)
next
  show "good d \<Longrightarrow> txn_ok s d t \<Longrightarrow> good (snd (txn_call s t d))" for d t by (simp add: txn_call_def Reserve_good)
qed (use txn_step_moves in \<open>simp_all add: apart_commute txn_crash_ok txn_crash_apart txn_crash_rank phase_rank_top\<close>)

section \<open>Whole runs\<close>

definition begin_all :: "(env \<times> string \<times> ReservationRequest) list \<Rightarrow> txn list" where
  "begin_all cs = map (\<lambda>(e, saleID, request). begin_txn e saleID request) cs"

lemma begin_all_ok:
  assumes "good d" "\<forall>(e, saleID, request) \<in> set cs. all_ok e"
  shows "world_ok good (txn_ok s) (apart H) \<lparr>committed = d, txns = begin_all cs, finish_order = []\<rparr>" "\<forall>t \<in> set (begin_all cs). txn_result t = None"
proof -
  have start: "txn_ok s d t \<and> txn_result t = None \<and> apart H t u" if "t \<in> set (begin_all cs)" for t u
    using that assms(2)
    by (auto simp: begin_all_def begin_txn_def txn_ok_def txn_result_def apart_def advisory_def disjoint_def)
  then show "world_ok good (txn_ok s) (apart H) \<lparr>committed = d, txns = begin_all cs, finish_order = []\<rparr>"
    using assms(1) by (auto simp: world_ok_def)
  show "\<forall>t \<in> set (begin_all cs). txn_result t = None" using start by blast
qed

text \<open>Only a lost client leaves a call without a result.\<close>

lemma world_step_crashed:
  assumes "i < length (txns W)" "Txn_phase (txns (world_step (txn_step s H) txn_result txn_crash W oc) ! i) = Crashed"
  shows "Txn_phase (txns W ! i) = Crashed \<or> oc = Crash i"
proof (cases oc)
  case (Crash j)
  with assms show ?thesis by (cases "j = i") (auto simp: world_step_def split: if_splits)
next
  case (Turn j)
  with assms txn_step_moves(4) show ?thesis
    by (cases "j = i") (fastforce simp: world_step_def split: if_splits option.splits)+
qed

lemma run_crashed:
  assumes "i < length ts" "Txn_phase (txns (run_calls s H d ts ocs) ! i) = Crashed" "\<forall>t \<in> set ts. Txn_phase t \<noteq> Crashed"
  shows "Crash i \<in> set ocs"
  using assms(2)
proof (induction ocs rule: rev_induct)
  case Nil
  with assms(1,3) show ?case by (simp add: run_calls_def run_world_def)
next
  case (snoc oc ocs)
  let ?W = "foldl (world_step (txn_step s H) txn_result txn_crash) \<lparr>committed = d, txns = ts, finish_order = []\<rparr> ocs"
  have "i < length (txns ?W)" using assms(1) by simp
  from world_step_crashed [OF this, of s H oc] snoc show ?case by (auto simp: run_calls_def run_world_def)
qed

lemma ended_phase: "phase_rank ph = 11 \<Longrightarrow> ph = Crashed \<or> (\<exists>r. ph = Finished r)"
  by (cases ph) simp_all

lemma calls_in_order:
  assumes "good d" "\<forall>(e, saleID, request) \<in> set cs. all_ok e"
  shows "in_order txn_result (txn_call s) (begin_all cs) d (run_calls s H d (begin_all cs) ocs)"
  unfolding run_calls_def by (rule calls.run_serialisable(2) [OF begin_all_ok [OF assms]])

lemma serially_reachable: "reachable s d \<Longrightarrow> reachable s (snd (serially (txn_call s) ts d is))"
proof (induction "is" arbitrary: d)
  case (Cons i "is")
  have "reachable s (snd (txn_call s (ts ! i) d))"
    using reachable_perform [OF Cons.prems, of "Txn_env (ts ! i)" undefined "Call_Reserve (Txn_sale (ts ! i)) (Txn_request (ts ! i))"]
    by (simp add: txn_call_def)
  from Cons.IH [OF this] show ?case by (simp add: Let_def case_prod_beta)
qed simp

lemma calls_end:
  assumes "good d" "\<forall>(e, saleID, request) \<in> set cs. all_ok e" "\<forall>r \<in> set rounds. \<forall>i < length cs. Turn i \<in> set r" "11 * length cs \<le> length rounds"
    "i < length cs"
  shows "txn_result (txns (run_calls s H d (begin_all cs) (concat rounds)) ! i) \<noteq> None \<or> Crash i \<in> set (concat rounds)"
proof -
  let ?W = "run_calls s H d (begin_all cs) (concat rounds)"
  have i: "i < length (begin_all cs)" using assms(5) by (simp add: begin_all_def)
  have "txns ?W ! i \<in> set (txns ?W)" using i by (simp add: run_calls_def run_world_def)
  then have "phase_rank (Txn_phase (txns ?W ! i)) = 11"
    unfolding run_calls_def by (rule calls.all_end [OF begin_all_ok(1) [OF assms(1,2)], rotated 2]) (use assms(3,4) in \<open>simp_all add: begin_all_def\<close>)
  moreover have "\<forall>t \<in> set (begin_all cs). Txn_phase t \<noteq> Crashed" by (auto simp: begin_all_def begin_txn_def)
  ultimately show ?thesis
    using ended_phase [of "Txn_phase (txns ?W ! i)"] run_crashed [OF i, of s H d "concat rounds"] by (auto simp: txn_result_def)
qed

section \<open>A rush of buyers at once\<close>

abbreviation buyers :: "string \<Rightarrow> (env \<times> ReservationRequest) list \<Rightarrow> (env \<times> string \<times> ReservationRequest) list" where
  "buyers sid bs \<equiv> map (\<lambda>(e, request). (e, sid, request)) bs"

lemma serially_rush:
  "\<forall>i \<in> set is. i < length bs \<Longrightarrow> serially (txn_call s) (begin_all (buyers sid bs)) d is = rush s d sid (map ((!) bs) is)"
proof (induction "is" arbitrary: d)
  case (Cons i "is")
  then have i: "i < length bs" by simp
  obtain e req where b: "bs ! i = (e, req)" by (cases "bs ! i")
  have "txn_call s (begin_all (buyers sid bs) ! i) d = Reserve s e d sid req"
    using i b by (simp add: begin_all_def txn_call_def begin_txn_def)
  with Cons b show ?case by (simp add: Let_def split: prod.split)
qed simp

lemma buyers_ok_order:
  assumes "buyers_ok d sid lo hi bs" "distinct is" "\<forall>i \<in> set is. i < length bs"
  shows "buyers_ok d sid lo hi (map ((!) bs) is)"
proof -
  have "distinct (map f (map ((!) bs) is))" if "distinct (map f bs)" for f :: "env \<times> ReservationRequest \<Rightarrow> string"
  proof -
    have "map f (map ((!) bs) is) = map ((!) (map f bs)) is" using assms(3) by simp
    moreover have "inj_on ((!) (map f bs)) (set is)" using that assms(3) by (intro inj_on_nth) auto
    then have "distinct (map ((!) (map f bs)) is)" using assms(2) by (simp add: distinct_map)
    ultimately show ?thesis by (simp only:)
  qed
  then show ?thesis using assms(1,3) by (auto simp: buyers_ok_def list_all_iff)
qed

lemma rush_at_once:
  fixes s :: Store and H :: "string \<Rightarrow> int"
  assumes "good d" "on_sale d sid lo hi n" "buyers_ok d sid lo hi bs"
    and "\<forall>r \<in> set rounds. \<forall>i < length bs. Turn i \<in> set r" "11 * length bs \<le> length rounds" "\<forall>i. Crash i \<notin> set (concat rounds)"
  defines "W \<equiv> run_calls s H d (begin_all (buyers sid bs)) (concat rounds)"
  shows "\<exists>xs. length xs = min n (length bs) \<and> distinct (finish_order W) \<and> set (finish_order W) = {..<length bs}
    \<and> map (\<lambda>i. txn_result (txns W ! i)) (finish_order W)
      = map (\<lambda>x. Some (Inr x)) xs @ replicate (length bs - n) (Some (Inl (DomainError allocation_sold_out)))"
proof -
  have ok: "\<forall>(e, saleID, request) \<in> set (buyers sid bs). all_ok e"
    using assms(3) by (auto simp: buyers_ok_def list_all_iff buyer_ok_def env_ok_def)
  have len: "length (begin_all (buyers sid bs)) = length bs" by (simp add: begin_all_def)
  note r = calls_in_order [OF assms(1) ok, of s H "concat rounds", folded W_def, unfolded in_order_def len]
  have "txn_result (txns W ! i) \<noteq> None" if "i < length bs" for i
    using calls_end [OF assms(1) ok, of rounds i s H] assms(4-6) that by (auto simp: W_def)
  then have all: "set (finish_order W) = {..<length bs}" using r by auto
  let ?bs = "map ((!) bs) (finish_order W)"
  have dist: "distinct (finish_order W)" using r by blast
  have lh: "length ?bs = length bs" using distinct_card [OF dist] unfolding all by simp
  have "buyers_ok d sid lo hi ?bs" by (rule buyers_ok_order [OF assms(3)]) (use r all in auto)
  from rush_result [OF assms(1,2) this, of s] obtain xs where xs: "length xs = min n (length bs)"
      "fst (rush s d sid ?bs) = map Inr xs @ replicate (length bs - n) (Inl (DomainError allocation_sold_out))"
    unfolding lh by blast
  have "map (\<lambda>i. the (txn_result (txns W ! i))) (finish_order W) = fst (rush s d sid ?bs)"
    using r serially_rush [of "finish_order W" bs s sid d] all by auto
  then have "map Some (map (\<lambda>i. the (txn_result (txns W ! i))) (finish_order W))
      = map (\<lambda>x. Some (Inr x)) xs @ replicate (length bs - n) (Some (Inl (DomainError allocation_sold_out)))"
    by (simp add: xs(2) del: map_map) simp
  moreover have "map Some (map (\<lambda>i. the (txn_result (txns W ! i))) (finish_order W)) = map (\<lambda>i. txn_result (txns W ! i)) (finish_order W)"
    using r by (auto simp: comp_def)
  ultimately show ?thesis using xs(1) all r by auto
qed

end
