(* ===== verification/Contention.thy ===== *)
theory Contention
  imports Statements MoveEffect
begin

text \<open>
  Reservations against cancellations. \<open>TransitionReservation\<close> (\<open>src/internal/store/reservation.go\<close>), statement by statement, under the rules of the theory
  \<open>Concurrent\<close>, side by side with \<open>Reserve\<close>. A row locked by SELECT ... FOR UPDATE is held as an unchanged version.

  \<open>Reserve\<close> updates the sale and then the inventory; a cancellation updates the inventory and then the sale. So a buyer and a cancellation for the same sale can wait for each
  other: \<open>stuck\<close> leads both to that point. On its own a cancellation has the result and the effect of \<open>TransitionReservation\<close> (\<open>move_alone\<close>).
\<close>

section \<open>TransitionReservation, one statement at a time\<close>

datatype move_phase =
    MoveBegin
  | RowLocked reservations_row
  | StateSet reservations_row
  | OrderSet reservations_row
  | StockReturned reservations_row
  | SaleReturned reservations_row
  | MoveLogged
  | MoveCommitted
  | Moved "go_error + Reservation"
  | MoveCrashed

record move =
  Move_env :: env
  Move_id :: string
  Move_target :: ReservationState
  Move_phase :: move_phase
  Move_writes :: writes

definition move_to :: "db \<Rightarrow> move \<Rightarrow> move_phase \<Rightarrow> writes \<Rightarrow> (db \<times> move) option" where
  "move_to d m ph w = Some (d, m\<lparr>Move_phase := ph, Move_writes := w\<rparr>)"

definition move_read :: "db \<Rightarrow> txn list \<Rightarrow> move \<Rightarrow> (db \<times> move) option" where
  "move_read d rest m =
    (case query_row (find (\<lambda>r. reservations_id r = Move_id m) (reservations (overlay d (Move_writes m)))) of
       Inl err \<Rightarrow> move_to d m (Moved (Inl (notFound err))) no_writes
     | Inr r \<Rightarrow> if pending w_reservation reservations_id rest (Move_id m) then None
        else (case ValidateReservationTransition (reservations_state r) (Move_target m) of
           Some err \<Rightarrow> move_to d m (Moved (Inl (domain_error ''INVALID_STATE_TRANSITION''
             (''invalid reservation transition '' @ ReservationState_string (reservations_state r)
                @ '' -> '' @ ReservationState_string (Move_target m)) 409))) no_writes
         | None \<Rightarrow> move_to d m (RowLocked r) ((Move_writes m)\<lparr>w_reservation := Some r\<rparr>)))"

definition move_set_state :: "db \<Rightarrow> move \<Rightarrow> reservations_row \<Rightarrow> (db \<times> move) option" where
  "move_set_state d m r =
    (case sql_set_reservation_state (db_now (Move_env m)) (overlay d (Move_writes m)) (Move_id m) (Move_target m) of
       Inl err \<Rightarrow> move_to d m (Moved (Inl err)) no_writes
     | Inr (d1, n) \<Rightarrow> move_to d m (StateSet r) ((Move_writes m)\<lparr>w_reservation := find (\<lambda>r. reservations_id r = Move_id m) (reservations d1)\<rparr>))"

definition move_set_order :: "db \<Rightarrow> txn list \<Rightarrow> move \<Rightarrow> reservations_row \<Rightarrow> (db \<times> move) option" where
  "move_set_order d rest m r =
    (case sql_set_order_state_of_reservation (db_now (Move_env m)) (overlay d (Move_writes m)) (Move_id m) (order_state_of (Move_target m)) of
       Inl err \<Rightarrow> if pending w_order orders_reservation_id rest (Move_id m) then None else move_to d m (Moved (Inl err)) no_writes
     | Inr (d1, n) \<Rightarrow>
        if n = 0 then move_to d m (OrderSet r) (Move_writes m)
        else if pending w_order orders_reservation_id rest (Move_id m) then None
        else move_to d m (OrderSet r) ((Move_writes m)\<lparr>w_order := find (\<lambda>x. orders_reservation_id x = Move_id m) (orders d1)\<rparr>))"

definition move_return_stock :: "db \<Rightarrow> txn list \<Rightarrow> move \<Rightarrow> reservations_row \<Rightarrow> (db \<times> move) option" where
  "move_return_stock d rest m r =
    (case sql_release_inventory (db_now (Move_env m)) (overlay d (Move_writes m)) (reservations_product_id r) (reservations_quantity r) of
       Inl err \<Rightarrow> if pending w_stock inventory_product_id rest (reservations_product_id r) then None else move_to d m (Moved (Inl err)) no_writes
     | Inr (d1, n) \<Rightarrow>
        if n = 0 then move_to d m (StockReturned r) (Move_writes m)
        else if pending w_stock inventory_product_id rest (reservations_product_id r) then None
        else move_to d m (StockReturned r)
          ((Move_writes m)\<lparr>w_stock := find (\<lambda>i. inventory_product_id i = reservations_product_id r) (inventory d1)\<rparr>))"

definition move_return_sale :: "db \<Rightarrow> txn list \<Rightarrow> move \<Rightarrow> reservations_row \<Rightarrow> (db \<times> move) option" where
  "move_return_sale d rest m r =
    (case sql_release_sale_stock (db_now (Move_env m)) (overlay d (Move_writes m)) (reservations_sale_id r) (reservations_quantity r) of
       Inl err \<Rightarrow> if pending w_sale flash_sales_id rest (reservations_sale_id r) then None else move_to d m (Moved (Inl err)) no_writes
     | Inr (d1, n) \<Rightarrow>
        if n = 0 then move_to d m (SaleReturned r) (Move_writes m)
        else if pending w_sale flash_sales_id rest (reservations_sale_id r) then None
        else move_to d m (SaleReturned r) ((Move_writes m)\<lparr>w_sale := find (\<lambda>s. flash_sales_id s = reservations_sale_id r) (flash_sales d1)\<rparr>))"

definition move_event :: "db \<Rightarrow> txn list \<Rightarrow> move \<Rightarrow> reservations_row \<Rightarrow> (db \<times> move) option" where
  "move_event d rest m r =
    (case event (Move_env m) 6 0 (overlay d (Move_writes m)) ''reservation'' (Move_id m) (''reservation.'' @ ReservationState_string (Move_target m))
         (ReservationState_string (reservations_state r)) (ReservationState_string (Move_target m)) MetaNull of
       Inl err \<Rightarrow> move_to d m (Moved (Inl err)) no_writes
     | Inr d1 \<Rightarrow> let v = last (domain_events d1) in
         if pending w_event domain_events_id rest (domain_events_id v) then None
         else move_to d m MoveLogged ((Move_writes m)\<lparr>w_event := Some v\<rparr>))"

text \<open>After COMMIT the reservation is read back in a statement of its own.\<close>

definition move_step :: "db \<Rightarrow> txn list \<Rightarrow> move \<Rightarrow> (db \<times> move) option" where
  "move_step d rest m = (case Move_phase m of
     MoveBegin \<Rightarrow> move_read d rest m
   | RowLocked r \<Rightarrow> move_set_state d m r
   | StateSet r \<Rightarrow> move_set_order d rest m r
   | OrderSet r \<Rightarrow> if Move_target m = ReservationCancelled then move_return_stock d rest m r else move_event d rest m r
   | StockReturned r \<Rightarrow> move_return_sale d rest m r
   | SaleReturned r \<Rightarrow> move_event d rest m r
   | MoveLogged \<Rightarrow> move_to (overlay d (Move_writes m)) m MoveCommitted no_writes
   | MoveCommitted \<Rightarrow> move_to d m (Moved (GetReservation (Move_env m) 8 d (Move_id m))) no_writes
   | Moved res \<Rightarrow> None
   | MoveCrashed \<Rightarrow> None)"

definition begin_move :: "env \<Rightarrow> string \<Rightarrow> ReservationState \<Rightarrow> move" where
  "begin_move e rid target = \<lparr>Move_env = e, Move_id = rid, Move_target = target, Move_phase = MoveBegin, Move_writes = no_writes\<rparr>"

section \<open>Both kinds of transactions\<close>

datatype session = Booking txn | Moving move

text \<open>To the others a cancellation is the rows it holds; it takes no advisory lock.\<close>

fun holder :: "session \<Rightarrow> txn" where
  "holder (Booking t) = t"
| "holder (Moving m) = \<lparr>Txn_env = Move_env m, Txn_sale = [],
     Txn_request = \<lparr>Request_UserID = [], Request_Quantity = 0, Request_IdempotencyKey = []\<rparr>, Txn_phase = Crashed, Txn_writes = Move_writes m\<rparr>"

fun session_step :: "Store \<Rightarrow> (string \<Rightarrow> int) \<Rightarrow> db \<Rightarrow> session list \<Rightarrow> session \<Rightarrow> (db \<times> session) option" where
  "session_step s H d rest (Booking t) = map_option (map_prod id Booking) (txn_step s H d (map holder rest) t)"
| "session_step s H d rest (Moving m) = map_option (map_prod id Moving) (move_step d (map holder rest) m)"

fun session_result :: "session \<Rightarrow> ((go_error + ReservationResult) + (go_error + Reservation)) option" where
  "session_result (Booking t) = map_option Inl (txn_result t)"
| "session_result (Moving m) = (case Move_phase m of Moved res \<Rightarrow> Some (Inr res) | _ \<Rightarrow> None)"

fun session_crash :: "session \<Rightarrow> session" where
  "session_crash (Booking t) = Booking (txn_crash t)"
| "session_crash (Moving m) = (case Move_phase m of Moved res \<Rightarrow> Moving m | _ \<Rightarrow> Moving (m\<lparr>Move_phase := MoveCrashed, Move_writes := no_writes\<rparr>))"

definition run_sessions :: "Store \<Rightarrow> (string \<Rightarrow> int) \<Rightarrow> db \<Rightarrow> session list \<Rightarrow> occurrence list \<Rightarrow> (db, session) world" where
  "run_sessions s H = run_world (session_step s H) session_result session_crash"

section \<open>A buyer up to the inventory\<close>

abbreviation at_phase :: "txn \<Rightarrow> phase \<Rightarrow> writes \<Rightarrow> txn" where
  "at_phase t ph w \<equiv> t\<lparr>Txn_phase := ph, Txn_writes := w\<rparr>"

text \<open>Among transactions that hold nothing yet, a request that would be served takes the sale in five statements.\<close>

lemma accepted:
  assumes g: "good d" and v: "verdict e d sid u q = None"
  obtains sale p i where "sql_sale_product d sid = Some (sale, p)" "sale_open e sale" "products_active p"
    "user_units (reservations d) sid u + q \<le> flash_sales_max_quantity_per_user sale" "q \<le> flash_sales_remaining_stock sale"
    "i \<in> set (inventory d)" "inventory_product_id i = products_id p" "q \<le> inventory_available i"
proof -
  have l: "ledger [] [] [] [] d" using g by (simp add: good_def)
  obtain sale p where sp: "sql_sale_product d sid = Some (sale, p)" using v by (auto simp: verdict_def split: option.splits)
  have "products_id p \<in> products_id ` set (products d)" using sale_product_Some(3) [OF ledgerD(1) [OF l] sp] by simp
  then obtain i where "i \<in> set (inventory d)" "inventory_product_id i = products_id p" "available_units d (products_id p) = inventory_available i"
    using available_unique [OF l] by metis
  with sp v show thesis by (intro that [of sale p i]) (auto simp: verdict_def split: if_splits)
qed

lemma booking_claims:
  assumes "entered d t" "Txn_phase t = Begin" "Txn_writes t = no_writes" "\<And>u. u \<in> set rest \<Longrightarrow> Txn_writes u = no_writes"
  shows "txn_step s H d rest t = Some (d, at_phase t Claimed (held_key t))"
  using assms by (auto simp: txn_step_def step_claim_def entered_def sql_claim_key_def insert_idempotency_keys_def goto_def)

lemma booking_locks:
  assumes "Txn_phase t = Claimed" "\<And>u. u \<in> set rest \<Longrightarrow> advisory H u = None"
  shows "txn_step s H d rest t = Some (d, at_phase t Locked (Txn_writes t))"
  using assms by (auto simp: txn_step_def step_lock_def goto_def)

lemma booking_opens:
  assumes "opened d t sale p" "Txn_phase t = Locked" "Txn_writes t = held_key t"
  shows "txn_step s H d rest t = Some (d, at_phase t (Opened (flash_sales_max_quantity_per_user sale) p) (held_key t))"
proof -
  have "entered d t" using assms(1) by (simp add: opened_def)
  from view_key [OF this] show ?thesis
    using assms by (simp add: txn_step_def step_sale_def opened_def sale_product_keys sale_open_def Let_def goto_def)
qed

lemma booking_checks:
  assumes "good d" "allowed d t sale p" "Txn_phase t = Opened (flash_sales_max_quantity_per_user sale) p" "Txn_writes t = held_key t"
  shows "txn_step s H d rest t = Some (d, at_phase t (Checked p) (held_key t))"
proof -
  have en: "entered d t" and sp: "sql_sale_product d (Txn_sale t) = Some (sale, p)" using assms(2) by (simp_all add: allowed_def opened_def)
  have l: "ledger [] [] [] [] d" using assms(1) by (simp add: good_def)
  note sale = sale_product_Some [OF ledgerD(1) [OF l] sp]
  have "sql_existing_quantity (overlay d (held_key t)) (Txn_sale t) (Txn_user t) = sql_existing_quantity d (Txn_sale t) (Txn_user t)"
    by (simp add: view_key [OF en] sql_existing_quantity_def)
  then show ?thesis
    using assms(2-) existing_no_wrap [OF l sale(1,2)] entered_units [OF en] by (simp add: txn_step_def step_limit_def allowed_def goto_def)
qed

lemma booking_takes_sale:
  assumes "good d" "allowed d t sale p" "Txn_units t \<le> flash_sales_remaining_stock sale" "Txn_phase t = Checked p" "Txn_writes t = held_key t"
    "\<And>u. u \<in> set rest \<Longrightarrow> Txn_writes u = no_writes"
  shows "txn_step s H d rest t = Some (d, at_phase t (SaleTaken p) (held_sale t sale))"
proof -
  have sp: "sql_sale_product d (Txn_sale t) = Some (sale, p)" using assms(2) by (simp add: allowed_def opened_def)
  then have "find (\<lambda>r. flash_sales_id r = Txn_sale t) (flash_sales d) = Some sale"
    by (auto simp: sql_sale_product_def split: option.splits)
  then have "find (\<lambda>r. flash_sales_id r = Txn_sale t) (taken_sales (Txn_env t) (Txn_sale t) (Txn_units t) (flash_sales d)) = Some (sale_less t sale)"
    using sale_product_Some(2) [OF schema_good [OF assms(1)] sp] by (simp add: sale_taken.find_update)
  then show ?thesis
    using assms(4-) take_sale_view [OF assms(1-3)] by (auto simp: txn_step_def step_take_sale_def view_sale [OF assms(1,2)] goto_def)
qed

text \<open>Then it needs the inventory row, and waits when another transaction has it.\<close>

lemma booking_waits:
  assumes "good d" "allowed d t sale p" "Txn_units t \<le> flash_sales_remaining_stock sale" "Txn_phase t = SaleTaken p" "Txn_writes t = held_sale t sale"
    and i: "i \<in> set (inventory d)" "inventory_product_id i = products_id p" "Txn_units t \<le> inventory_available i"
    and u: "u \<in> set rest" "w_stock (Txn_writes u) = Some j" "inventory_product_id j = products_id p"
  shows "txn_step s H d rest t = None"
proof -
  have "entered d t" using assms(2) by (simp add: allowed_def opened_def)
  then have "0 < Txn_units t" using entered_units by blast
  moreover have "i \<in> set (inventory (overlay d (held_sale t sale)))" using i(1) by (simp add: view_sale [OF assms(1,2)])
  ultimately have "\<exists>d1. sql_take_inventory (Txn_env t) (overlay d (held_sale t sale)) (products_id p) (Txn_units t) = Inr (d1, 1)"
    using take_inventory_ok [OF view_sale_ledger [OF assms(1-3)] _ i(2,3)] by blast
  then show ?thesis using assms(4,5) u by (auto simp: txn_step_def step_take_stock_def)
qed

section \<open>A cancellation up to the sale\<close>

interpretation order_moved: keyed_update orders_reservation_id "\<lambda>x. x\<lparr>orders_state := st, orders_updated_at := t\<rparr>" for st t
  by unfold_locales simp

interpretation stock_returned: keyed_update inventory_product_id
  "\<lambda>i. i\<lparr>inventory_available := inventory_available i + q, inventory_reserved := inventory_reserved i - q, inventory_updated_at := t\<rparr>" for q t
  by unfold_locales simp

abbreviation cancelled_row :: "env \<Rightarrow> reservations_row \<Rightarrow> reservations_row" where
  "cancelled_row e r \<equiv> r\<lparr>reservations_state := ReservationCancelled, reservations_updated_at := db_now e\<rparr>"

abbreviation cancelled_order :: "env \<Rightarrow> orders_row \<Rightarrow> orders_row" where
  "cancelled_order e x \<equiv> x\<lparr>orders_state := OrderCancelled, orders_updated_at := db_now e\<rparr>"

abbreviation stock_more :: "env \<Rightarrow> int \<Rightarrow> inventory_row \<Rightarrow> inventory_row" where
  "stock_more e q i \<equiv> i\<lparr>inventory_available := inventory_available i + q, inventory_reserved := inventory_reserved i - q,
     inventory_updated_at := db_now e\<rparr>"

abbreviation moving :: "env \<Rightarrow> string \<Rightarrow> move_phase \<Rightarrow> writes \<Rightarrow> move" where
  "moving e rid ph w \<equiv> (begin_move e rid ReservationCancelled)\<lparr>Move_phase := ph, Move_writes := w\<rparr>"

text \<open>The rows of a pending reservation and what the statements see of them.\<close>

lemma put_same: "distinct (map key rows) \<Longrightarrow> r \<in> set rows \<Longrightarrow> put key (Some r) rows = rows"
  using put_version [where f = "\<lambda>r. r" and key = key and rows = rows and r = r] by (simp add: update_where_def)

lemma put_order:
  assumes "schema_ok d" "x \<in> set (orders d)" "orders_reservation_id x = rid"
  shows "put orders_id (Some (cancelled_order e x)) (orders d) = moved_orders (db_now e) rid OrderCancelled (orders d)"
proof -
  have "put orders_id (Some (cancelled_order e x)) (orders d) = update_where (\<lambda>y. orders_id y = orders_id x) (cancelled_order e) (orders d)"
    by (rule put_version [where f = "cancelled_order e"]) (use keysD(5) [OF assms(1)] assms(2) in simp_all)
  also have "... = moved_orders (db_now e) rid OrderCancelled (orders d)"
    unfolding update_where_def
    by (rule map_cong) (use distinct_key_eq [OF keysD(5) [OF assms(1)] _ assms(2)] distinct_key_eq [OF keysD(6) [OF assms(1)] _ assms(2)] assms(3) in auto)
  finally show ?thesis .
qed


text \<open>A pending reservation with its order, its inventory row and the sale it belongs to.\<close>

definition cancellable :: "db \<Rightarrow> reservations_row \<Rightarrow> orders_row \<Rightarrow> inventory_row \<Rightarrow> bool" where
  "cancellable d r x i \<longleftrightarrow> good d \<and> r \<in> set (reservations d) \<and> reservations_state r = ReservationPending
     \<and> x \<in> set (orders d) \<and> orders_reservation_id x = reservations_id r
     \<and> i \<in> set (inventory d) \<and> inventory_product_id i = reservations_product_id r"

abbreviation locked_writes :: "reservations_row \<Rightarrow> writes" where
  "locked_writes r \<equiv> no_writes\<lparr>w_reservation := Some r\<rparr>"

abbreviation ordered_writes :: "env \<Rightarrow> reservations_row \<Rightarrow> orders_row \<Rightarrow> writes" where
  "ordered_writes e r x \<equiv> no_writes\<lparr>w_reservation := Some (cancelled_row e r), w_order := Some (cancelled_order e x)\<rparr>"

abbreviation returned_writes :: "env \<Rightarrow> reservations_row \<Rightarrow> orders_row \<Rightarrow> inventory_row \<Rightarrow> writes" where
  "returned_writes e r x i \<equiv> (ordered_writes e r x)\<lparr>w_stock := Some (stock_more e (reservations_quantity r) i)\<rparr>"

lemma cancellable_rows:
  assumes "good d" "r \<in> set (reservations d)" "reservations_state r = ReservationPending"
  obtains x i where "cancellable d r x i"
proof -
  have l: "ledger [] [] [] [] d" using assms(1) by (simp add: good_def)
  obtain x where "x \<in> set (orders d)" "orders_reservation_id x = reservations_id r"
    using ledgerD(7) [OF l] assms(2) by (auto simp: ordered_def order_agrees_def)
  moreover obtain i where "i \<in> set (inventory d)" "inventory_product_id i = reservations_product_id r"
    by (rule inventory_row_of [OF ledgerD(2) [OF l] refsD(4) [OF ledgerD(1) [OF l] assms(2)]])
  ultimately show thesis using that assms by (simp add: cancellable_def)
qed

lemma view_locked: "cancellable d r x i \<Longrightarrow> overlay d (locked_writes r) = d"
  by (simp add: overlay_def no_writes_def cancellable_def put_same keysD(4) [OF schema_good])

lemma put_cancelled:
  assumes "cancellable d r x i"
  shows "put reservations_id (Some (cancelled_row e r)) (reservations d) = restated ReservationCancelled (db_now e) (reservations_id r) (reservations d)"
  by (rule put_version [where f = "cancelled_row e"]) (use assms keysD(4) [OF schema_good, of d] in \<open>simp_all add: cancellable_def\<close>)

lemma view_cancelled:
  "cancellable d r x i \<Longrightarrow> overlay d (locked_writes (cancelled_row e r))
     = d\<lparr>reservations := restated ReservationCancelled (db_now e) (reservations_id r) (reservations d)\<rparr>"
  by (simp add: overlay_def no_writes_def put_cancelled)

lemma view_ordered:
  assumes "cancellable d r x i"
  shows "overlay d (ordered_writes e r x) = d\<lparr>reservations := restated ReservationCancelled (db_now e) (reservations_id r) (reservations d),
      orders := moved_orders (db_now e) (reservations_id r) OrderCancelled (orders d)\<rparr>"
  using assms put_order [OF schema_good, of d x "reservations_id r" e]
  by (simp add: overlay_def no_writes_def put_cancelled [OF assms]) (simp add: cancellable_def)

lemma move_locks:
  assumes "cancellable d r x i" "\<And>u. u \<in> set rest \<Longrightarrow> w_reservation (Txn_writes u) = None"
  shows "move_step d rest (begin_move e (reservations_id r) ReservationCancelled) = Some (d, moving e (reservations_id r) (RowLocked r) (locked_writes r))"
proof -
  have "find (\<lambda>y. reservations_id y = reservations_id r) (reservations d) = Some r"
    using assms(1) find_Some_iff_key [OF keysD(4) [OF schema_good], of d] by (simp add: cancellable_def)
  moreover have "ValidateReservationTransition (reservations_state r) ReservationCancelled = None"
    using assms(1) by (auto simp: cancellable_def Validate_None intro: lifecycle.intros)
  ultimately show ?thesis using assms(2) by (auto simp: move_step_def begin_move_def move_read_def move_to_def)
qed

lemma move_restates:
  assumes "cancellable d r x i"
  shows "move_step d rest (moving e (reservations_id r) (RowLocked r) (locked_writes r))
    = Some (d, moving e (reservations_id r) (StateSet r) (locked_writes (cancelled_row e r)))"
proof -
  have g: "good d" "r \<in> set (reservations d)" using assms by (simp_all add: cancellable_def)
  have "find (\<lambda>y. reservations_id y = reservations_id r) (reservations d) = Some r"
    using g find_Some_iff_key [OF keysD(4) [OF schema_good], of d] by simp
  then have "find (\<lambda>y. reservations_id y = reservations_id r) (restated ReservationCancelled (db_now e) (reservations_id r) (reservations d))
      = Some (cancelled_row e r)" by (simp add: restate.find_update)
  then show ?thesis
    by (simp add: move_step_def begin_move_def move_set_state_def view_locked [OF assms] set_state_eq [OF schema_good [OF g(1)]] move_to_def)
qed


lemma move_reorders:
  assumes "cancellable d r x i" "\<And>u. u \<in> set rest \<Longrightarrow> w_order (Txn_writes u) = None"
  shows "move_step d rest (moving e (reservations_id r) (StateSet r) (locked_writes (cancelled_row e r)))
    = Some (d, moving e (reservations_id r) (OrderSet r) (ordered_writes e r x))"
proof -
  have g: "good d" "x \<in> set (orders d)" "orders_reservation_id x = reservations_id r" using assms(1) by (simp_all add: cancellable_def)
  let ?d1 = "overlay d (locked_writes (cancelled_row e r))"
  have d1: "schema_ok ?d1" "orders ?d1 = orders d"
    by (simp_all add: view_cancelled [OF assms(1)] restated_schema [OF schema_good [OF g(1)]])
  have "find (\<lambda>y. orders_reservation_id y = reservations_id r) (orders d) = Some x"
    using g find_Some_iff_key [OF keysD(6) [OF schema_good], of d] by simp
  then have new: "find (\<lambda>y. orders_reservation_id y = reservations_id r) (moved_orders (db_now e) (reservations_id r) OrderCancelled (orders d))
      = Some (cancelled_order e x)" using g(3) by (simp add: order_moved.find_update)
  obtain n where o: "sql_set_order_state_of_reservation (db_now e) ?d1 (reservations_id r) OrderCancelled
      = Inr (?d1\<lparr>orders := moved_orders (db_now e) (reservations_id r) OrderCancelled (orders d)\<rparr>, n)"
    using order_state_eq [OF d1(1), of "db_now e" "reservations_id r" OrderCancelled] d1(2) by auto
  then have "n = rows_where (\<lambda>y. orders_reservation_id y = reservations_id r) (orders d)"
    using d1(2) by (simp add: sql_set_order_state_of_reservation_def update_orders_Inr)
  then have "n \<noteq> 0" using g(2,3) by (auto simp: rows_where_def filter_empty_conv)
  then show ?thesis
    using assms(2) o new by (auto simp: move_step_def begin_move_def move_set_order_def move_to_def)
qed

lemma move_returns:
  assumes "cancellable d r x i" "\<And>u. u \<in> set rest \<Longrightarrow> w_stock (Txn_writes u) = None"
  shows "move_step d rest (moving e (reservations_id r) (OrderSet r) (ordered_writes e r x))
    = Some (d, moving e (reservations_id r) (StockReturned r) (returned_writes e r x i))"
proof -
  have g: "good d" "r \<in> set (reservations d)" "reservations_state r = ReservationPending"
    and i: "i \<in> set (inventory d)" "inventory_product_id i = reservations_product_id r" using assms(1) by (simp_all add: cancellable_def)
  have l: "ledger [] [] [] [] d" using g(1) by (simp add: good_def)
  note sc = ledgerD(1) [OF l]
  let ?d2 = "overlay d (ordered_writes e r x)"
  have "0 \<le> reservations_quantity r" "reservations_product_id r \<in> products_id ` set (products ?d2)"
    using schema_qty [OF sc g(2)] refsD(4) [OF sc g(2)] by (simp_all add: view_ordered [OF assms(1)])
  moreover have "ledger [r] [r] [] [] ?d2" using cancel_ledger [OF l g(2,3), of "db_now e"] by (simp add: view_ordered [OF assms(1)])
  ultimately have rel: "sql_release_inventory (db_now e) ?d2 (reservations_product_id r) (reservations_quantity r)
      = Inr (?d2\<lparr>inventory := returned_inventory (db_now e) (reservations_product_id r) (reservations_quantity r) (inventory d)\<rparr>, 1)"
    using release_both(1) [of r "[]" "[]" "[]" "[]" ?d2 "db_now e"] by (simp add: view_ordered [OF assms(1)])
  have "find (\<lambda>j. inventory_product_id j = reservations_product_id r) (inventory d) = Some i"
    using i find_Some_iff_key [OF keysD(2) [OF sc]] by blast
  then have "find (\<lambda>j. inventory_product_id j = reservations_product_id r)
      (returned_inventory (db_now e) (reservations_product_id r) (reservations_quantity r) (inventory d))
      = Some (stock_more e (reservations_quantity r) i)" using i(2) by (simp add: stock_returned.find_update)
  with rel assms(2) show ?thesis by (auto simp: move_step_def begin_move_def move_return_stock_def move_to_def)
qed

text \<open>Then it needs the sale, and waits when another transaction has it.\<close>

lemma move_waits:
  assumes "cancellable d r x i" "u \<in> set rest" "w_sale (Txn_writes u) = Some y" "flash_sales_id y = reservations_sale_id r"
  shows "move_step d rest (moving e (reservations_id r) (StockReturned r) (returned_writes e r x i)) = None"
proof -
  let ?d3 = "overlay d (returned_writes e r x i)"
  have "flash_sales ?d3 = flash_sales d" by (simp add: overlay_def no_writes_def)
  moreover have "\<exists>s \<in> set (flash_sales d). flash_sales_id s = reservations_sale_id r"
    using assms(1) by (auto simp: cancellable_def good_def ledger_def tied_def)
  ultimately have "rows_where (\<lambda>s. flash_sales_id s = reservations_sale_id r) (flash_sales ?d3) \<noteq> 0"
    by (auto simp: rows_where_def filter_empty_conv)
  then have "sql_release_sale_stock (db_now e) ?d3 (reservations_sale_id r) (reservations_quantity r) \<noteq> Inr (d1, 0)" for d1
    by (simp add: sql_release_sale_stock_def update_flash_sales_Inr)
  with assms(2-4) show ?thesis
    by (auto simp: move_step_def begin_move_def move_return_sale_def split: sum.split)
qed


section \<open>Waiting for each other\<close>

abbreviation two :: "db \<Rightarrow> session \<Rightarrow> session \<Rightarrow> (db, session) world" where
  "two d a b \<equiv> \<lparr>committed = d, txns = [a, b], finish_order = []\<rparr>"

lemma turn_two:
  "session_step s H d [b] a = Some (d, a') \<Longrightarrow> session_result a' = None
     \<Longrightarrow> world_step (session_step s H) session_result session_crash (two d a b) (Turn 0) = two d a' b"
  "session_step s H d [a] b = Some (d, b') \<Longrightarrow> session_result b' = None
     \<Longrightarrow> world_step (session_step s H) session_result session_crash (two d a b) (Turn 1) = two d a b'"
  by (simp_all add: world_step_def others_def upt_rec)

lemma turns_wait:
  assumes "session_step s H d [b] a = None" "session_step s H d [a] b = None"
  shows "foldl (world_step (session_step s H) session_result session_crash) (two d a b) (map Turn is) = two d a b"
proof (induction "is")
  case (Cons i "is")
  have "world_step (session_step s H) session_result session_crash (two d a b) (Turn i) = two d a b"
    using assms by (cases "i = 0"; cases "i = 1") (simp_all add: world_step_def others_def upt_rec)
  with Cons show ?case by simp
qed simp

text \<open>Five statements of the buyer, and then four of the cancellation.\<close>

lemma booking_prefix:
  assumes g: "good d" and t: "t = begin_txn e sid request" and en: "allowed d t sale p" "Txn_units t \<le> flash_sales_remaining_stock sale"
  shows "foldl (world_step (session_step s H) session_result session_crash) (two d (Booking t) (Moving (begin_move e' rid target))) (replicate 5 (Turn 0))
    = two d (Booking (at_phase t (SaleTaken p) (held_sale t sale))) (Moving (begin_move e' rid target))"
proof -
  let ?b = "Moving (begin_move e' rid target)" and ?step = "world_step (session_step s H) session_result session_crash"
  have free: "Txn_writes (holder ?b) = no_writes" "advisory H (holder ?b) = None" by (simp_all add: begin_move_def advisory_def)
  have o: "opened d t sale p" "entered d t" using en(1) by (simp_all add: allowed_def opened_def)
  have start: "Txn_phase t = Begin" "Txn_writes t = no_writes" by (simp_all add: t begin_txn_def)
  let ?t1 = "at_phase t Claimed (held_key t)" and ?t2 = "at_phase t Locked (held_key t)"
    and ?t3 = "at_phase t (Opened (flash_sales_max_quantity_per_user sale) p) (held_key t)" and ?t4 = "at_phase t (Checked p) (held_key t)"
    and ?t5 = "at_phase t (SaleTaken p) (held_sale t sale)"
  have "?step (two d (Booking t) ?b) (Turn 0) = two d (Booking ?t1) ?b"
    by (rule turn_two(1)) (use booking_claims [OF o(2) start, of "[holder ?b]" s H] free in \<open>simp_all add: txn_result_def\<close>)
  moreover have "?step (two d (Booking ?t1) ?b) (Turn 0) = two d (Booking ?t2) ?b"
    by (rule turn_two(1)) (use booking_locks [of ?t1 "[holder ?b]" H s d] free in \<open>simp_all add: txn_result_def\<close>)
  moreover have "?step (two d (Booking ?t2) ?b) (Turn 0) = two d (Booking ?t3) ?b"
    by (rule turn_two(1)) (use booking_opens [of d ?t2 sale p s H "[holder ?b]"] o in \<open>simp_all add: txn_result_def\<close>)
  moreover have "?step (two d (Booking ?t3) ?b) (Turn 0) = two d (Booking ?t4) ?b"
    by (rule turn_two(1)) (use booking_checks [OF g, of ?t3 sale p s H "[holder ?b]"] en in \<open>simp_all add: txn_result_def\<close>)
  moreover have "?step (two d (Booking ?t4) ?b) (Turn 0) = two d (Booking ?t5) ?b"
    by (rule turn_two(1)) (use booking_takes_sale [OF g, of ?t4 sale p "[holder ?b]" s H] en free in \<open>simp_all add: txn_result_def\<close>)
  ultimately show ?thesis by (simp add: numeral_eq_Suc)
qed

lemma move_prefix:
  assumes c: "cancellable d r x i" and free: "w_reservation (Txn_writes u) = None" "w_order (Txn_writes u) = None" "w_stock (Txn_writes u) = None"
  shows "foldl (world_step (session_step s H) session_result session_crash) (two d (Booking u) (Moving (begin_move e (reservations_id r) ReservationCancelled)))
      (replicate 4 (Turn 1))
    = two d (Booking u) (Moving (moving e (reservations_id r) (StockReturned r) (returned_writes e r x i)))"
proof -
  let ?step = "world_step (session_step s H) session_result session_crash" and ?m = "moving e (reservations_id r)"
  have "?step (two d (Booking u) (Moving (begin_move e (reservations_id r) ReservationCancelled))) (Turn 1)
      = two d (Booking u) (Moving (?m (RowLocked r) (locked_writes r)))"
    by (rule turn_two(2)) (use move_locks [OF c, of "[u]" e] free in simp_all)
  moreover have "?step (two d (Booking u) (Moving (?m (RowLocked r) (locked_writes r)))) (Turn 1)
      = two d (Booking u) (Moving (?m (StateSet r) (locked_writes (cancelled_row e r))))"
    by (rule turn_two(2)) (use move_restates [OF c, of "[u]" e] in simp_all)
  moreover have "?step (two d (Booking u) (Moving (?m (StateSet r) (locked_writes (cancelled_row e r))))) (Turn 1)
      = two d (Booking u) (Moving (?m (OrderSet r) (ordered_writes e r x)))"
    by (rule turn_two(2)) (use move_reorders [OF c, of "[u]" e] free in simp_all)
  moreover have "?step (two d (Booking u) (Moving (?m (OrderSet r) (ordered_writes e r x)))) (Turn 1)
      = two d (Booking u) (Moving (?m (StockReturned r) (returned_writes e r x i)))"
    by (rule turn_two(2)) (use move_returns [OF c, of "[u]" e] free in simp_all)
  ultimately show ?thesis by (simp add: numeral_eq_Suc)
qed

text \<open>Now each needs the row the other has written.\<close>

lemma stuck:
  fixes s :: Store and H :: "string \<Rightarrow> int" and e e' :: env and request :: ReservationRequest
  assumes g: "good d" and r: "r \<in> set (reservations d)" "reservations_state r = ReservationPending" and t: "t = begin_txn e (reservations_sale_id r) request"
    and en: "entered d t" and v: "verdict e d (reservations_sale_id r) (Txn_user t) (Txn_units t) = None"
  obtains a b where "session_step s H d [b] a = None" "session_step s H d [a] b = None" "session_result a = None" "session_result b = None"
    "run_sessions s H d [Booking t, Moving (begin_move e' (reservations_id r) ReservationCancelled)] (replicate 5 (Turn 0) @ replicate 4 (Turn 1)) = two d a b"
proof -
  obtain sale p j where sale: "sql_sale_product d (reservations_sale_id r) = Some (sale, p)" "sale_open e sale" "products_active p"
      "user_units (reservations d) (reservations_sale_id r) (Txn_user t) + Txn_units t \<le> flash_sales_max_quantity_per_user sale"
      "Txn_units t \<le> flash_sales_remaining_stock sale"
    and j: "j \<in> set (inventory d)" "inventory_product_id j = products_id p" "Txn_units t \<le> inventory_available j"
    by (rule accepted [OF g v])
  have a: "allowed d t sale p" using en sale t by (simp add: allowed_def opened_def begin_txn_def)
  obtain x i where c: "cancellable d r x i" by (rule cancellable_rows [OF g r])
  note row = sale_product_Some [OF schema_good [OF g] sale(1)]
  have "tied d" using g by (simp add: good_def ledger_def)
  then obtain sale' where "sale' \<in> set (flash_sales d)" "flash_sales_id sale' = reservations_sale_id r" "flash_sales_product_id sale' = reservations_product_id r"
    using r(1) by (auto simp: tied_def)
  then have pid: "products_id p = reservations_product_id r"
    using row distinct_key_eq [OF keysD(3) [OF schema_good [OF g]], of sale' sale] by simp
  let ?u = "at_phase t (SaleTaken p) (held_sale t sale)"
    and ?m = "moving e' (reservations_id r) (StockReturned r) (returned_writes e' r x i)"
  have "txn_step s H d [holder (Moving ?m)] ?u = None"
    by (rule booking_waits [OF g, where sale = sale and p = p and i = j and j = "stock_more e' (reservations_quantity r) i" and u = "holder (Moving ?m)"])
      (use a sale(5) j c pid in \<open>auto simp: cancellable_def begin_move_def\<close>)
  moreover have "move_step d [?u] ?m = None"
    by (rule move_waits [OF c, where u = ?u and y = "sale_less t sale"]) (use row(2) in auto)
  moreover have "run_sessions s H d [Booking t, Moving (begin_move e' (reservations_id r) ReservationCancelled)] (replicate 5 (Turn 0) @ replicate 4 (Turn 1))
      = two d (Booking ?u) (Moving ?m)"
    unfolding run_sessions_def run_world_def foldl_append booking_prefix [OF g t a sale(5)] by (rule move_prefix [OF c]) simp_all
  ultimately show thesis by (intro that [of "Moving ?m" "Booking ?u"]) (simp_all add: txn_result_def begin_move_def)
qed


section \<open>A cancellation on its own\<close>

text \<open>Without others the statements amount to \<open>TransitionReservation\<close>.\<close>

abbreviation sale_more :: "env \<Rightarrow> int \<Rightarrow> flash_sales_row \<Rightarrow> flash_sales_row" where
  "sale_more e q y \<equiv> y\<lparr>flash_sales_remaining_stock := flash_sales_remaining_stock y + q, flash_sales_updated_at := db_now e\<rparr>"

abbreviation released_writes :: "env \<Rightarrow> reservations_row \<Rightarrow> orders_row \<Rightarrow> inventory_row \<Rightarrow> flash_sales_row \<Rightarrow> writes" where
  "released_writes e r x i y \<equiv> (returned_writes e r x i)\<lparr>w_sale := Some (sale_more e (reservations_quantity r) y)\<rparr>"

interpretation sale_returned: keyed_update flash_sales_id
  "\<lambda>y. y\<lparr>flash_sales_remaining_stock := flash_sales_remaining_stock y + q, flash_sales_updated_at := t\<rparr>" for q t
  by unfold_locales simp

lemma put_returned:
  assumes "cancellable d r x i"
  shows "put inventory_product_id (Some (stock_more e (reservations_quantity r) i)) (inventory d)
    = returned_inventory (db_now e) (reservations_product_id r) (reservations_quantity r) (inventory d)"
  by (rule put_version [where f = "stock_more e (reservations_quantity r)"])
    (use assms keysD(2) [OF schema_good, of d] in \<open>simp_all add: cancellable_def\<close>)

lemma put_released:
  assumes "schema_ok d" "y \<in> set (flash_sales d)" "flash_sales_id y = sid"
  shows "put flash_sales_id (Some (sale_more e q y)) (flash_sales d) = returned_sales (db_now e) sid q (flash_sales d)"
  by (rule put_version [where f = "sale_more e q"]) (use assms keysD(3) in simp_all)

lemma view_returned:
  assumes "cancellable d r x i"
  shows "overlay d (returned_writes e r x i) = (overlay d (ordered_writes e r x))
    \<lparr>inventory := returned_inventory (db_now e) (reservations_product_id r) (reservations_quantity r) (inventory d)\<rparr>"
  using put_returned [OF assms] by (simp add: overlay_def no_writes_def)

lemma view_released:
  assumes "cancellable d r x i" "y \<in> set (flash_sales d)" "flash_sales_id y = reservations_sale_id r"
  shows "overlay d (released_writes e r x i y) = (overlay d (returned_writes e r x i))
    \<lparr>flash_sales := returned_sales (db_now e) (reservations_sale_id r) (reservations_quantity r) (flash_sales d)\<rparr>"
  using put_released [OF schema_good assms(2,3)] assms(1) by (simp add: overlay_def no_writes_def cancellable_def)

lemma view_logged:
  assumes c: "cancellable d r x i" and y: "y \<in> set (flash_sales d)" "flash_sales_id y = reservations_sale_id r"
    and v: "domain_events_id (moved_event e eid r ReservationCancelled) \<notin> domain_events_id ` set (domain_events d)"
  shows "overlay d ((released_writes e r x i y)\<lparr>w_event := Some (moved_event e eid r ReservationCancelled)\<rparr>) = moved_db e d eid r ReservationCancelled"
proof -
  have "overlay d (w\<lparr>w_event := Some z\<rparr>) = (overlay d w)\<lparr>domain_events := domain_events d @ [z]\<rparr>"
    if "w_event w = None" "domain_events_id z \<notin> domain_events_id ` set (domain_events d)" for w z
    using that by (simp add: overlay_def put_new)
  from this [OF _ v, of "released_writes e r x i y"] show ?thesis
    by (simp add: view_released [OF c y] view_returned [OF c] view_ordered [OF c])
qed

lemma move_releases:
  assumes c: "cancellable d r x i" and y: "y \<in> set (flash_sales d)" "flash_sales_id y = reservations_sale_id r"
  shows "move_step d [] (moving e (reservations_id r) (StockReturned r) (returned_writes e r x i))
    = Some (d, moving e (reservations_id r) (SaleReturned r) (released_writes e r x i y))"
proof -
  have g: "good d" "r \<in> set (reservations d)" "reservations_state r = ReservationPending" using c by (simp_all add: cancellable_def)
  have l: "ledger [] [] [] [] d" using g(1) by (simp add: good_def)
  note sc = ledgerD(1) [OF l]
  have "ledger [r] [r] [] [] (overlay d (ordered_writes e r x))"
    using cancel_ledger [OF l g(2,3), of "db_now e"] by (simp add: view_ordered [OF c])
  moreover have "0 \<le> reservations_quantity r" "reservations_product_id r \<in> products_id ` set (products (overlay d (ordered_writes e r x)))"
    using schema_qty [OF sc g(2)] refsD(4) [OF sc g(2)] by (simp_all add: view_ordered [OF c])
  ultimately obtain n where rel: "sql_release_sale_stock (db_now e) (overlay d (returned_writes e r x i)) (reservations_sale_id r) (reservations_quantity r)
      = Inr (overlay d (released_writes e r x i y), n)"
    using release_both(2) [of r "[]" "[]" "[]" "[]" "overlay d (ordered_writes e r x)" "db_now e"]
    by (auto simp: view_released [OF c y] view_returned [OF c] view_ordered [OF c])
  then have "n = rows_where (\<lambda>s. flash_sales_id s = reservations_sale_id r) (flash_sales d)"
    by (simp add: sql_release_sale_stock_def update_flash_sales_Inr view_returned [OF c] view_ordered [OF c])
  then have "n \<noteq> 0" using y by (auto simp: rows_where_def filter_empty_conv)
  moreover have "find (\<lambda>s. flash_sales_id s = reservations_sale_id r) (flash_sales d) = Some y"
    using y find_Some_iff_key [OF keysD(3) [OF sc]] by blast
  then have "find (\<lambda>s. flash_sales_id s = reservations_sale_id r) (flash_sales (overlay d (released_writes e r x i y))) = Some (sale_more e (reservations_quantity r) y)"
    using y(2) by (simp add: view_released [OF c y] sale_returned.find_update)
  ultimately show ?thesis using rel by (simp add: move_step_def begin_move_def move_return_sale_def move_to_def)
qed

lemma move_logs:
  assumes c: "cancellable d r x i" and y: "y \<in> set (flash_sales d)" "flash_sales_id y = reservations_sale_id r"
    and e: "env_ok e" and eid: "the_id e 0 \<notin> domain_events_id ` set (domain_events d)"
  shows "move_step d [] (moving e (reservations_id r) (SaleReturned r) (released_writes e r x i y))
    = Some (d, moving e (reservations_id r) MoveLogged ((released_writes e r x i y)\<lparr>w_event := Some (moved_event e (the_id e 0) r ReservationCancelled)\<rparr>))"
proof -
  have ok: "fault e n = NoFault" for n using e by (simp add: env_ok_def)
  have "domain_events (overlay d (released_writes e r x i y)) = domain_events d" by (simp add: overlay_def no_writes_def)
  then have "event e 6 0 (overlay d (released_writes e r x i y)) ''reservation'' (reservations_id r)
      (''reservation.'' @ ReservationState_string ReservationCancelled) (ReservationState_string (reservations_state r))
      (ReservationState_string ReservationCancelled) MetaNull
    = Inr ((overlay d (released_writes e r x i y))\<lparr>domain_events := domain_events d @ [moved_event e (the_id e 0) r ReservationCancelled]\<rparr>)"
    using ok eid env_ok_fresh [OF e, of 0] by (simp add: event_Inr)
  then show ?thesis by (simp add: move_step_def begin_move_def move_event_def move_to_def)
qed

abbreviation one :: "db \<Rightarrow> move \<Rightarrow> (db, session) world" where
  "one d m \<equiv> \<lparr>committed = d, txns = [Moving m], finish_order = []\<rparr>"

lemma turn_one:
  assumes "move_step d [] m = Some (d', m')"
  shows "session_result (Moving m') = None \<Longrightarrow> world_step (session_step s H) session_result session_crash (one d m) (Turn 0) = one d' m'"
    "session_result (Moving m') = Some res \<Longrightarrow> world_step (session_step s H) session_result session_crash (one d m) (Turn 0)
      = \<lparr>committed = d', txns = [Moving m'], finish_order = [0]\<rparr>"
  using assms by (simp_all add: world_step_def others_def)

lemma moving_quiet:
  "session_result (Moving (moving e rid (RowLocked r) w)) = None" "session_result (Moving (moving e rid (StateSet r) w)) = None"
  "session_result (Moving (moving e rid (OrderSet r) w)) = None" "session_result (Moving (moving e rid (StockReturned r) w)) = None"
  "session_result (Moving (moving e rid (SaleReturned r) w)) = None" "session_result (Moving (moving e rid MoveLogged w)) = None"
  "session_result (Moving (moving e rid MoveCommitted w)) = None" "session_result (Moving (moving e rid (Moved res) w)) = Some (Inr res)"
  by (simp_all add: begin_move_def)

lemma move_alone:
  assumes g: "good d" and r: "r \<in> set (reservations d)" "reservations_state r = ReservationPending"
    and e: "env_ok e" and eid: "the_id e 0 \<notin> domain_events_id ` set (domain_events d)"
  shows "\<exists>res. TransitionReservation e d (reservations_id r) ReservationCancelled = (Inr res, moved_db e d (the_id e 0) r ReservationCancelled)
    \<and> committed (run_sessions s H d [Moving (begin_move e (reservations_id r) ReservationCancelled)] (replicate 8 (Turn 0)))
        = moved_db e d (the_id e 0) r ReservationCancelled
    \<and> map session_result (txns (run_sessions s H d [Moving (begin_move e (reservations_id r) ReservationCancelled)] (replicate 8 (Turn 0)))) = [Some (Inr (Inr res))]"
proof -
  obtain x i where c: "cancellable d r x i" by (rule cancellable_rows [OF g r])
  have "tied d" using g by (simp add: good_def ledger_def)
  then obtain y where y: "y \<in> set (flash_sales d)" "flash_sales_id y = reservations_sale_id r" using r(1) by (auto simp: tied_def)
  obtain oid where tr: "TransitionReservation e d (reservations_id r) ReservationCancelled
      = (Inr (reservation_of_row oid (cancelled_row e r)), moved_db e d (the_id e 0) r ReservationCancelled)"
    using Transition_ok [OF g e r _ eid, of ReservationCancelled] by auto
  then have read: "GetReservation e 8 (moved_db e d (the_id e 0) r ReservationCancelled) (reservations_id r) = Inr (reservation_of_row oid (cancelled_row e r))"
    using Transition_commits [OF g e r _ eid, of ReservationCancelled] by simp
  let ?d' = "moved_db e d (the_id e 0) r ReservationCancelled" and ?m = "moving e (reservations_id r)"
    and ?w = "(released_writes e r x i y)\<lparr>w_event := Some (moved_event e (the_id e 0) r ReservationCancelled)\<rparr>"
  have committing: "move_step d [] (?m MoveLogged ?w) = Some (?d', ?m MoveCommitted no_writes)"
    using view_logged [OF c y, where e = e and eid = "the_id e 0"] eid by (simp add: move_step_def begin_move_def move_to_def)
  have reading: "move_step ?d' [] (?m MoveCommitted no_writes) = Some (?d', ?m (Moved (Inr (reservation_of_row oid (cancelled_row e r)))) no_writes)"
    using read by (simp add: move_step_def begin_move_def move_to_def)
  have nobody: "P" if "u \<in> set ([] :: txn list)" for u P using that by simp
  note turns = turn_one(1) [OF move_locks [OF c nobody] moving_quiet(1)] turn_one(1) [OF move_restates [OF c] moving_quiet(2)]
    turn_one(1) [OF move_reorders [OF c nobody] moving_quiet(3)] turn_one(1) [OF move_returns [OF c nobody] moving_quiet(4)]
    turn_one(1) [OF move_releases [OF c y] moving_quiet(5)] turn_one(1) [OF move_logs [OF c y e eid] moving_quiet(6)]
    turn_one(1) [OF committing moving_quiet(7)] turn_one(2) [OF reading moving_quiet(8)]
  have eight: "replicate 8 (Turn 0) = [Turn 0, Turn 0, Turn 0, Turn 0, Turn 0, Turn 0, Turn 0, Turn 0]" by (simp add: numeral_eq_Suc)
  have "run_sessions s H d [Moving (begin_move e (reservations_id r) ReservationCancelled)] (replicate 8 (Turn 0))
      = \<lparr>committed = ?d', txns = [Moving (?m (Moved (Inr (reservation_of_row oid (cancelled_row e r)))) no_writes)], finish_order = [0]\<rparr>"
    unfolding run_sessions_def run_world_def eight foldl.simps by (simp only: turns)
  then show ?thesis using tr by (simp only: world.simps list.map moving_quiet) blast
qed

end
