(* ===== verification/Spec2Isabelle.thy ===== *)
theory Spec2Isabelle
  imports Walkthrough PublicDemo Guardrails Serial Contention
begin

text \<open>
  \<^bold>\<open>StockRush Go\<close>: a flash-sale backend that must not sell a unit it does not have.

  \<^bold>\<open>The program.\<close> A product has an inventory (available, reserved, sold) and flash sales with an allocation. A buyer reserves units under an
  idempotency key; a reservation is pending, then confirmed and paid, or cancelled, or expired by a background worker, which returns its units. The store (\<open>src/internal/store\<close>)
  does all of it in PostgreSQL transactions; an HTTP server (\<open>src/internal/httpserver\<close>) with authentication, origin checks and a rate limiter calls it, and so do the
  worker and the command line programs under \<open>src/cmd\<close>.

  \<^bold>\<open>The model.\<close> Theories in the order in which they build on one another:

  \<^item> \<open>Prelude\<close>: 64-bit wrap-around, trimming, case mapping, printing, tables as lists of rows with UPDATE and aggregates, the locale \<open>keyed_update\<close>.
    \<open>GoLib\<close>: the parsers of \<open>strconv\<close>, \<open>strings\<close>, \<open>encoding/hex\<close> and \<open>time\<close> that the program calls, with their round trips.
  \<^item> \<open>Domain\<close>: \<open>src/internal/domain/domain.go\<close>, states, transitions, errors, identifiers. \<open>Schema\<close>: the tables of \<open>src/db/migrations\<close> with their
    keys, foreign keys and checks; every INSERT and UPDATE of the model is refused where PostgreSQL refuses it. \<open>Store\<close>: the transaction frame of \<open>store.go\<close>.
  \<^item> \<open>Reservation\<close>, \<open>Payment\<close>, \<open>Expiration\<close>, \<open>Catalog\<close> (also \<open>orders.go\<close>), \<open>Invariants\<close>, \<open>Demo\<close>: one definition per function of the files of the
    same name under \<open>src/internal/store\<close>, with one definition per SQL statement. \<open>Stock\<close> and \<open>Booking\<close> hold the invariant of the tables and its preservation by the statements.
  \<^item> \<open>System\<close>: any sequence of store calls as a step relation, with \<open>reachable\<close> databases and the locale \<open>transaction\<close>, interpreted for every operation.
    \<open>History\<close>, \<open>Idempotency\<close>: how reservations move and which answers are kept over histories, with the locale of an idempotent endpoint. \<open>ReserveEffect\<close>, \<open>MoveEffect\<close>,
    \<open>FlashSale\<close>, \<open>PublicDemo\<close>: what each operation does when nothing fails, the specification \<open>verdict\<close> of a reservation request, and a rush of buyers.
  \<^item> \<open>Concurrent\<close>: \<open>Reserve\<close> once more, statement by statement, for calls that run at the same time, with private row versions, row locks, waiting INSERTs and the advisory lock.
    \<open>Interleave\<close>: schedules, and the locales \<open>serialisable\<close> and \<open>progressing\<close>. \<open>Statements\<close>, \<open>Serial\<close>: what each statement establishes and each commit leaves
    to the others, and the interpretation of both locales. \<open>Contention\<close>: \<open>TransitionReservation\<close> statement by statement, beside \<open>Reserve\<close>.
  \<^item> \<open>RateLimit\<close> (\<open>src/internal/ratelimit\<close>), \<open>Metrics\<close> (\<open>src/internal/metrics\<close>), \<open>Worker\<close> (\<open>src/internal/expirationworker\<close>), \<open>Config\<close>
    (\<open>src/internal/config\<close>), \<open>Database\<close> (\<open>src/internal/database\<close>): one theory per package. The locale \<open>metered\<close> bounds what a metered service hands out over time.
  \<^item> \<open>Http\<close> and \<open>DemoHttp\<close> (\<open>src/internal/httpserver\<close>): every handler, every middleware, the route table and the assembled server. \<open>Service\<close>: the locale
    \<open>middleware\<close>, interpreted for the whole chain, reduces a request to store calls; histories of requests and worker ticks. \<open>LoadTest\<close>: the load test handler.
  \<^item> \<open>Loadgen\<close>, \<open>LoadReport\<close>, \<open>Commands\<close>, \<open>Guardrails\<close>: the programs under \<open>src/cmd\<close>. \<open>Scenario\<close> and \<open>Walkthrough\<close>: concrete runs, on which the hypotheses of the properties are discharged.

  \<^bold>\<open>State and effects.\<close> The database is a record of tables. A store operation takes an environment and a database and returns a result and a
  database. The environment holds the two clocks, the random bytes, the hash function, the rows other transactions have locked (for SKIP LOCKED), and for every round trip of the
  call, numbered in program order, whether it succeeds, fails, or is applied although its acknowledgement is lost. A failing round trip before COMMIT rolls back; a COMMIT can fail either way. So every error path of the code is
  a branch of the model, and the theorems on reachable databases hold for every pattern of faults. Transactions are atomic steps, in the order in which they commit. For
  \<open>Reserve\<close>, whose concurrency is what the program is about, C8 shows that this loses nothing: any interleaving of its statements is equivalent to such an order. The other operations lock the rows they decide
  about first (FOR UPDATE, SKIP LOCKED, unique keys) and are modelled as atomic, \<open>TransitionReservation\<close> in both ways: C38 shows that a cancellation and a reservation can come to wait for each other. PostgreSQL then aborts one of
  them, which is a failing round trip of the atomic model.

  \<^bold>\<open>Parameters.\<close> Code outside the repository is an argument: SHA-256 (no property is assumed of it), the URL, prefix, address and media-type parsers, the driver's connection string parser, the
  effect of a migration script, the file system and text of times, floats and JSON in the load generator's report, and the system clock. Assumptions about them appear as named hypotheses (\<open>keeps_versions\<close>, \<open>keeps_reachable\<close>); the fresh identifiers that
  operations need to succeed are hypotheses too (\<open>fresh_ids\<close>, \<open>payment_ids\<close>, \<open>batch_ids\<close>), since random bytes may collide; a collision violates a primary key and is a branch of the model.

  \<^bold>\<open>What is shown.\<close> C1 to C6: the invariants of every reachable database (the self-check passes, stock is conserved, no sale is oversold, no buyer exceeds the limit, reservations and orders
  agree, states only move forward). C7: reserving, against its specification. C8 to C10: many buyers at once. C11 to C15: retries, conflicts, lost acknowledgements and faults. C16 to C22: confirming, cancelling, paying
  and expiring. C23: the public demo. C24 to C28: the server, the load test and the programs. C29 to C32: the limiter, the worker and the migrations. C33 to C35: the configuration. C36 to C38: what the code gets wrong when counters, amounts or locks collide. C39 and C40: identifiers and the guardrails.

  \<^bold>\<open>Bounds and termination.\<close> Every definition is total; there is no fuel. Loops of the program run over finite lists (rows, files, attempts, ticks). The only loops
  the program means to run forever, the worker's and the server's, are runs over a finite list of events, and C31 says how many ticks are enough; C9 says how many turns are enough for calls that wait for each other. Instants are microseconds in the store, as in the columns, and nanoseconds in the limiter and the configuration. Quantities are
  checked against the 32-bit columns, amounts wrap at 64 bits (C37), pool sizes at 32 (C35).

  \<^bold>\<open>Not modelled.\<close> The JSON encoding of bodies and responses (a decoded body is an option per input type, a response is a value); the router library and HTTP transport; HTML and OpenAPI text; log lines and panics;
  float64 rounding (percentiles and token counts are exact); Unicode case mapping beyond ASCII; the order of rows that ORDER BY leaves open (the
  model keeps insertion order); interleavings of the statements of transactions other than \<open>Reserve\<close> and \<open>TransitionReservation\<close>, serialisability of the latter, and timeouts other than as failing round trips or lost clients; the front end under \<open>src/web\<close>.
\<close>

section \<open>Whatever happens to the database\<close>

text \<open>
  C1. In every database the store can reach, from an empty one, by any sequence of calls with any clock, any random
  bytes and any pattern of failing round trips, the self-check reports no violation.
\<close>

theorem self_check_passes:
  assumes "reachable s d" and "fault e 0 = NoFault"
  shows "CheckInvariants e d = Inr []"
  using good_passes [OF reachable_good [OF assms(1)], of e] assms(2) by simp

theorem self_check_passes_witness:
  "CheckInvariants (demo_env 9 9000) paid_db = Inr [] \<and> length (payments paid_db) = 1"
  using self_check_passes [OF paid_db_reachable, of "demo_env 9 9000"] demo_pay(3) by simp

text \<open>
  C2. Conservation of stock: a product's reserved counter is the number of units in its pending and confirmed reservations,
  its sold counter the number of units in its paid ones, nothing is negative, and together with what
  is available they make up the expected total.
\<close>

theorem stock_conserved:
  assumes "reachable s d" and "i \<in> set (inventory d)"
  shows "inventory_reserved i = held_units (reservations d) (inventory_product_id i)
    \<and> inventory_sold i = paid_units (reservations d) (inventory_product_id i)
    \<and> 0 \<le> inventory_available i
    \<and> inventory_available i + inventory_reserved i + inventory_sold i = inventory_expected_total i"
proof -
  have l: "ledger [] [] [] [] d" using reachable_good [OF assms(1)] by (simp add: good_def)
  show ?thesis
    using ledgerD(4) [OF l] inventory_checkD [OF ledgerD(1) [OF l] assms(2)] assms(2)
    by (auto simp: balanced_def inventory_check_def)
qed

theorem stock_conserved_witness:
  "\<exists>i \<in> set (inventory paid_db). inventory_sold i = paid_units (reservations paid_db) (inventory_product_id i)
     \<and> inventory_available i + inventory_reserved i + inventory_sold i = inventory_expected_total i"
proof -
  have "inventory paid_db \<noteq> []" using demo_counters(3) by auto
  then obtain i where "i \<in> set (inventory paid_db)" by (cases "inventory paid_db") auto
  then show ?thesis using stock_conserved [OF paid_db_reachable] by blast
qed

text \<open>
  C3. A flash sale never gives out more than it was allocated: the units of its pending, confirmed and paid reservations and
  its remaining stock together never exceed the allocation, and the remaining stock is never negative.
\<close>

theorem no_oversell:
  assumes "reachable s d" and "sale \<in> set (flash_sales d)"
  shows "active_units (reservations d) (flash_sales_id sale) + flash_sales_remaining_stock sale \<le> flash_sales_allocated_stock sale
    \<and> 0 \<le> flash_sales_remaining_stock sale"
proof -
  have l: "ledger [] [] [] [] d" using reachable_good [OF assms(1)] by (simp add: good_def)
  show ?thesis
    using ledgerD(5) [OF l] flash_sales_checkD [OF ledgerD(1) [OF l] assms(2)] assms(2)
    by (auto simp: allocated_def flash_sales_check_def)
qed

theorem no_oversell_witness:
  "\<exists>sale \<in> set (flash_sales demo_db). flash_sales_allocated_stock sale = 1 \<and>
     active_units (reservations demo_db) (flash_sales_id sale) + flash_sales_remaining_stock sale \<le> 1"
  using no_oversell [OF demo_db_reachable, of "demo_sale (demo_env 0 1000) (demo_id 0 1) (demo_id 0 0) 1"]
  by (simp add: demo_sale_def)

text \<open>
  C4. No buyer ever holds more units of a sale, over all pending, confirmed and paid reservations, than the sale's per-user limit.
\<close>

theorem user_limit_kept:
  assumes "reachable s d" and "sale \<in> set (flash_sales d)"
  shows "user_units (reservations d) (flash_sales_id sale) u \<le> flash_sales_max_quantity_per_user sale"
proof -
  have "limited d" using reachable_good [OF assms(1)] by (simp add: good_def ledger_def)
  then show ?thesis using assms(2) by (simp add: limited_def)
qed

theorem user_limit_kept_witness:
  "\<exists>sale \<in> set (flash_sales demo_db). user_units (reservations demo_db) (flash_sales_id sale) ''alice'' \<le> 1"
  using user_limit_kept [OF demo_db_reachable, of "demo_sale (demo_env 0 1000) (demo_id 0 1) (demo_id 0 0) 1" "''alice''"]
  by (simp add: demo_sale_def)

text \<open>
  C5. Every reservation has exactly one order; it names the same sale, product, buyer and quantity, and its state is the one that
  belongs to the reservation's state, or payment_failed while the reservation is still pending or confirmed.
\<close>

theorem one_order_each:
  assumes "reachable s d" and "r \<in> set (reservations d)"
  shows "\<exists>x \<in> set (orders d). order_agrees r x \<and> order_follows (reservations_state r) (orders_state x)
    \<and> (\<forall>y \<in> set (orders d). orders_reservation_id y = reservations_id r \<longrightarrow> y = x)"
proof -
  have l: "ledger [] [] [] [] d" using reachable_good [OF assms(1)] by (simp add: good_def)
  obtain x where x: "x \<in> set (orders d)" "order_agrees r x"
    using ledgerD(7) [OF l] assms(2) by (auto simp: ordered_def)
  then have "order_follows (reservations_state r) (orders_state x)"
    using ledgerD(8) [OF l] assms(2) by (auto simp: followed_def order_agrees_def)
  moreover have "y = x" if "y \<in> set (orders d)" "orders_reservation_id y = reservations_id r" for y
    using distinct_key_eq [OF keysD(6) [OF ledgerD(1) [OF l]] that(1) x(1)] that(2) x(2) by (simp add: order_agrees_def)
  ultimately show ?thesis using x by blast
qed

theorem one_order_each_witness:
  "\<exists>r \<in> set (reservations confirmed_db). \<exists>x \<in> set (orders confirmed_db). order_agrees r x"
  using one_order_each [OF confirmed_db_reachable, of confirmed_row] by auto

text \<open>
  C6. The life of a reservation: over any history of calls that does not wipe the tables, a reservation keeps its
  identifier, sale, product, buyer, quantity and expiry, and its state only moves forward along pending - confirmed - paid,
  pending - cancelled or pending - expired; a paid, cancelled or expired reservation never changes again.
\<close>

theorem life_of_reservation:
  assumes "reachable s d" and "runs (step s) d cs d'" and "list_all (\<lambda>c. \<not> wipes c) cs" and "r \<in> set (reservations d)"
  shows "\<exists>r' \<in> set (reservations d'). same_booking r r' \<and> lifecycle\<^sup>*\<^sup>* (reservations_state r) (reservations_state r')
    \<and> (terminal (reservations_state r) \<longrightarrow> reservations_state r' = reservations_state r)"
proof -
  have "moves (reservations d) (reservations d')"
    using movement.rel_runs [OF assms(2) reachable_good [OF assms(1)] assms(3)] by blast
  then show ?thesis using assms(4) terminal_closed unfolding moves_def by metis
qed

theorem life_of_reservation_witness:
  "\<exists>r' \<in> set (reservations paid_db). same_booking alice_row r' \<and> lifecycle\<^sup>*\<^sup>* ReservationPending (reservations_state r')"
  using life_of_reservation [OF booked_db_reachable demo_runs, of alice_row] by auto

section \<open>Reserving\<close>

text \<open>
  C7. What Reserve answers, on every branch. For a valid request under a new key, when every round trip succeeds
  and the identifiers are fresh, the outcome is the one the specification \<open>verdict\<close> gives: a stored refusal
  (sale not found, sale not active, product inactive, limit exceeded, sold out) or the booking, which takes the units from both
  counters, adds the reservation, its order, the event and the stored response, and changes nothing else.
\<close>

theorem reserve_meets_spec:
  assumes "good d" and "all_ok e" and "fresh_ids e d rid oid eid"
    and "u = TrimSpace (Request_UserID request)" "key = TrimSpace (Request_IdempotencyKey request)" "q = Request_Quantity request"
    and "\<not> request_invalid saleID u q key" "1 \<le> char_length u"
    and "key \<notin> idempotency_keys_key ` set (idempotency_keys d)"
    and "\<forall>sale p. sql_sale_product d saleID = Some (sale, p) \<longrightarrow> 0 \<le> wrap64 (products_price_minor p * q)"
  shows "Reserve s e d saleID request = (case verdict e d saleID u q of
      Some de \<Rightarrow> (Inl (DomainError de), after_refusal e d saleID u q key de)
    | None \<Rightarrow> (case sql_sale_product d saleID of Some (sale, p) \<Rightarrow>
        (Inr (reserved_result s e saleID u q p rid oid), booked s e d saleID u q key p rid oid eid)))"
proof (cases "verdict e d saleID u q")
  case None
  then obtain sale p where sp: "sql_sale_product d saleID = Some (sale, p)"
    by (auto simp: verdict_def split: option.splits)
  have "Reserve s e d saleID request = (Inr (reserved_result s e saleID u q p rid oid), booked s e d saleID u q key p rid oid eid)"
    by (rule Reserve_accepted [OF assms(1-9) sp None]) (use assms(10) sp in blast)
  then show ?thesis by (simp add: None sp)
next
  case (Some de)
  show ?thesis using Reserve_refused [OF assms(1,2,4-7,9) Some] by (simp add: Some)
qed

theorem reserve_meets_spec_witness:
  "fst (Reserve demo_store (demo_env 1 2000) demo_db (demo_id 0 1) alice) = Inr alice_result"
proof -
  have "Reserve demo_store (demo_env 1 2000) demo_db (demo_id 0 1) alice = (case verdict (demo_env 1 2000) demo_db (demo_id 0 1) ''alice'' 1 of
      Some de \<Rightarrow> (Inl (DomainError de), after_refusal (demo_env 1 2000) demo_db (demo_id 0 1) ''alice'' 1 ''key-1'' de)
    | None \<Rightarrow> (case sql_sale_product demo_db (demo_id 0 1) of Some (sale, p) \<Rightarrow>
        (Inr (reserved_result demo_store (demo_env 1 2000) (demo_id 0 1) ''alice'' 1 p (demo_id 1 0) (demo_id 1 1)),
         booked demo_store (demo_env 1 2000) demo_db (demo_id 0 1) ''alice'' 1 ''key-1'' p (demo_id 1 0) (demo_id 1 1) (demo_id 1 2))))"
    by (rule reserve_meets_spec [OF demo_db_good demo_env_ok(2) demo_fresh])
      (simp_all add: demo_valid demo_sale_product demo_product_def wrap64_def)
  then show ?thesis by (simp add: demo_verdict demo_sale_product)
qed



text \<open>
  C9. No deadlock: however the calls wait for each other's keys, rows and advisory locks, and whatever collisions the lock numbers have, if every call keeps getting a turn then
  after at most eleven rounds per call every call has come to a result, unless its client was lost.
\<close>

theorem reserve_completes:
  assumes "reachable s d" and "\<forall>(e, saleID, request) \<in> set cs. all_ok e"
    and "\<forall>r \<in> set rounds. \<forall>i < length cs. Turn i \<in> set r" and "11 * length cs \<le> length rounds" and "i < length cs"
  shows "txn_result (txns (run_calls s H d (begin_all cs) (concat rounds)) ! i) \<noteq> None \<or> Crash i \<in> set (concat rounds)"
  by (rule calls_end [OF reachable_good [OF assms(1)] assms(2-5)])

theorem reserve_completes_witness:
  "txn_result (txns (run_calls demo_store (\<lambda>k. 0) demo_db (begin_all [(demo_env 1 2000, demo_id 0 1, alice), (demo_env 2 2500, demo_id 0 1, bob)])
     (concat (replicate 22 [Turn 1, Turn 0]))) ! 1) \<noteq> None"
proof -
  have "\<forall>i < length [(demo_env 1 2000, demo_id 0 1, alice), (demo_env 2 2500, demo_id 0 1, bob)]. Turn i \<in> set [Turn 1, Turn 0]"
    by (simp add: less_Suc_eq)
  then show ?thesis
    using reserve_completes [OF demo_db_reachable, of "[(demo_env 1 2000, demo_id 0 1, alice), (demo_env 2 2500, demo_id 0 1, bob)]"
        "replicate 22 [Turn 1, Turn 0]" 1 "\<lambda>k. 0"]
    by simp
qed

text \<open>
  C10. The flash sale sells exactly its stock, to everybody at once. After the demo is reset to \<open>n\<close> units, any number of different buyers ask for one unit
  each at the same time, their statements interleaved in any way in which everybody keeps getting a turn. Everybody gets an answer, exactly \<open>min n (length bs)\<close>
  get a reservation, the first to commit, and all others are refused with INVENTORY_SOLD_OUT.
\<close>

theorem flash_sale_exact:
  assumes "env_ok e" and "1 \<le> n" "n \<le> 100000"
    and "buyers_ok (snd (ResetDemo e b d n)) (the_id e 1) (go_now e) (go_now e + 365 * 24 * 3600 * 1000000) bs"
    and "\<forall>r \<in> set rounds. \<forall>i < length bs. Turn i \<in> set r" and "11 * length bs \<le> length rounds" and "\<forall>i. Crash i \<notin> set (concat rounds)"
    and "W = run_calls s H (snd (ResetDemo e b d n)) (begin_all (buyers (the_id e 1) bs)) (concat rounds)"
  shows "\<exists>xs. length xs = min (nat n) (length bs) \<and> distinct (finish_order W) \<and> set (finish_order W) = {..<length bs}
    \<and> map (\<lambda>i. txn_result (txns W ! i)) (finish_order W)
      = map (\<lambda>x. Some (Inr x)) xs @ replicate (length bs - nat n) (Some (Inl (DomainError allocation_sold_out)))"
proof -
  have eq: "snd (ResetDemo e b d n) = demo_data e n" using ResetDemo_ok [OF assms(1-3)] by simp
  have "good (demo_data e n)" using ResetDemo_good [OF good_empty, of e b n] ResetDemo_ok [OF assms(1-3), of b empty_db] by simp
  moreover have "on_sale (demo_data e n) (the_id e 1) (go_now e) (go_now e + 365 * 24 * 3600 * 1000000) (nat n)"
    using demo_data_on_sale [of n e] assms(2) by simp
  ultimately show ?thesis using rush_at_once [OF _ _ assms(4)] assms(5-7) unfolding assms(8) eq by blast
qed

theorem flash_sale_exact_witness:
  "\<exists>W x i j. W = run_calls demo_store (\<lambda>k. int (length k)) demo_db
       (begin_all (buyers (demo_id 0 1) [(demo_env 1 2000, alice), (demo_env 2 2500, bob)])) (concat (replicate 22 [Turn 1, Turn 0]))
     \<and> {i, j} = {0, 1} \<and> txn_result (txns W ! i) = Some (Inr x) \<and> txn_result (txns W ! j) = Some (Inl (DomainError allocation_sold_out))"
proof -
  let ?bs = "[(demo_env 1 2000, alice), (demo_env 2 2500, bob)]"
  let ?rounds = "replicate 22 [Turn 1, Turn 0]"
  define W where "W = run_calls demo_store (\<lambda>k. int (length k)) demo_db (begin_all (buyers (demo_id 0 1) ?bs)) (concat ?rounds)"
  have db: "snd (ResetDemo (demo_env 0 1000) 0 empty_db 1) = demo_db" "the_id (demo_env 0 1000) 1 = demo_id 0 1" by (simp_all add: demo_db_def)
  have ok: "buyers_ok demo_db (demo_id 0 1) (go_now (demo_env 0 1000)) (go_now (demo_env 0 1000) + 365 * 24 * 3600 * 1000000) ?bs"
    by (simp add: buyers_ok_def buyer_ok_def demo_valid user_units_def)
  have n: "(1 :: int) \<le> 1" "(1 :: int) \<le> 100000" by simp_all
  have turns: "\<forall>r \<in> set ?rounds. \<forall>i < length ?bs. Turn i \<in> set r" "11 * length ?bs \<le> length ?rounds" "\<forall>i. Crash i \<notin> set (concat ?rounds)"
    by (auto simp: less_Suc_eq)
  from flash_sale_exact [of "demo_env 0 1000" 1 0 empty_db ?bs ?rounds, unfolded db, OF demo_env_ok(1) n ok turns W_def]
  obtain xs where xs: "length xs = min (nat 1) (length ?bs)" "distinct (finish_order W)" "set (finish_order W) = {..<length ?bs}"
      "map (\<lambda>i. txn_result (txns W ! i)) (finish_order W)
        = map (\<lambda>x. Some (Inr x)) xs @ replicate (length ?bs - nat 1) (Some (Inl (DomainError allocation_sold_out)))"
    by (elim exE conjE)
  obtain x where x: "xs = [x]" using xs(1) by (cases xs) auto
  have "length (finish_order W) = 2" using arg_cong [OF xs(4), of length] x by simp
  then obtain i j where ij: "finish_order W = [i, j]" by (metis (no_types) One_nat_def Suc_1 length_0_conv length_Suc_conv)
  have "{..<length ?bs} = {0, 1}" by (auto simp: less_Suc_eq)
  with xs(3) have "{i, j} = {0, 1}" by (simp add: ij)
  moreover have "txn_result (txns W ! i) = Some (Inr x)" "txn_result (txns W ! j) = Some (Inl (DomainError allocation_sold_out))"
    using xs(4) by (simp_all add: ij x)
  ultimately show ?thesis unfolding W_def by blast
qed

text \<open>
  C11. A retry of a successful reservation gets the original answer, marked as a duplicate, and changes
  nothing, no matter what other calls ran in between (as long as they neither wipe the tables nor
  purge expired keys) and whatever the clock says.
\<close>

theorem reserve_retry_same:
  assumes "reachable s d" and "Reserve s e d sid req = (Inr x, d1)"
    and "runs (step s) d1 cs d2" and "list_all (\<lambda>c. \<not> wipes c \<and> \<not> purges c) cs"
    and "env_ok e'" and "sha256 e' = sha256 e"
  shows "Reserve s e' d2 sid req = (Inr (x\<lparr>Result_Duplicate := True\<rparr>), d2)"
  by (rule reserve_retry [OF reachable_good [OF assms(1)] assms(2-6)])

theorem reserve_retry_same_witness:
  "Reserve demo_store (demo_env 7 9000) paid_db (demo_id 0 1) alice = (Inr (alice_result\<lparr>Result_Duplicate := True\<rparr>), paid_db)"
  using reserve_retry_same [OF demo_db_reachable demo_reserve(1) demo_runs, of "demo_env 7 9000"] by simp

text \<open>
  C12. At most one effect: however often one reservation request is sent, and whichever round trips fail or lose their
  acknowledgement, the database ends up as it was or as exactly one of the attempts left it.
\<close>

theorem reserve_at_most_once:
  assumes "reachable s d" and "\<forall>e \<in> set es. sha256 e = h"
  shows "foldl (\<lambda>d e. snd (Reserve s e d sid req)) d es = d
    \<or> (\<exists>e \<in> set es. foldl (\<lambda>d e. snd (Reserve s e d sid req)) d es = snd (Reserve s e d sid req))"
proof -
  have h: "\<And>e. e \<in> set es \<Longrightarrow> sha256 e = h" using assms(2) by blast
  show ?thesis
    using reserve_endpoint.one_effect [OF reachable_good [OF assms(1)] h, where q = "(sid, req)" and s = s] by fastforce
qed

theorem reserve_at_most_once_witness:
  "foldl (\<lambda>d e. snd (Reserve demo_store e d (demo_id 0 1) alice)) demo_db
      [(demo_env 1 2000)\<lparr>fault := (\<lambda>n. if n = 11 then LostAck else NoFault)\<rparr>, demo_env 2 2500] = demo_db
    \<or> (\<exists>e \<in> set [(demo_env 1 2000)\<lparr>fault := (\<lambda>n. if n = 11 then LostAck else NoFault)\<rparr>, demo_env 2 2500].
        foldl (\<lambda>d e. snd (Reserve demo_store e d (demo_id 0 1) alice)) demo_db
          [(demo_env 1 2000)\<lparr>fault := (\<lambda>n. if n = 11 then LostAck else NoFault)\<rparr>, demo_env 2 2500]
        = snd (Reserve demo_store e demo_db (demo_id 0 1) alice))"
  by (rule reserve_at_most_once [OF demo_db_reachable, where h = demo_hash]) simp

text \<open>
  C13. A lost acknowledgement is harmless: when the commit of a reservation was applied but its acknowledgement
  got lost, the caller sees an error, and a retry returns the booking of the first attempt without a second one.
\<close>

theorem reserve_lost_ack:
  assumes "reachable s d" and "Reserve s e d sid req = (Inl err, d1)"
    and "length (reservations d1) \<noteq> length (reservations d)" and "env_ok e'" and "sha256 e' = sha256 e"
  shows "\<exists>x. Reserve s e' d1 sid req = (Inr x, d1) \<and> Result_Duplicate x
    \<and> reservations d1 = reservations d @ [last (reservations d1)]
    \<and> Reservation_ID (Result_Reservation x) = reservations_id (last (reservations d1))"
proof -
  have g: "good d" by (rule reachable_good [OF assms(1)])
  have sc: "schema_ok d" using g by (simp add: good_def ledger_def)
  have g1: "good d1" using Reserve_good [OF g, of s e sid req] assms(2) by simp
  show ?thesis
  proof (rule Reserve_cases [OF assms(2) sc])
    fix sale p rid oid eid
    assume v: "\<not> request_invalid sid (TrimSpace (Request_UserID req)) (Request_Quantity req) (TrimSpace (Request_IdempotencyKey req))"
      and d1: "d1 = booked s e d sid (TrimSpace (Request_UserID req)) (Request_Quantity req) (TrimSpace (Request_IdempotencyKey req)) p rid oid eid"
    let ?x = "(reserved_result s e sid (TrimSpace (Request_UserID req)) (Request_Quantity req) p rid oid)\<lparr>Result_Duplicate := True\<rparr>"
    have "reserve_settled (sha256 e') d1 (sid, req) (Inr ?x)"
      using v assms(5) by (auto simp: d1 reserve_settled_def Let_def decode_response_def fingerprint_def)
    from Reserve_replays(2) [OF g1 this assms(4), of s]
    show ?thesis by (simp add: d1)
  qed (use assms(3) in simp_all)
qed

theorem reserve_lost_ack_witness:
  "\<exists>d1 x. Reserve demo_store lost_env demo_db (demo_id 0 1) alice = (Inl (OtherError ''commit''), d1)
     \<and> Reserve demo_store (demo_env 2 2500) d1 (demo_id 0 1) alice = (Inr x, d1) \<and> Result_Duplicate x"
proof -
  obtain d1 where d1: "Reserve demo_store lost_env demo_db (demo_id 0 1) alice = (Inl (OtherError ''commit''), d1)"
      "length (reservations d1) = 1"
    using lost_reserve by (auto split: prod.splits)
  obtain x where "Reserve demo_store (demo_env 2 2500) d1 (demo_id 0 1) alice = (Inr x, d1)" "Result_Duplicate x"
    using reserve_lost_ack [OF demo_db_reachable d1(1), of "demo_env 2 2500"] d1(2) by auto
  with d1(1) show ?thesis by blast
qed

text \<open>
  C14. A key belongs to one request: using it again for another user, sale or quantity (a different user or a
  different fingerprint than the stored ones) is refused with IDEMPOTENCY_CONFLICT and changes nothing.
\<close>

theorem reserve_key_conflict:
  assumes "reachable s d" and "all_ok e" and "k \<in> set (idempotency_keys d)"
    and "idempotency_keys_key k = TrimSpace (Request_IdempotencyKey req)"
    and "\<not> request_invalid sid (TrimSpace (Request_UserID req)) (Request_Quantity req) (TrimSpace (Request_IdempotencyKey req))"
    and "idempotency_keys_user_id k \<noteq> TrimSpace (Request_UserID req)
      \<or> idempotency_keys_request_fingerprint k \<noteq> fingerprint e sid (TrimSpace (Request_UserID req)) (Request_Quantity req)"
  shows "Reserve s e d sid req = (Inl (domain_error ''IDEMPOTENCY_CONFLICT''
    ''Idempotency-Key was already used with a different request'' 409), d)"
proof -
  have g: "good d" by (rule reachable_good [OF assms(1)])
  have scope: "idempotency_keys_scope k = ''reservation''"
    using g assms(3) by (auto simp: good_def answered_def response_backed_def)
  have dk: "distinct (map idempotency_keys_key (idempotency_keys d))"
    using g keysD(9) by (simp add: good_def ledger_def)
  have "find (\<lambda>k. idempotency_keys_key k = TrimSpace (Request_IdempotencyKey req) \<and> idempotency_keys_scope k = ''reservation'')
      (idempotency_keys d) = Some k"
    using find_key_guard [OF dk assms(3,4), of "\<lambda>k. idempotency_keys_scope k = ''reservation''"] scope by simp
  moreover have "sql_claim_key e d (TrimSpace (Request_IdempotencyKey req)) u fp = Inr None" for u fp
    using imageI [OF assms(3), of idempotency_keys_key] assms(4) by (simp add: sql_claim_key_def insert_idempotency_keys_def)
  ultimately show ?thesis
    using assms(2,5,6) by (auto simp: Reserve_def Let_def replayReservation_def)
qed

theorem reserve_key_conflict_witness:
  "Reserve demo_store (demo_env 5 5000) booked_db (demo_id 0 1) (demo_request ''mallory'' ''key-1'') =
     (Inl (domain_error ''IDEMPOTENCY_CONFLICT'' ''Idempotency-Key was already used with a different request'' 409), booked_db)"
proof -
  have t: "TrimSpace (Request_IdempotencyKey (demo_request ''mallory'' ''key-1'')) = ''key-1''"
    "TrimSpace (Request_UserID (demo_request ''mallory'' ''key-1'')) = ''mallory''"
    "Request_Quantity (demo_request ''mallory'' ''key-1'') = 1" by code_simp+
  obtain k where "idempotency_keys booked_db = [k]" "idempotency_keys_key k = ''key-1''" "idempotency_keys_user_id k = ''alice''"
    by (simp add: demo_reserve(2))
  then show ?thesis
    by (intro reserve_key_conflict [OF booked_db_reachable demo_env_ok(2), of k]) (simp_all add: t request_invalid_def)
qed

text \<open>
  C15. Errors of the infrastructure roll everything back: if a call of Reserve changed the database, it returned a booking, a
  domain error whose response it stored, or the error of its COMMIT; with any other error the database is
  what it was.
\<close>

theorem reserve_atomic:
  assumes "reachable s d" and "Reserve s e d sid req = (res, d')" and "d' \<noteq> d"
  shows "(\<exists>x. res = Inr x) \<or> (\<exists>de. res = Inl (DomainError de)) \<or> res = Inl (OtherError ''commit'')"
proof -
  have sc: "schema_ok d" using reachable_good [OF assms(1)] by (simp add: good_def ledger_def)
  show ?thesis by (rule Reserve_cases [OF assms(2) sc]) (use assms(3) in auto)
qed

theorem reserve_atomic_witness:
  "booked_db \<noteq> demo_db \<and> ((\<exists>x. (Inr alice_result :: go_error + ReservationResult) = Inr x)
     \<or> (\<exists>de. (Inr alice_result :: go_error + ReservationResult) = Inl (DomainError de))
     \<or> (Inr alice_result :: go_error + ReservationResult) = Inl (OtherError ''commit''))"
proof -
  have "booked_db \<noteq> demo_db" using booked_db_rows(1) by (metis demo_db_sel(4) not_Cons_self2)
  with reserve_atomic [OF demo_db_reachable demo_reserve(1)] show ?thesis by blast
qed

section \<open>Confirming, cancelling, paying and expiring\<close>

text \<open>
  C16. Confirming or cancelling a pending reservation succeeds, moves the reservation and its order together and writes one event;
  a cancellation returns the units, once, to the product and to the sale, a confirmation leaves both counters alone.
\<close>

theorem transition_effect:
  assumes "reachable s d" and "env_ok e" and "r \<in> set (reservations d)" and "reservations_state r = ReservationPending"
    and "target \<in> {ReservationConfirmed, ReservationCancelled}"
    and "the_id e 0 \<notin> domain_events_id ` set (domain_events d)"
  shows "\<exists>oid. TransitionReservation e d (reservations_id r) target =
    (Inr (reservation_of_row oid (r\<lparr>reservations_state := target, reservations_updated_at := db_now e\<rparr>)),
     moved_db e d (the_id e 0) r target)"
  using Transition_ok [OF reachable_good [OF assms(1)] assms(2,3,4) _ assms(6)] assms(5) by blast

theorem transition_effect_witness:
  "\<exists>x. TransitionReservation (demo_env 4 3500) booked_db (demo_id 1 0) ReservationCancelled =
     (Inr x, moved_db (demo_env 4 3500) booked_db (demo_id 4 0) alice_row ReservationCancelled)
   \<and> map inventory_available (inventory (moved_db (demo_env 4 3500) booked_db (demo_id 4 0) alice_row ReservationCancelled)) = [1]"
proof -
  have "map inventory_available (inventory (moved_db (demo_env 4 3500) booked_db (demo_id 4 0) alice_row ReservationCancelled)) = [1]"
    by (simp add: demo_reserve(2) update_where_def demo_inventory_def)
  then show ?thesis
    using transition_effect [OF booked_db_reachable demo_env_ok(1), of alice_row ReservationCancelled 4 3500] by auto
qed

text \<open>
  C17. A move the life cycle does not have (from a cancelled, expired or paid reservation, or cancelling a confirmed one) is refused
  with INVALID_STATE_TRANSITION and changes nothing.
\<close>

theorem transition_refused:
  assumes "reachable s d" and "all_ok e" and "r \<in> set (reservations d)" and "\<not> lifecycle (reservations_state r) target"
  shows "\<exists>msg. TransitionReservation e d (reservations_id r) target = (Inl (domain_error ''INVALID_STATE_TRANSITION'' msg 409), d)"
proof -
  have sc: "schema_ok d" using reachable_good [OF assms(1)] by (simp add: good_def ledger_def)
  have "find (\<lambda>y. reservations_id y = reservations_id r) (reservations d) = Some r"
    using find_Some_iff_key [OF keysD(4) [OF sc]] assms(3) by simp
  moreover have "ValidateReservationTransition (reservations_state r) target \<noteq> None"
    using assms(4) by (simp add: Validate_None)
  ultimately show ?thesis using assms(2) by (auto simp: TransitionReservation_def)
qed

theorem transition_refused_witness:
  "\<exists>msg. TransitionReservation (demo_env 4 4500) confirmed_db (demo_id 1 0) ReservationCancelled =
     (Inl (domain_error ''INVALID_STATE_TRANSITION'' msg 409), confirmed_db)"
  using transition_refused [OF confirmed_db_reachable demo_env_ok(2), of confirmed_row ReservationCancelled]
  by (auto simp: lifecycle.simps)



text \<open>
  C19. An order is paid at most once: a payment under a new key whose outcome the reservation's state does not admit, in
  particular a second successful payment, is refused with INVALID_STATE_TRANSITION and leaves no trace.
\<close>

theorem payment_refused:
  assumes "reachable s d" and "env_ok e" and "payment_ids e d"
    and "order_arg req \<noteq> ''''" "key_arg req \<noteq> ''''" "parse_outcome (outcome_arg req) = Some oc"
    and "key_arg req \<notin> payments_idempotency_key ` set (payments d)"
    and "x \<in> set (orders d)" "orders_id x = order_arg req"
    and "r \<in> set (reservations d)" "reservations_id r = orders_reservation_id x"
    and "\<not> outcome_allowed oc (reservations_state r)"
  shows "\<exists>msg. SimulatePayment e d req = (Inl (domain_error ''INVALID_STATE_TRANSITION'' msg 409), d)"
  by (rule Simulate_refused [OF reachable_good [OF assms(1)] assms(2-12)])

theorem payment_refused_witness:
  "\<exists>msg. SimulatePayment (demo_env 3 4000) booked_db pay_request = (Inl (domain_error ''INVALID_STATE_TRANSITION'' msg 409), booked_db)"
  using payment_refused [OF booked_db_reachable demo_env_ok(1), of 3 4000 pay_request Successful
      "reserved_order (demo_env 1 2000) (demo_id 0 1) ''alice'' 1 (demo_product (demo_env 0 1000) (demo_id 0 0)) (demo_id 1 0) (demo_id 1 1)" alice_row]
  by (simp add: payment_ids_def parse_outcome_def)

text \<open>
  C20. However often a payment request is sent, and whichever round trips fail, at most one attempt takes effect.
\<close>

theorem payment_at_most_once:
  assumes "reachable s d" and "\<forall>e \<in> set es. sha256 e = h"
  shows "foldl (\<lambda>d e. snd (SimulatePayment e d req)) d es = d
    \<or> (\<exists>e \<in> set es. foldl (\<lambda>d e. snd (SimulatePayment e d req)) d es = snd (SimulatePayment e d req))"
proof -
  have h: "\<And>e. e \<in> set es \<Longrightarrow> sha256 e = h" using assms(2) by blast
  show ?thesis
    using payment_endpoint.one_effect [OF reachable_good [OF assms(1)] h, where q = req] by fastforce
qed

theorem payment_at_most_once_witness:
  "foldl (\<lambda>d e. snd (SimulatePayment e d pay_request)) confirmed_db [demo_env 3 4000, demo_env 6 4100] = confirmed_db
   \<or> (\<exists>e \<in> set [demo_env 3 4000, demo_env 6 4100]. foldl (\<lambda>d e. snd (SimulatePayment e d pay_request)) confirmed_db
        [demo_env 3 4000, demo_env 6 4100] = snd (SimulatePayment e confirmed_db pay_request))"
  by (rule payment_at_most_once [OF confirmed_db_reachable, where h = demo_hash]) simp

text \<open>
  C21. The expiration batch succeeds on every reachable database, without ever reporting a broken invariant: it expires exactly the
  candidates (pending, past their expiry, not locked, oldest first, at most \<open>n\<close>), and each product gets back exactly the units
  of its expired reservations while nothing is sold or lost. The count reported as restored is the number of
  reservations, not of units.
\<close>

theorem expire_batch_exact:
  assumes "reachable s d" and "env_ok e" and "0 < n" "n \<le> 1000"
    and "cs = expire_candidates e d (nat n) tm" and "batch_ids e d 0 (length cs)"
  shows "\<exists>d'. ExpireBatch e d n tm = (Inr \<lparr>Expiration_Processed = int (length cs), Expiration_Expired = int (length cs),
        Expiration_Restored = int (length cs)\<rparr>, d')
    \<and> reservations d' = expired_rows tm cs (reservations d)
    \<and> (\<forall>i \<in> set (inventory d). \<exists>i' \<in> set (inventory d'). inventory_product_id i' = inventory_product_id i
        \<and> inventory_available i' = inventory_available i + owed_product cs (inventory_product_id i)
        \<and> inventory_reserved i' = inventory_reserved i - owed_product cs (inventory_product_id i)
        \<and> inventory_sold i' = inventory_sold i)"
proof -
  have g: "good d" by (rule reachable_good [OF assms(1)])
  obtain d' where d': "ExpireBatch e d n tm = (Inr \<lparr>Expiration_Processed = int (length cs),
       Expiration_Expired = int (length cs), Expiration_Restored = int (length cs)\<rparr>, d')"
      "reservations d' = expired_rows tm cs (reservations d)" "totals d' = totals d"
    by (rule Expire_ok [OF g assms(2-6)])
  have "good d'" using Expire_good [OF g, of e n tm] d'(1) by simp
  then show ?thesis using restored_units [OF g _ assms(5) d'(2,3)] d'(1,2) by blast
qed

theorem expire_batch_exact_witness:
  "\<exists>d'. ExpireBatch (demo_env 4 900000000) booked_db 10 900000000 = (Inr \<lparr>Expiration_Processed = 1, Expiration_Expired = 1,
      Expiration_Restored = 1\<rparr>, d')"
proof -
  have cs: "expire_candidates (demo_env 4 900000000) booked_db (nat 10) 900000000 = [alice_row]"
    by (simp add: expire_candidates_def demo_store_def)
  show ?thesis
    using expire_batch_exact [OF booked_db_reachable demo_env_ok(1), of 10 "[alice_row]" 4 900000000 900000000] cs
    by (simp add: batch_ids_def) blast
qed

text \<open>
  C22. A batch that is large enough leaves nothing behind: when at most \<open>n\<close> reservations are due, afterwards no unlocked
  pending reservation is past its expiry.
\<close>

theorem expire_batch_drains:
  assumes "reachable s d" and "ExpireBatch e d n tm = (Inr res, d')"
    and "length (filter (\<lambda>r. reservations_state r = ReservationPending \<and> reservations_expires_at r \<le> tm
        \<and> \<not> locked e (reservations_id r)) (reservations d)) \<le> nat n"
    and "r \<in> set (reservations d')" and "reservations_expires_at r \<le> tm" and "\<not> locked e (reservations_id r)"
  shows "reservations_state r \<noteq> ReservationPending"
proof -
  let ?due = "\<lambda>r. reservations_state r = ReservationPending \<and> reservations_expires_at r \<le> tm \<and> \<not> locked e (reservations_id r)"
  have sc: "schema_ok d" using reachable_good [OF assms(1)] by (simp add: good_def ledger_def)
  have cs: "set (expire_candidates e d (nat n) tm) = set (filter ?due (reservations d))"
    using assms(3) by (simp add: expire_candidates_def)
  obtain d1 where "sql_expire e d (nat n) tm = Inr (d1, expire_candidates e d (nat n) tm)"
      "expire_loop e tm 0 (expire_candidates e d (nat n) tm) d1 = Inr d'"
    using assms(2) by (auto simp: ExpireBatch_def sql_expire_eq [OF sc] commit_Inr Let_def split: if_splits sum.splits)
  then have "reservations d' = expired_rows tm (expire_candidates e d (nat n) tm) (reservations d)"
    using expire_loop_frame by (auto simp: sql_expire_eq [OF sc])
  moreover have "\<forall>x \<in> set (expired_rows tm (expire_candidates e d (nat n) tm) (reservations d)).
      reservations_expires_at x \<le> tm \<longrightarrow> \<not> locked e (reservations_id x) \<longrightarrow> reservations_state x \<noteq> ReservationPending"
    unfolding cs by (auto simp: ball_update_where)
  ultimately show ?thesis using assms(4-6) by simp
qed

theorem expire_batch_drains_witness:
  "\<exists>d' res. ExpireBatch (demo_env 4 900000000) booked_db 10 900000000 = (Inr res, d')
     \<and> (\<exists>r \<in> set (reservations d'). reservations_state r \<noteq> ReservationPending)"
proof -
  have b: "batch_ids (demo_env 4 900000000) booked_db 0 (length [alice_row])" by (simp add: batch_ids_def)
  have cs: "[alice_row] = expire_candidates (demo_env 4 900000000) booked_db (nat 10) 900000000"
    by (simp add: expire_candidates_def demo_store_def)
  obtain d' where d': "ExpireBatch (demo_env 4 900000000) booked_db 10 900000000 = (Inr \<lparr>Expiration_Processed = int (length [alice_row]),
       Expiration_Expired = int (length [alice_row]), Expiration_Restored = int (length [alice_row])\<rparr>, d')"
      "reservations d' = expired_rows 900000000 [alice_row] (reservations booked_db)"
    by (rule Expire_ok [OF booked_db_good demo_env_ok(1) _ _ cs b]) simp_all
  define r where "r = alice_row\<lparr>reservations_state := ReservationExpired, reservations_updated_at := 900000000\<rparr>"
  have r: "r \<in> set (reservations d')" by (simp add: d'(2) update_where_def r_def)
  moreover have "reservations_state r \<noteq> ReservationPending"
    by (rule expire_batch_drains [OF booked_db_reachable d'(1) _ r]) (simp_all add: r_def demo_store_def)
  ultimately show ?thesis using d'(1) by blast
qed

section \<open>The demo\<close>

text \<open>
  C23. The public demo's budget: after an anonymous reservation at most \<open>m\<close> actions lie within the last minute, unless there
  were more before; and once \<open>m\<close> actions do, a new key is refused with PUBLIC_DEMO_LIMIT_REACHED and nothing changes.
\<close>

theorem public_demo_budget:
  assumes "reachable s d" and "1 \<le> m" "m \<le> 100" and "all_ok e"
  shows "sql_recent_actions e (snd (ReservePublicDemo s e e' d key m)) \<le> max m (sql_recent_actions e d)
    \<and> (TrimSpace key \<noteq> '''' \<longrightarrow> length (TrimSpace key) \<le> 200 \<longrightarrow> m \<le> sql_recent_actions e d \<longrightarrow>
       TrimSpace key \<notin> public_demo_actions_idempotency_key ` set (public_demo_actions d) \<longrightarrow>
       ReservePublicDemo s e e' d key m = (Inl (domain_error ''PUBLIC_DEMO_LIMIT_REACHED''
         ''The public demo action budget is exhausted; retry later'' 429), d))"
proof
  show "sql_recent_actions e (snd (ReservePublicDemo s e e' d key m)) \<le> max m (sql_recent_actions e d)"
    by (rule public_reserve_recent [OF reachable_good [OF assms(1)]])
  have "demo_admit e d (TrimSpace key) m = (Inl (domain_error ''PUBLIC_DEMO_LIMIT_REACHED''
         ''The public demo action budget is exhausted; retry later'' 429), d)"
    if "m \<le> sql_recent_actions e d" "TrimSpace key \<notin> public_demo_actions_idempotency_key ` set (public_demo_actions d)"
    by (rule demo_admit_refused [OF assms(4) that])
  then show "TrimSpace key \<noteq> '''' \<longrightarrow> length (TrimSpace key) \<le> 200 \<longrightarrow> m \<le> sql_recent_actions e d \<longrightarrow>
       TrimSpace key \<notin> public_demo_actions_idempotency_key ` set (public_demo_actions d) \<longrightarrow>
       ReservePublicDemo s e e' d key m = (Inl (domain_error ''PUBLIC_DEMO_LIMIT_REACHED''
         ''The public demo action budget is exhausted; retry later'' 429), d)"
    using assms(2,3) by (simp add: ReservePublicDemo_def Let_def)
qed

theorem public_demo_budget_witness:
  "sql_recent_actions (demo_env 5 3000) (snd (ReservePublicDemo demo_store (demo_env 5 3000) (demo_env 6 3000) demo_db ''visitor'' 2)) \<le> 2"
  using public_demo_budget [OF demo_db_reachable, of 2 "demo_env 5 3000" "demo_env 6 3000" "''visitor''"]
  by (simp add: sql_recent_actions_def)

section \<open>The service around the store\<close>



text \<open>
  C25. The server refines the store: what a request does to the database is a sequence of store calls, and each of them is one its
  origin, its credentials and the configuration permit.
\<close>

theorem request_refines_store:
  "\<exists>cs. runs (step s) (Srv_db srv) cs (Srv_db (fst (ServeHTTP L cfg s w r srv))) \<and> list_all (permitted L cfg r) cs"
  by (rule ServeHTTP_runs [of s srv L cfg w r]) blast

text \<open>
  C26. Without the key nothing moves: in production, with public mutations switched off, no request changes the database unless it carries the administrator's key and comes
  from an allowed origin or from none.
\<close>

theorem no_key_no_change:
  assumes "Production cfg" and "\<not> PublicMutationsEnabled cfg"
    and "\<not> admin_ok L cfg r \<or> Req_Header r ''Origin'' \<noteq> [] \<and> Req_Header r ''Origin'' \<notin> set (CORSAllowedOrigins cfg)"
  shows "Srv_db (fst (ServeHTTP L cfg s w r srv)) = Srv_db srv"
proof (rule ServeHTTP_runs [of s srv L cfg w r])
  fix cs assume run: "runs (step s) (Srv_db srv) cs (Srv_db (fst (ServeHTTP L cfg s w r srv)))" and "list_all (permitted L cfg r) cs"
  moreover have "\<not> permitted L cfg r c" for c using assms by (auto simp: permitted_def)
  ultimately have "cs = []" by (cases cs) auto
  with run show ?thesis by (auto elim: runs.cases)
qed

theorem no_key_no_change_witness:
  "Srv_db (fst (ServeHTTP demo_weblib (loaded production_vars) demo_store demo_web (demo_call_to (EP_CancelReservation (demo_id 1 0)))
     (NewWithMetrics (loaded production_vars) booked_db))) = booked_db"
proof -
  have "\<not> admin_ok demo_weblib (loaded production_vars) (demo_call_to (EP_CancelReservation (demo_id 1 0)))"
    by (simp add: admin_ok_def demo_call_to_def)
  then show ?thesis
    using no_key_no_change [of "loaded production_vars" demo_weblib "demo_call_to (EP_CancelReservation (demo_id 1 0))" demo_store demo_web
        "NewWithMetrics (loaded production_vars) booked_db"] Load_production(2,3)
    by (simp add: Production_def NewWithMetrics_def)
qed

text \<open>
  C27. The load test of the API tells the truth and the truth is good: with valid credentials and no faults, in every order in which the concurrent attempts reach the
  database, it reports exactly min(100, n) successes, the rest sold out, no duplicate, limited or failed attempt, and zero overselling.
\<close>

theorem load_test_exact:
  assumes "demoAuthorized cfg r" and "decodeJSON L r (Body_Attempts (Req_Body r)) = Inr (int n)" and "n \<in> {10, 100, 500, 1000}"
    and "env_ok (Web_env w)" and "all_ok (Web_env3 w)" and "length (Req_ID r) \<le> 128"
    and "schedule_ok n (go_now (Web_env w)) (go_now (Web_env w) + 365 * 24 * 3600 * 1000000) (Web_schedule w)"
  shows "\<exists>rep. snd (demoLoadTest L cfg s w r srv) = success r 200 (D_LoadReport rep)
    \<and> Load_Successful rep = min 100 (int n) \<and> Load_SoldOut rep = int n - min 100 (int n) \<and> Load_Duplicate rep = 0
    \<and> Load_RateLimited rep = 0 \<and> Load_Failed rep = 0 \<and> Load_ZeroOverselling rep"
  by (rule demoLoadTest_report [OF assms])

theorem load_test_exact_witness:
  "\<exists>rep. snd (demoLoadTest demo_weblib (loaded local_vars) demo_store demo_web (demo_call_to EP_DemoLoadTest) (NewWithMetrics (loaded local_vars) paid_db))
      = success (demo_call_to EP_DemoLoadTest) 200 (D_LoadReport rep) \<and> Load_Successful rep = 10 \<and> Load_ZeroOverselling rep"
proof -
  have "schedule_ok 10 1000 (1000 + 365 * 24 * 3600 * 1000000) (demo_schedule 10)" by (rule demo_schedule_ok) simp_all
  then show ?thesis
    using load_test_exact [of "loaded local_vars" "demo_call_to EP_DemoLoadTest" demo_weblib 10 demo_web demo_store "NewWithMetrics (loaded local_vars) paid_db"]
      Load_local(2,3)
    by (auto simp: demoAuthorized_def demo_call_to_def decodeJSON_def demo_weblib_def empty_body_def demo_web_def)
qed

text \<open>
  C28. The load generator succeeds on whatever database it finds: in demo mode, when no round trip fails, it exits with status 0, writes both report files, the first with the
  passing verdict, and reports 100 of 100 idempotent answers, one expired and restored reservation, exactly min(100, n) sold units and zero overselling.
\<close>

theorem loadgen_passes:
  assumes "Load (Proc_parsers p) (Proc_getenv p) = Inr cfg"
    and "Open (Proc_ParseConfig p) (Proc_connects p) (Proc_pings p) (DatabaseURL cfg) = Inr pool"
    and "Migrate (Proc_script p) (Proc_net p) (Proc_dir p) m = (Inr (), m1)" and "run_ok w n" and "platform_ok P"
  shows "\<exists>r body m'. loadgen_main P p ''demo'' (int n) w m = (0, loadgen_summary r, [(''reports/local_portfolio_report.md'', report_text P r),
      (''reports/local_portfolio_report.json'', body @ [CHR 0x0A])], m') \<and> MarshalIndent P r = Inr body
    \<and> ''**Zero overselling: PASS**'' \<in> set (report_lines P r) \<and> Report_IdempotentResults r = 100
    \<and> Report_ExpiredReservations r = 1 \<and> Report_RestoredInventory r = 1 \<and> Report_Successful r = min 100 (int n)
    \<and> Report_SoldOut r = int n - min 100 (int n) \<and> Report_Duplicate r = 0 \<and> Report_Failed r = 0"
proof -
  have n: "\<not> (int n < 1 \<or> 1000 < int n)" using assms(4) by (simp add: run_ok_def)
  obtain r d' where r: "run (New_Store (ReservationTTL cfg)) w (mdb_state m1) (int n) = (Inr r, d')" "Report_ZeroOverselling r"
      "Report_IdempotentResults r = 100" "Report_ExpiredReservations r = 1" "Report_RestoredInventory r = 1" "Report_Successful r = min 100 (int n)"
      "Report_SoldOut r = int n - min 100 (int n)" "Report_Duplicate r = 0" "Report_Failed r = 0"
    using run_success [OF assms(4), of "New_Store (ReservationTTL cfg)" "mdb_state m1"] by blast
  obtain body where body: "MarshalIndent P r = Inr body" "writeReport P r = (None, [(''reports/local_portfolio_report.md'', report_text P r),
      (''reports/local_portfolio_report.json'', body @ [CHR 0x0A])])"
    by (rule writeReport_ok [OF assms(5)])
  have "loadgen_main P p ''demo'' (int n) w m = (0, loadgen_summary r, [(''reports/local_portfolio_report.md'', report_text P r),
      (''reports/local_portfolio_report.json'', body @ [CHR 0x0A])], m1\<lparr>mdb_state := d'\<rparr>)"
    using n r(1,2) by (simp add: loadgen_main_def assms(1-3) body(2))
  with r(2-) body(1) verdict_line [of P r] show ?thesis by blast
qed

theorem loadgen_passes_witness:
  "\<exists>r m'. loadgen_main demo_platform (demo_process local_vars) ''demo'' 150 demo_run \<lparr>mdb_versions = None, mdb_state = paid_db\<rparr> =
      (0, loadgen_summary r, [(''reports/local_portfolio_report.md'', report_text demo_platform r),
        (''reports/local_portfolio_report.json'', ''{}'' @ [CHR 0x0A])], m')
     \<and> Report_Successful r = 100 \<and> Report_SoldOut r = 50"
proof -
  have "Migrate (\<lambda>sql m. Some m) (\<lambda>_. NoFault) (Some [\<lparr>Entry_Name = ''001_init.sql'', Entry_IsDir = False, Entry_Contents = Some ''CREATE''\<rparr>])
      \<lparr>mdb_versions = None, mdb_state = paid_db\<rparr> = (Inr (), \<lparr>mdb_versions = Some [1], mdb_state = paid_db\<rparr>)"
    by (simp add: Migrate_def migration_names_def migrate_file_def Let_def demo_version check_applied_def apply_migration_def)
  moreover have "MarshalIndent demo_platform r = Inr ''{}''" for r by (simp add: demo_platform_def)
  ultimately show ?thesis
    using loadgen_passes [of "demo_process local_vars" "loaded local_vars" _ "\<lparr>mdb_versions = None, mdb_state = paid_db\<rparr>" _ demo_run 150 demo_platform]
      Load_local(1) demo_run_ok demo_platform_ok
    by (simp add: demo_process_def Open_def OpenWithOptions_def PoolConfig_def Let_def) blast
qed

section \<open>The limiter, the worker and the migrations\<close>

text \<open>
  C29. The rate limit holds over every window: whatever other clients do, the requests of one client that are admitted from one instant on are at most the burst
  plus the rate times the length of the window. The burst must be one that ten minutes refill, since idle clients are forgotten after that time.
\<close>

theorem rate_window:
  assumes "0 \<le> rps" and "1 \<le> burst" and "burst \<le> 600 * rps"
    and "forward fst t0 (before @ calls)" and "t1 = ends_at fst t0 before"
  shows "of_nat (admitted c (after_calls c (New_Limiter rps burst) before) calls)
    \<le> (of_int burst + of_int (ends_at fst t1 calls - t1) * of_int rps / 10 ^ 9 :: rat)"
  by (rule window_bound [OF assms])

theorem rate_window_witness:
  "admitted ''a'' (New_Limiter 20 2) [(0, ''a''), (1000, ''b''), (2000, ''a''), (3000, ''a''), (4000, ''a'')] \<le> 2"
proof -
  have "of_nat (admitted ''a'' (New_Limiter 20 2) [(0, ''a''), (1000, ''b''), (2000, ''a''), (3000, ''a''), (4000, ''a'')]) < (3 :: rat)"
    using rate_window [of 20 2 0 "[]" "[(0, ''a''), (1000, ''b''), (2000, ''a''), (3000, ''a''), (4000, ''a'')]" 0 "''a''"] by simp
  then have "admitted ''a'' (New_Limiter 20 2) [(0, ''a''), (1000, ''b''), (2000, ''a''), (3000, ''a''), (4000, ''a'')] < 3"
    by (metis of_nat_less_iff of_nat_numeral)
  then show ?thesis by simp
qed



text \<open>
  C31. The worker catches up: after enough undisturbed ticks, batch size times ticks at least the backlog, no reservation that was due at the start of the first tick is
  still pending, however many there were; its metrics count exactly the reservations it expired, and no tick is counted as an error.
\<close>

theorem worker_catches_up:
  assumes "reachable s d" and "0 < n" and "n \<le> 1000" and "undisturbed n t d ticks"
    and "backlog t (reservations d) \<le> length ticks * nat n"
  shows "\<exists>d' m'. Run n (ticking ticks) (d, Some m) = (d', Some m') \<and> reachable s d'
    \<and> (\<forall>r \<in> set (reservations d'). reservations_expires_at r \<le> t \<longrightarrow> reservations_state r \<noteq> ReservationPending)
    \<and> Expired m' - Expired m = int (expired_total d') - int (expired_total d) \<and> WorkerErrors m' = WorkerErrors m"
proof -
  obtain d' m' where r: "Run n (ticking ticks) (d, Some m) = (d', Some m')"
      "backlog t (reservations d') = backlog t (reservations d) - length ticks * nat n"
      "Expired m' - Expired m = int (expired_total d') - int (expired_total d)" "WorkerErrors m' = WorkerErrors m"
    using Run_drains [OF reachable_good [OF assms(1)] assms(2-4)] by blast
  have "filter (overdue t) (reservations d') = []" using r(2) assms(5) by simp
  then have "\<forall>r \<in> set (reservations d'). reservations_expires_at r \<le> t \<longrightarrow> reservations_state r \<noteq> ReservationPending"
    by (auto simp: filter_empty_conv overdue_def)
  moreover have "reachable s d'" using Run_reachable [OF assms(1), of n "ticking ticks" "Some m"] r(1) by simp
  ultimately show ?thesis using r by blast
qed

theorem worker_catches_up_witness:
  "\<exists>d' m'. Run 50 [Tick (demo_env 4 900000000) 900000000] (booked_db, Some New_Metrics) = (d', Some m')
     \<and> (\<forall>r \<in> set (reservations d'). reservations_expires_at r \<le> 900000000 \<longrightarrow> reservations_state r \<noteq> ReservationPending)"
proof -
  have "expire_candidates (demo_env 4 900000000) booked_db (nat 50) 900000000 = [alice_row]"
    by (simp add: expire_candidates_def demo_store_def)
  then have "undisturbed 50 900000000 booked_db [(demo_env 4 900000000, 900000000)]" by (simp add: batch_ids_def)
  moreover have "backlog 900000000 (reservations booked_db) \<le> length [(demo_env 4 900000000, 900000000 :: int)] * nat 50"
    using length_filter_le [of "overdue 900000000" "reservations booked_db"] by simp
  ultimately show ?thesis
    using worker_catches_up [OF booked_db_reachable, of 50 900000000 "[(demo_env 4 900000000, 900000000)]" New_Metrics] by fastforce
qed

text \<open>
  C32. Migrations can be repeated: wherever a run stopped, for whatever reason, running them again without faults ends in the result and the database an undisturbed run
  would have given from the start; nothing is applied twice.
\<close>

theorem migrate_resumes:
  assumes "keeps_versions script" and "Migrate script net dir d = (r, d')"
  shows "Migrate script smooth dir d' = Migrate script smooth dir d"
  by (rule Migrate_repeat [OF assms])

theorem migrate_resumes_witness:
  "Migrate (\<lambda>sql m. Some (m\<lparr>mdb_state := sql # mdb_state m\<rparr>)) smooth
       (Some [\<lparr>Entry_Name = ''001_init.sql'', Entry_IsDir = False, Entry_Contents = Some ''CREATE''\<rparr>])
       (snd (Migrate (\<lambda>sql m. Some (m\<lparr>mdb_state := sql # mdb_state m\<rparr>)) (\<lambda>n. if n = 8 then LostAck else NoFault)
         (Some [\<lparr>Entry_Name = ''001_init.sql'', Entry_IsDir = False, Entry_Contents = Some ''CREATE''\<rparr>]) \<lparr>mdb_versions = None, mdb_state = []\<rparr>))
    = (Inr (), \<lparr>mdb_versions = Some [1], mdb_state = [''CREATE'']\<rparr>)"
proof -
  let ?script = "\<lambda>sql m. Some (m\<lparr>mdb_state := sql # mdb_state m\<rparr>)"
  let ?dir = "Some [\<lparr>Entry_Name = ''001_init.sql'', Entry_IsDir = False, Entry_Contents = Some ''CREATE''\<rparr>]"
  have k: "keeps_versions ?script" by (auto simp: keeps_versions_def)
  have "Migrate ?script smooth ?dir \<lparr>mdb_versions = None, mdb_state = []\<rparr> = (Inr (), \<lparr>mdb_versions = Some [1], mdb_state = [''CREATE'']\<rparr>)"
    by (simp add: Migrate_def migration_names_def migrate_file_def Let_def demo_version check_applied_def apply_migration_def)
  then show ?thesis
    using migrate_resumes [OF k surjective_pairing, where net = "\<lambda>n. if n = 8 then LostAck else NoFault" and d = "\<lparr>mdb_versions = None, mdb_state = []\<rparr>" and dir = ?dir]
    by simp
qed

section \<open>Configuration\<close>

text \<open>
  C33. A configuration that loads is a safe one: every number and duration is in its documented range, the lists are clean, no trusted proxy range is the whole internet, and in
  production the base URL and every origin are HTTPS, the database connection requires TLS, the demo controls are off and the administrator's key is a digest that is not one of a known weak key.
\<close>

theorem config_safe:
  assumes "Load P getenv = Inr cfg"
  shows "config_ok cfg \<and> (Production cfg \<longrightarrow> production_ok P cfg)"
  using Load_config_ok(1,2) [OF assms] by blast

theorem config_safe_witness:
  "config_ok (loaded production_vars) \<and> production_ok demo_parsers (loaded production_vars)"
  using config_safe [OF Load_production(1)] Load_production(2) by (simp add: Production_def)



text \<open>
  C35. The pool gets what the configuration says: the connection limits arrive unwrapped in 32 bits, and the session timeouts in whole milliseconds, rounded down. A timeout
  below one millisecond, which the configuration accepts, therefore becomes 0, which switches the timeout off.
\<close>

theorem pool_settings:
  assumes "Load P getenv = Inr cfg" and "PoolConfig ParseConfig url (pool_options cfg) = Inr pc"
  shows "Pool_MaxConns pc = DatabaseMaxConns cfg \<and> Pool_MinConns pc = DatabaseMinConns cfg
    \<and> Pool_MinConns pc \<le> Pool_MaxConns pc \<and> Pool_MaxConnLifetime pc = DatabaseMaxConnLifetime cfg
    \<and> Pool_RuntimeParams pc ''statement_timeout'' = Some (fmt_d (DatabaseStatementTimeout cfg div 1000000))
    \<and> Pool_RuntimeParams pc ''transaction_timeout'' = Some (fmt_d (DatabaseTransactionTimeout cfg div 1000000))
    \<and> (Pool_RuntimeParams pc ''statement_timeout'' = Some ''0'' \<longleftrightarrow> DatabaseStatementTimeout cfg < 1000000)"
proof -
  have ok: "config_ok cfg" by (rule Load_config_ok(1) [OF assms(1)])
  then have r: "0 < DatabaseMaxConns cfg" "DatabaseMaxConns cfg \<le> 100" "0 \<le> DatabaseMinConns cfg" "DatabaseMinConns cfg \<le> DatabaseMaxConns cfg"
    "0 < DatabaseMaxConnLifetime cfg" "0 < DatabaseStatementTimeout cfg" "0 < DatabaseTransactionTimeout cfg" by (auto simp: config_ok_def)
  have z: "fmt_d x = ''0'' \<longleftrightarrow> x = 0" if "0 \<le> x" for x
  proof
    assume "fmt_d x = ''0''"
    moreover have "fmt_d 0 = ''0''" by code_simp
    ultimately have "fmt_nat (nat x) = fmt_nat 0" using that by (simp add: fmt_d_def)
    then show "x = 0" using digits_val_fmt_nat [of "nat x"] digits_val_fmt_nat [of 0] that by simp
  qed (simp add: fmt_d_def, code_simp)
  have w: "wrap32 (DatabaseMaxConns cfg) = DatabaseMaxConns cfg" "wrap32 (DatabaseMinConns cfg) = DatabaseMinConns cfg"
    using r by (auto intro!: wrap32_id simp: int4_def)
  show ?thesis
    using assms(2) r z [of "DatabaseStatementTimeout cfg div 1000000"]
    by (auto simp: PoolConfig_def pool_options_def Let_def w Milliseconds_def split: option.splits)
qed

theorem pool_settings_witness:
  "\<exists>pc. PoolConfig (\<lambda>_. Some demo_pool) ''postgres://local'' (pool_options (loaded local_vars)) = Inr pc
     \<and> Pool_MinConns pc \<le> Pool_MaxConns pc \<and> Pool_RuntimeParams pc ''statement_timeout'' \<noteq> Some ''0''"
proof -
  obtain pc where pc: "PoolConfig (\<lambda>_. Some demo_pool) ''postgres://local'' (pool_options (loaded local_vars)) = Inr pc"
    by (simp add: PoolConfig_def Let_def)
  have "\<not> DatabaseStatementTimeout (loaded local_vars) < 1000000" by (simp add: loaded_def local_vars_def load_simps prefixes_def)
  with pool_settings [OF Load_local(1) pc] pc show ?thesis by blast
qed

section \<open>Corners\<close>

text \<open>
  C36. A refused reservation can cost a sale its stock: when the sale has units left but the product has not, Reserve answers INVENTORY_SOLD_OUT and commits the decrement of the
  sale's remaining stock, although no reservation holds those units. They are lost to the sale.
\<close>

theorem sold_out_leak:
  assumes "reachable s d" and "all_ok e"
    and "u = TrimSpace (Request_UserID request)" "key = TrimSpace (Request_IdempotencyKey request)" "q = Request_Quantity request"
    and "\<not> request_invalid saleID u q key" and "key \<notin> idempotency_keys_key ` set (idempotency_keys d)"
    and "verdict e d saleID u q = Some sold_out" and "sale \<in> set (flash_sales d)" and "flash_sales_id sale = saleID"
  shows "\<exists>d'. Reserve s e d saleID request = (Inl (DomainError sold_out), d')
    \<and> reservations d' = reservations d \<and> inventory d' = inventory d
    \<and> (\<exists>sale' \<in> set (flash_sales d'). flash_sales_id sale' = saleID
        \<and> flash_sales_remaining_stock sale' = flash_sales_remaining_stock sale - q)"
proof -
  let ?sale = "sale\<lparr>flash_sales_remaining_stock := flash_sales_remaining_stock sale - q, flash_sales_updated_at := db_now e\<rparr>"
  have "?sale \<in> set (taken_sales e saleID q (flash_sales d))"
    using assms(9,10) by (force simp: update_where_def)
  then show ?thesis
    using Reserve_refused [OF reachable_good [OF assms(1)] assms(2-8), of s] assms(10)
    by (intro exI [of _ "after_refusal e d saleID u q key sold_out"]) (auto simp: after_refusal_def intro!: bexI [of _ ?sale])
qed

theorem sold_out_leak_witness:
  "\<exists>d'. Reserve demo_store (demo_env 7 2500) rival_db (demo_id 5 0) bob = (Inl (DomainError sold_out), d') \<and> reservations d' = reservations rival_db
     \<and> (\<exists>sale' \<in> set (flash_sales d'). flash_sales_id sale' = demo_id 5 0 \<and> flash_sales_remaining_stock sale' = 0)"
proof -
  have "flash_sales_id (opened_sale (demo_id 0 0) 1) = demo_id 5 0" "flash_sales_remaining_stock (opened_sale (demo_id 0 0) 1) = 1"
    by (simp_all add: opened_sale_def)
  then show ?thesis
    using sold_out_leak [OF unusual_reachable(1) demo_env_ok(2) refl refl refl, of "demo_id 5 0" bob 7 2500 "opened_sale (demo_id 0 0) 1"] rival_facts
    by (simp add: request_invalid_def) blast
qed

text \<open>
  C37. The amount of an order is the 64-bit product of price and quantity: it is their product exactly when that is below two to the 63, and wraps around otherwise.
\<close>

theorem order_amount:
  assumes "reachable s d" and "all_ok e" and "fresh_ids e d rid oid eid"
    and "u = TrimSpace (Request_UserID request)" "key = TrimSpace (Request_IdempotencyKey request)" "q = Request_Quantity request"
    and "\<not> request_invalid saleID u q key" "1 \<le> char_length u"
    and "key \<notin> idempotency_keys_key ` set (idempotency_keys d)" and "sql_sale_product d saleID = Some (sale, p)"
    and "verdict e d saleID u q = None" and "0 \<le> wrap64 (products_price_minor p * q)"
  shows "\<exists>x \<in> set (orders (snd (Reserve s e d saleID request))). orders_id x = oid
    \<and> orders_amount_minor x = sint (of_int (products_price_minor p) * of_int q :: 64 word)
    \<and> (orders_amount_minor x = products_price_minor p * q \<longleftrightarrow> products_price_minor p * q < 2 ^ 63)"
proof -
  have g: "good d" by (rule reachable_good [OF assms(1)])
  have l: "ledger [] [] [] [] d" using g by (simp add: good_def)
  have p: "0 \<le> products_price_minor p"
    using sale_product_Some(3) [OF ledgerD(1) [OF l] assms(10)] ledgerD(1) [OF l]
    by (auto simp: schema_defs list_all_iff products_check_def)
  have q: "0 \<le> q" using assms(7) by (auto simp: request_invalid_def)
  let ?x = "reserved_order e saleID u q p rid oid"
  have "Reserve s e d saleID request = (Inr (reserved_result s e saleID u q p rid oid), booked s e d saleID u q key p rid oid eid)"
    by (rule Reserve_accepted [OF g assms(2-12)])
  then have "?x \<in> set (orders (snd (Reserve s e d saleID request)))" by simp
  moreover have "orders_id ?x = oid" "orders_amount_minor ?x = wrap64 (products_price_minor p * q)" by (simp_all add: new_order_def)
  moreover have "wrap64 (products_price_minor p * q) = products_price_minor p * q \<longleftrightarrow> products_price_minor p * q < 2 ^ 63"
    using wrap64_id [of "products_price_minor p * q"] wrap64_int8 [of "products_price_minor p * q"] mult_nonneg_nonneg [OF p q]
    by (auto simp: int8_def)
  ultimately show ?thesis by (intro bexI [of _ ?x]) (simp_all add: wrap64_sint)
qed

theorem order_amount_witness:
  "\<exists>x \<in> set (orders (snd (Reserve demo_store (demo_env 7 2500) pricey_db (demo_id 5 0) (bob\<lparr>Request_Quantity := 8\<rparr>)))). orders_amount_minor x = 8"
proof -
  have b: "TrimSpace (Request_UserID (bob\<lparr>Request_Quantity := 8\<rparr>)) = ''bob''" "TrimSpace (Request_IdempotencyKey (bob\<lparr>Request_Quantity := 8\<rparr>)) = ''key-2''"
    "Request_Quantity (bob\<lparr>Request_Quantity := 8\<rparr>) = 8" using alice_sel by simp_all
  have w: "0 \<le> wrap64 (products_price_minor pricey_product * 8)" "sint (of_int (products_price_minor pricey_product) * of_int 8 :: 64 word) = 8"
    by (simp_all add: pricey_product_def wrap64_def)
  show ?thesis
    using order_amount [OF unusual_reachable(2) demo_env_ok(2) pricey_facts(3), of "''bob''" "bob\<lparr>Request_Quantity := 8\<rparr>" "''key-2''" 8 "demo_id 5 0"
        "opened_sale (demo_id 4 0) 8" pricey_product] b w pricey_facts(1,2,4)
    by (auto simp: request_invalid_def)
qed

text \<open>
  C38. \<open>Reserve\<close> writes the sale before the inventory, a cancellation writes the inventory before the sale. In every reachable database with a pending
  reservation, a buyer of the same sale who would be served and the cancellation of that reservation come to wait for each other: after five statements of the one and four of the other
  neither has a result, nothing is committed, and no further attempt of either changes anything until the server gives one of them up. The purchase that a retry
  would complete then fails with a database error.
\<close>

theorem reserve_cancel_deadlock:
  fixes s :: Store and H :: "string \<Rightarrow> int" and e e' :: env and request :: ReservationRequest
  assumes "reachable s d" and "r \<in> set (reservations d)" and "reservations_state r = ReservationPending"
    and "\<not> request_invalid (reservations_sale_id r) (TrimSpace (Request_UserID request)) (Request_Quantity request) (TrimSpace (Request_IdempotencyKey request))"
    and "TrimSpace (Request_IdempotencyKey request) \<notin> idempotency_keys_key ` set (idempotency_keys d)"
    and "verdict e d (reservations_sale_id r) (TrimSpace (Request_UserID request)) (Request_Quantity request) = None"
  defines "calls \<equiv> [Booking (begin_txn e (reservations_sale_id r) request), Moving (begin_move e' (reservations_id r) ReservationCancelled)]"
    and "turns \<equiv> replicate 5 (Turn 0) @ replicate 4 (Turn 1)"
  shows "run_sessions s H d calls (turns @ map Turn later) = run_sessions s H d calls turns
    \<and> map session_result (txns (run_sessions s H d calls turns)) = [None, None]
    \<and> committed (run_sessions s H d calls turns) = d"
proof -
  let ?t = "begin_txn e (reservations_sale_id r) request"
  have "entered d ?t" "verdict e d (reservations_sale_id r) (Txn_user ?t) (Txn_units ?t) = None"
    using assms(4-6) by (simp_all add: entered_def begin_txn_def)
  from stuck [OF reachable_good [OF assms(1)] assms(2,3) refl this, where s = s and H = H and e' = e'] obtain a b
    where ab: "session_step s H d [b] a = None" "session_step s H d [a] b = None" "session_result a = None" "session_result b = None"
      "run_sessions s H d calls turns = two d a b" unfolding calls_def turns_def by blast
  have "run_sessions s H d calls (turns @ map Turn later) = two d a b"
    using ab(5) turns_wait [OF ab(1,2), of later] by (simp add: run_sessions_def run_world_def)
  with ab show ?thesis by simp
qed

theorem reserve_cancel_deadlock_witness:
  "map session_result (txns (run_sessions demo_store (\<lambda>_. 0) half_db
     [Booking (begin_txn (demo_env 2 3000) (demo_id 0 1) bob), Moving (begin_move (demo_env 3 3000) (demo_id 1 0) ReservationCancelled)]
     (replicate 5 (Turn 0) @ replicate 4 (Turn 1)))) = [None, None]"
  using reserve_cancel_deadlock [OF half_db_facts(1), where r = alice_row and request = bob and e = "demo_env 2 3000" and e' = "demo_env 3 3000"
      and H = "\<lambda>_. 0" and later = "[]"]
  by (simp add: half_db_facts demo_valid)

text \<open>
  C39. Identifiers are version 4 UUIDs: 36 characters with hyphens in the four places, the version digit 4 and a variant digit in 8, 9, a and b; two identifiers are equal exactly when
  the 16 random bytes agree outside the six forced bits.
\<close>

theorem new_id_shape:
  assumes "length b = 16" and "length b' = 16"
  shows "\<exists>i. NewID (Some b) = Inr i \<and> length i = 36 \<and> (\<forall>k \<in> {8, 13, 18, 23}. i ! k = CHR ''-'') \<and> i ! 14 = CHR ''4''
    \<and> i ! 19 \<in> set ''89ab''
    \<and> (NewID (Some b') = Inr i \<longleftrightarrow> b[6 := b ! 6 AND 0x0f, 8 := b ! 8 AND 0x3f] = b'[6 := b' ! 6 AND 0x0f, 8 := b' ! 8 AND 0x3f])"
proof -
  have "length (format_id (set_version b)) = 36" by (simp add: length_format_id assms(1))
  moreover have "\<forall>k \<in> {8, 13, 18, 23}. format_id (set_version b) ! k = CHR ''-''" by (rule format_id_hyphens) (simp add: assms(1))
  moreover have "format_id (set_version b) ! 14 = CHR ''4''" "format_id (set_version b) ! 19 \<in> set ''89ab''"
    by (rule format_id_version [OF assms(1)])+
  moreover have "format_id (set_version b') = format_id (set_version b) \<longleftrightarrow>
      b[6 := b ! 6 AND 0x0f, 8 := b ! 8 AND 0x3f] = b'[6 := b' ! 6 AND 0x0f, 8 := b' ! 8 AND 0x3f]"
    using set_version_eq [OF assms] format_id_inj [of "set_version b'" "set_version b"] assms by auto
  ultimately show ?thesis by (simp add: NewID_def)
qed

theorem new_id_shape_witness:
  "\<exists>i. NewID (Some (replicate 16 0xff)) = Inr i \<and> length i = 36 \<and> i ! 14 = CHR ''4''"
  using new_id_shape [of "replicate 16 0xff" "replicate 16 0"] by auto

text \<open>
  C40. The repository guardrails pass exactly when every required file exists, every directory outside the pruned ones can be listed, and every file in them has a harmless name, at most 5 MiB and
  readable contents in which no secret marker occurs.
\<close>

theorem guardrails_verdict:
  "fst (guardrails_main exists_path tree) = 0 \<longleftrightarrow>
     list_all exists_path required \<and> listable ''.'' ''.'' tree \<and> list_all harmless (visible ''.'' ''.'' tree)"
proof -
  have "fst (guardrails_main exists_path tree) = 0 \<longleftrightarrow> list_all exists_path required \<and> walk ''.'' ''.'' tree = ([], None)"
    by (auto simp: guardrails_main_def Let_def list_all_iff filter_empty_conv split: prod.split option.split)
  then show ?thesis by (simp add: walk_clean)
qed

end
